(* ===== verification/Prelude.thy ===== *)
theory Prelude
  imports Main "HOL-Library.Word"
begin

text \<open>
  Shared vocabulary of the development: Go's machine integers and instants, Go error values
  (with \<open>errors.Is\<close> and \<open>errors.As\<close>), and tables of rows looked up by a key.
  The collections \<open>table_simps\<close> and \<open>conn_simps\<close> gather the rewrite rules that carry the
  proofs of the components.
\<close>

named_theorems table_simps "lookup, insertion and update of keyed rows"
named_theorems conn_simps "one round trip of a statement over a connection"

subsection \<open>Machine integers and instants\<close>

type_synonym int64 = "64 word"
type_synonym int32 = "32 word"

text \<open>
  An instant is a number of nanoseconds; a \<open>time.Duration\<close> is a signed 64 bit number of
  nanoseconds. A Go string is a sequence of bytes, as \<open>len\<close> counts it.
\<close>

type_synonym instant = int
type_synonym duration = int64
type_synonym uuid = string

abbreviation min_int64 :: int where "min_int64 \<equiv> - (2 ^ 63)"
abbreviation max_int64 :: int where "max_int64 \<equiv> 2 ^ 63 - 1"
abbreviation max_int32 :: int where "max_int32 \<equiv> 2 ^ 31 - 1"

lemma sint64_range: "min_int64 \<le> sint (a :: int64)" "sint (a :: int64) \<le> max_int64"
  using sint_range_size [of a] by (simp_all add: word_size)

lemma sint32_range: "- (2 ^ 31) \<le> sint (a :: int32)" "sint (a :: int32) \<le> max_int32"
  using sint_range_size [of a] by (simp_all add: word_size)

lemma sint64_add:
  fixes a b :: int64
  assumes "min_int64 \<le> sint a + sint b" and "sint a + sint b \<le> max_int64"
  shows "sint (a + b) = sint a + sint b"
  using assms by (simp add: sint_word_ariths signed_take_bit_int_eq_self)

lemma sint64_neg:
  fixes a :: int64
  assumes "sint a \<noteq> min_int64"
  shows "sint (- a) = - sint a"
  using assms sint64_range [of a]
  by (simp add: sint_word_ariths signed_take_bit_int_eq_self)

lemma sint64_of_int:
  assumes "min_int64 \<le> i" and "i \<le> max_int64"
  shows "sint (word_of_int i :: int64) = i"
  using assms by (simp add: sint_sbintrunc' signed_take_bit_int_eq_self)

lemma sint32_of_int:
  assumes "- (2 ^ 31) \<le> i" and "i \<le> max_int32"
  shows "sint (word_of_int i :: int32) = i"
  using assms by (simp add: sint_sbintrunc' signed_take_bit_int_eq_self)

lemma sint32_mult:
  fixes a b :: int32
  assumes "- (2 ^ 31) \<le> sint a * sint b" and "sint a * sint b \<le> max_int32"
  shows "sint (a * b) = sint a * sint b"
  using assms by (simp add: sint_word_ariths signed_take_bit_int_eq_self)

lemma sint32_sub1:
  fixes a :: int32
  assumes "1 \<le> sint a"
  shows "sint (a - 1) = sint a - 1"
  using assms sint32_range [of a]
  by (simp add: sint_word_ariths signed_take_bit_int_eq_self)

subsection \<open>Error values\<close>

text \<open>
  Go's \<open>error\<close> interface, as the code tells errors apart. The sentinels are the variables
  the code compares with \<open>errors.Is\<close>; \<open>PqError\<close> is a \<open>*pq.Error\<close> with the condition
  name \<open>Code.Name()\<close> returns and the constraint it is about; \<open>ExtError\<close> is any other value a
  library returns. \<open>Errorf\<close> is a fresh error (\<open>errors.New\<close>, or \<open>fmt.Errorf\<close> without
  \<open>%w\<close>: formatted arguments are not part of its chain), \<open>Wrapf\<close> is \<open>fmt.Errorf\<close> with
  \<open>%w\<close>, which keeps the wrapped error in the chain.
\<close>

datatype go_error =
    ErrNoRows
  | ErrInvalidToken
  | ErrExpiredToken
  | ErrSkipRetry
  | ErrEOF
  | ErrServerClosed
  | ErrServerStopped
  | PqError string string
  | ExtError string
  | Errorf string "fmt_arg list"
  | Wrapf string "fmt_arg list" go_error
and fmt_arg = FStr string | FInt int | FErr go_error

fun errors_is :: "go_error \<Rightarrow> go_error \<Rightarrow> bool" where
  "errors_is (Wrapf f as e) t \<longleftrightarrow> Wrapf f as e = t \<or> errors_is e t"
| "errors_is e t \<longleftrightarrow> e = t"

fun errors_as_pq :: "go_error \<Rightarrow> string option" where
  "errors_as_pq (PqError name constr) = Some name"
| "errors_as_pq (Wrapf f as e) = errors_as_pq e"
| "errors_as_pq _ = None"

lemma errors_is_refl [simp]: "errors_is e e"
  by (cases e) auto

lemma pq_error_is_not_no_rows: "errors_as_pq e = Some n \<Longrightarrow> \<not> errors_is e ErrNoRows"
  by (induction e rule: errors_as_pq.induct) auto

text \<open>Results of a Go function that returns \<open>(value, error)\<close>, where callers drop the value on error.\<close>

type_synonym 'a result = "go_error + 'a"

subsection \<open>Rows with a key\<close>

definition row_of :: "('r \<Rightarrow> 'k) \<Rightarrow> 'k \<Rightarrow> 'r list \<Rightarrow> 'r option" where
  "row_of key k rs = find (\<lambda>r. key r = k) rs"

definition has_key :: "('r \<Rightarrow> 'k) \<Rightarrow> 'k \<Rightarrow> 'r list \<Rightarrow> bool" where
  "has_key key k rs \<longleftrightarrow> list_ex (\<lambda>r. key r = k) rs"

definition upd_rows :: "('r \<Rightarrow> 'k) \<Rightarrow> 'k \<Rightarrow> ('r \<Rightarrow> 'r) \<Rightarrow> 'r list \<Rightarrow> 'r list" where
  "upd_rows key k f rs = map (\<lambda>r. if key r = k then f r else r) rs"

definition del_rows :: "('r \<Rightarrow> 'k) \<Rightarrow> 'k \<Rightarrow> 'r list \<Rightarrow> 'r list" where
  "del_rows key k rs = filter (\<lambda>r. key r \<noteq> k) rs"

lemma row_of_Nil [simp]: "row_of key k [] = None"
  by (simp add: row_of_def)

lemma row_of_Cons: "row_of key k (r # rs) = (if key r = k then Some r else row_of key k rs)"
  by (simp add: row_of_def)

lemma has_key_iff: "has_key key k rs \<longleftrightarrow> k \<in> key ` set rs"
  by (auto simp: has_key_def list_ex_iff)

lemma row_of_SomeD: "row_of key k rs = Some r \<Longrightarrow> r \<in> set rs \<and> key r = k"
  by (induction rs) (auto simp: row_of_Cons split: if_splits)

lemma row_of_None_iff: "row_of key k rs = None \<longleftrightarrow> \<not> has_key key k rs"
  by (induction rs) (auto simp: row_of_Cons has_key_def)

lemma row_of_Some_has_key: "row_of key k rs = Some r \<Longrightarrow> has_key key k rs"
  using row_of_SomeD [of key k rs r] by (auto simp: has_key_iff)

lemma has_key_row_of: "has_key key k rs \<Longrightarrow> \<exists>r. row_of key k rs = Some r"
  by (cases "row_of key k rs") (auto simp: row_of_None_iff)

lemma row_of_member:
  "distinct (map key rs) \<Longrightarrow> r \<in> set rs \<Longrightarrow> row_of key (key r) rs = Some r"
  by (induction rs) (auto simp: row_of_Cons image_iff)

lemma row_of_append [table_simps]:
  "row_of key k (rs @ qs) = (case row_of key k rs of None \<Rightarrow> row_of key k qs | Some r \<Rightarrow> Some r)"
  by (induction rs) (auto simp: row_of_Cons)

lemma row_of_upd [table_simps]:
  "(\<And>r. key (f r) = key r) \<Longrightarrow>
   row_of key k (upd_rows key j f rs) =
     (if k = j then map_option f (row_of key k rs) else row_of key k rs)"
  by (induction rs) (auto simp: row_of_Cons upd_rows_def)

lemma map_upd_rows [table_simps]:
  "(\<And>r. g (f r) = g r) \<Longrightarrow> map g (upd_rows key k f rs) = map g rs"
  by (simp add: upd_rows_def)

lemma image_upd_rows [table_simps]:
  "(\<And>r. g (f r) = g r) \<Longrightarrow> g ` set (upd_rows key k f rs) = g ` set rs"
  by (metis list.set_map map_upd_rows)

lemma has_key_upd_rows [table_simps]:
  "(\<And>r. g (f r) = g r) \<Longrightarrow> has_key g i (upd_rows key k f rs) = has_key g i rs"
  by (simp add: has_key_iff image_upd_rows)

lemma set_upd_rowsD:
  "x \<in> set (upd_rows key k f rs) \<Longrightarrow> \<exists>r \<in> set rs. x = (if key r = k then f r else r)"
  by (auto simp: upd_rows_def)

lemma upd_rows_absent: "\<not> has_key key k rs \<Longrightarrow> upd_rows key k f rs = rs"
  unfolding upd_rows_def has_key_iff by (rule map_idI) auto

lemma filter_upd_rows_hits:
  "distinct (map key rs) \<Longrightarrow> row_of key k rs = Some r \<Longrightarrow>
   map f (filter (\<lambda>r. key r = k) rs) = [f r]"
proof (induction rs)
  case (Cons x rs)
  show ?case
  proof (cases "key x = k")
    case True
    with Cons.prems have "k \<notin> key ` set rs" by auto
    then have "filter (\<lambda>r. key r = k) rs = []"
      by (auto simp: filter_empty_conv)
    with True Cons.prems show ?thesis by (simp add: row_of_Cons)
  next
    case False
    with Cons show ?thesis by (simp add: row_of_Cons)
  qed
qed simp

lemma sum_upd_rows:
  fixes g :: "'r \<Rightarrow> int"
  assumes "distinct (map key rs)" and "row_of key k rs = Some r"
  shows "(\<Sum>x \<leftarrow> upd_rows key k f rs. g x) = (\<Sum>x \<leftarrow> rs. g x) - g r + g (f r)"
  using assms
proof (induction rs)
  case (Cons x rs)
  show ?case
  proof (cases "key x = k")
    case True
    with Cons.prems have "\<not> has_key key k rs" by (auto simp: has_key_iff)
    with True Cons.prems show ?thesis
      using upd_rows_absent [of key k rs f] by (simp add: row_of_Cons upd_rows_def)
  next
    case False
    with Cons show ?thesis by (simp add: row_of_Cons upd_rows_def)
  qed
qed simp

lemma del_rows_has [table_simps]:
  "has_key key j (del_rows key k rs) \<longleftrightarrow> j \<noteq> k \<and> has_key key j rs"
  by (auto simp: has_key_iff del_rows_def)

lemma image_del_rows [table_simps]: "key ` set (del_rows key k rs) = key ` set rs - {k}"
  by (auto simp: del_rows_def)

lemma set_del_rows_subset: "set (del_rows key k rs) \<subseteq> set rs"
  by (auto simp: del_rows_def)

lemma distinct_del_rows: "distinct (map g rs) \<Longrightarrow> distinct (map g (del_rows key k rs))"
  by (simp add: del_rows_def distinct_map_filter)

subsection \<open>The table interface\<close>

text \<open>
  What a component may rely on of a table of the database: reading the rows back after a
  write gives the written rows. The lemmas say that, under a unique key, a table behaves as
  a finite map from keys to rows; each table of the schema interprets this locale.
\<close>

locale table =
  fixes rows :: "'d \<Rightarrow> 'r list"
    and upd :: "('r list \<Rightarrow> 'r list) \<Rightarrow> 'd \<Rightarrow> 'd"
    and key :: "'r \<Rightarrow> 'k"
  assumes rows_upd: "rows (upd f d) = f (rows d)"
begin

lemma lookup_insert:
  "\<not> has_key key (key r) (rows d) \<Longrightarrow>
   row_of key k (rows (upd (\<lambda>rs. rs @ [r]) d)) =
     (if k = key r then Some r else row_of key k (rows d))"
  using row_of_None_iff [of key "key r" "rows d"]
  by (auto simp: rows_upd row_of_append row_of_Cons split: option.splits)

lemma lookup_update:
  "(\<And>r. key (f r) = key r) \<Longrightarrow>
   row_of key k (rows (upd (upd_rows key j f) d)) =
     (if k = j then map_option f (row_of key k (rows d)) else row_of key k (rows d))"
  by (simp add: rows_upd row_of_upd)

lemma unique_insert:
  "distinct (map key (rows d)) \<Longrightarrow> \<not> has_key key (key r) (rows d) \<Longrightarrow>
   distinct (map key (rows (upd (\<lambda>rs. rs @ [r]) d)))"
  by (auto simp: rows_upd has_key_iff)

lemma unique_update:
  "distinct (map key (rows d)) \<Longrightarrow> (\<And>r. key (f r) = key r) \<Longrightarrow>
   distinct (map key (rows (upd (upd_rows key j f) d)))"
  by (simp add: rows_upd map_upd_rows)

lemma lookup_unique_row:
  "distinct (map key (rows d)) \<Longrightarrow> r \<in> set (rows d) \<Longrightarrow> row_of key (key r) (rows d) = Some r"
  by (rule row_of_member)

end

end
