(* ===== verification/Database.thy ===== *)
theory Database
  imports Prelude
begin

text \<open>
  The database: the row types of db/sqlc/models.go, the tables with the constraints that the
  migrations in db/migration declare (primary keys, foreign keys, unique keys, \<open>bigserial\<close>
  sequences), and the meaning of each SQL statement the query files embed. A statement runs at
  the timestamp of its transaction and yields its returned rows or the error condition
  PostgreSQL raises, with the database after it; a failing statement leaves the tables alone
  but keeps the sequence values it drew, as \<open>nextval\<close> is never undone.
\<close>

subsection \<open>Rows (models.go)\<close>

record Account =
  acc_ID :: int64
  acc_Owner :: string
  acc_Balance :: int64
  acc_Currency :: string
  acc_CreatedAt :: instant

record Entry =
  ent_ID :: int64
  ent_AccountID :: int64
  ent_Amount :: int64
  ent_CreatedAt :: instant

record Session =
  ses_ID :: uuid
  ses_Username :: string
  ses_RefreshToken :: string
  ses_UserAgent :: string
  ses_ClientIp :: string
  ses_IsBlocked :: bool
  ses_ExpiredAt :: instant
  ses_CreatedAt :: instant

record Transfer =
  tr_ID :: int64
  tr_FromAccountID :: int64
  tr_ToAccountID :: int64
  tr_Amount :: int64
  tr_CreatedAt :: instant

record User =
  usr_Username :: string
  usr_HashedPassword :: string
  usr_FullName :: string
  usr_PasswordChangedAt :: instant
  usr_Email :: string
  usr_CreatedAt :: instant

text \<open>
  The tables hold their rows in insertion order; the three sequences hold the next value
  \<open>nextval\<close> returns.
\<close>

record database =
  users :: "User list"
  accounts :: "Account list"
  entries :: "Entry list"
  transfers :: "Transfer list"
  sessions :: "Session list"
  accounts_seq :: int
  entries_seq :: int
  transfers_seq :: int

definition empty_db :: database where
  "empty_db = \<lparr>users = [], accounts = [], entries = [], transfers = [], sessions = [],
     accounts_seq = 1, entries_seq = 1, transfers_seq = 1\<rparr>"

interpretation users_tbl: table users users_update usr_Username
  by unfold_locales simp

interpretation accounts_tbl: table accounts accounts_update acc_ID
  by unfold_locales simp

interpretation entries_tbl: table entries entries_update ent_ID
  by unfold_locales simp

interpretation transfers_tbl: table transfers transfers_update tr_ID
  by unfold_locales simp

interpretation sessions_tbl: table sessions sessions_update ses_ID
  by unfold_locales simp

subsection \<open>Parameters of the statements\<close>

record CreateAccountParams =
  cap_Owner :: string
  cap_Balance :: int64
  cap_Currency :: string

record AddAccountBalanceParams =
  aab_Amount :: int64
  aab_ID :: int64

record UpdateAccountParams =
  uap_ID :: int64
  uap_Balance :: int64

record ListAccountsParams =
  lap_Owner :: string
  lap_Limit :: int32
  lap_Offset :: int32

record CreateEntryParams =
  cep_AccountID :: int64
  cep_Amount :: int64

record ListEntriesParams =
  lep_AccountID :: int64
  lep_Limit :: int32
  lep_Offset :: int32

record CreateTransferParams =
  ctp_FromAccountID :: int64
  ctp_ToAccountID :: int64
  ctp_Amount :: int64

record ListTransfersParams =
  ltp_FromAccountID :: int64
  ltp_ToAccountID :: int64
  ltp_Limit :: int32
  ltp_Offset :: int32

record CreateSessionParams =
  csp_ID :: uuid
  csp_Username :: string
  csp_RefreshToken :: string
  csp_UserAgent :: string
  csp_ClientIp :: string
  csp_IsBlocked :: bool
  csp_ExpiredAt :: instant

record CreateUserParams =
  cup_Username :: string
  cup_HashedPassword :: string
  cup_FullName :: string
  cup_Email :: string

text \<open>\<open>sql.NullString\<close> and \<open>sql.NullTime\<close>: the value counts only when \<open>Valid\<close>.\<close>

record NullString =
  ns_String :: string
  ns_Valid :: bool

record NullTime =
  nt_Time :: instant
  nt_Valid :: bool

record UpdateUserParams =
  uup_HashedPassword :: NullString
  uup_PasswordChangedAt :: NullTime
  uup_FullName :: NullString
  uup_Email :: NullString
  uup_Username :: string

subsection \<open>Building blocks of the statements\<close>

type_synonym 'r stmt = "instant \<Rightarrow> database \<Rightarrow> 'r list result \<times> database"

text \<open>The default of \<open>users.password_changed_at\<close>: midnight, 1 January of year 1 (UTC).\<close>

definition zero_time :: instant where
  "zero_time = - 62135596800 * 1000000000"

abbreviation seq_exhausted :: go_error where
  "seq_exhausted \<equiv> PqError ''sequence_generator_limit_exceeded'' ''''"

abbreviation unique_violation :: "string \<Rightarrow> go_error" where
  "unique_violation c \<equiv> PqError ''unique_violation'' c"

abbreviation foreign_key_violation :: "string \<Rightarrow> go_error" where
  "foreign_key_violation c \<equiv> PqError ''foreign_key_violation'' c"

abbreviation out_of_range :: go_error where
  "out_of_range \<equiv> PqError ''numeric_value_out_of_range'' ''''"

definition nextval :: "int \<Rightarrow> int64 option" where
  "nextval s = (if s \<le> max_int64 then Some (word_of_int s) else None)"

text \<open>Addition of \<open>bigint\<close>s raises an error where Go's \<open>int64\<close> would wrap around.\<close>

definition pg_add :: "int64 \<Rightarrow> int64 \<Rightarrow> int64 option" where
  "pg_add a b =
     (if min_int64 \<le> sint a + sint b \<and> sint a + sint b \<le> max_int64 then Some (a + b) else None)"

definition coalesce_string :: "NullString \<Rightarrow> string \<Rightarrow> string" where
  "coalesce_string n v = (if ns_Valid n then ns_String n else v)"

text \<open>
  A \<open>timestamptz\<close> has a resolution of a microsecond: an instant is rounded to the nearest one when it is
  stored (half to even). \<open>now()\<close> is such an instant already.
\<close>

definition timestamptz :: "instant \<Rightarrow> instant" where
  "timestamptz t =
     (let q = t div 1000; r = t mod 1000
      in 1000 * (if r < 500 \<or> r = 500 \<and> even q then q else q + 1))"

lemma timestamptz_near: "\<bar>timestamptz t - t\<bar> \<le> 500"
proof -
  have "t = 1000 * (t div 1000) + t mod 1000" "0 \<le> t mod 1000" "t mod 1000 < 1000" by simp_all
  then show ?thesis unfolding timestamptz_def Let_def by (smt (verit))
qed

lemma timestamptz_stored [simp]: "timestamptz (timestamptz t) = timestamptz t"
  by (simp add: timestamptz_def Let_def)

definition coalesce_time :: "NullTime \<Rightarrow> instant \<Rightarrow> instant" where
  "coalesce_time n v = (if nt_Valid n then timestamptz (nt_Time n) else v)"

text \<open>\<open>LIMIT\<close> and \<open>OFFSET\<close>: negative row counts are errors, the offset is checked first.\<close>

definition limit_offset :: "int32 \<Rightarrow> int32 \<Rightarrow> 'r list \<Rightarrow> 'r list result" where
  "limit_offset lim off rs =
     (if sint off < 0 then Inl (PqError ''invalid_row_count_in_result_offset_clause'' '''')
      else if sint lim < 0 then Inl (PqError ''invalid_row_count_in_limit_clause'' '''')
      else Inr (take (nat (sint lim)) (drop (nat (sint off)) rs)))"

lemma sint_pg_add: "pg_add a b = Some c \<Longrightarrow> sint c = sint a + sint b"
  by (auto simp: pg_add_def sint64_add split: if_splits)

lemma sint_pg_add_defined: "pg_add a b = Some c \<Longrightarrow> sint (a + b) = sint a + sint b"
  by (auto simp: pg_add_def sint64_add split: if_splits)

lemma pg_add_None:
  "pg_add a b = None \<longleftrightarrow> sint a + sint b < min_int64 \<or> max_int64 < sint a + sint b"
  by (auto simp: pg_add_def)

lemma nextval_SomeD: "nextval s = Some i \<Longrightarrow> 1 \<le> s \<Longrightarrow> sint i = s"
  by (auto simp: nextval_def sint64_of_int split: if_splits)

subsection \<open>Statements on accounts (account.sql.go)\<close>

definition sql_add_account_balance :: "AddAccountBalanceParams \<Rightarrow> Account stmt" where
  "sql_add_account_balance p now d =
     (case row_of acc_ID (aab_ID p) (accounts d) of
        None \<Rightarrow> (Inr [], d)
      | Some a \<Rightarrow>
          (case pg_add (acc_Balance a) (aab_Amount p) of
             None \<Rightarrow> (Inl out_of_range, d)
           | Some b \<Rightarrow>
               (Inr [a\<lparr>acc_Balance := b\<rparr>],
                d\<lparr>accounts := upd_rows acc_ID (aab_ID p) (acc_Balance_update (\<lambda>_. b)) (accounts d)\<rparr>)))"

definition sql_create_account :: "CreateAccountParams \<Rightarrow> Account stmt" where
  "sql_create_account p now d =
     (case nextval (accounts_seq d) of
        None \<Rightarrow> (Inl seq_exhausted, d)
      | Some i \<Rightarrow>
          (let d' = d\<lparr>accounts_seq := accounts_seq d + 1\<rparr>;
               a = \<lparr>acc_ID = i, acc_Owner = cap_Owner p, acc_Balance = cap_Balance p,
                    acc_Currency = cap_Currency p, acc_CreatedAt = now\<rparr>
           in if has_key acc_ID i (accounts d) then (Inl (unique_violation ''accounts_pkey''), d')
              else if has_key (\<lambda>r. (acc_Owner r, acc_Currency r)) (cap_Owner p, cap_Currency p) (accounts d)
                then (Inl (unique_violation ''owner_currency_key''), d')
              else if \<not> has_key usr_Username (cap_Owner p) (users d)
                then (Inl (foreign_key_violation ''accounts_owner_fkey''), d')
              else (Inr [a], d'\<lparr>accounts := accounts d @ [a]\<rparr>)))"

definition sql_delete_account :: "int64 \<Rightarrow> Account stmt" where
  "sql_delete_account i now d =
     (if \<not> has_key acc_ID i (accounts d) then (Inr [], d)
      else if has_key ent_AccountID i (entries d)
        then (Inl (foreign_key_violation ''entries_account_id_fkey''), d)
      else if has_key tr_FromAccountID i (transfers d)
        then (Inl (foreign_key_violation ''transfers_from_account_id_fkey''), d)
      else if has_key tr_ToAccountID i (transfers d)
        then (Inl (foreign_key_violation ''transfers_to_account_id_fkey''), d)
      else (Inr [], d\<lparr>accounts := del_rows acc_ID i (accounts d)\<rparr>))"

definition sql_get_account :: "int64 \<Rightarrow> Account stmt" where
  "sql_get_account i now d = (Inr (take 1 (filter (\<lambda>a. acc_ID a = i) (accounts d))), d)"

text \<open>\<open>FOR NO KEY UPDATE\<close> also locks the row; locks matter to concurrent transactions only.\<close>

definition sql_get_account_for_update :: "int64 \<Rightarrow> Account stmt" where
  "sql_get_account_for_update i now d = (Inr (take 1 (filter (\<lambda>a. acc_ID a = i) (accounts d))), d)"

definition sql_list_accounts :: "ListAccountsParams \<Rightarrow> Account stmt" where
  "sql_list_accounts p now d =
     (limit_offset (lap_Limit p) (lap_Offset p)
        (sort_key (\<lambda>a. sint (acc_ID a)) (filter (\<lambda>a. acc_Owner a = lap_Owner p) (accounts d))), d)"

definition sql_update_account :: "UpdateAccountParams \<Rightarrow> Account stmt" where
  "sql_update_account p now d =
     (case row_of acc_ID (uap_ID p) (accounts d) of
        None \<Rightarrow> (Inr [], d)
      | Some a \<Rightarrow>
          (Inr [a\<lparr>acc_Balance := uap_Balance p\<rparr>],
           d\<lparr>accounts := upd_rows acc_ID (uap_ID p) (acc_Balance_update (\<lambda>_. uap_Balance p)) (accounts d)\<rparr>))"

subsection \<open>Statements on entries (entry.sql.go)\<close>

definition sql_create_entry :: "CreateEntryParams \<Rightarrow> Entry stmt" where
  "sql_create_entry p now d =
     (case nextval (entries_seq d) of
        None \<Rightarrow> (Inl seq_exhausted, d)
      | Some i \<Rightarrow>
          (let d' = d\<lparr>entries_seq := entries_seq d + 1\<rparr>;
               e = \<lparr>ent_ID = i, ent_AccountID = cep_AccountID p, ent_Amount = cep_Amount p,
                    ent_CreatedAt = now\<rparr>
           in if has_key ent_ID i (entries d) then (Inl (unique_violation ''entries_pkey''), d')
              else if \<not> has_key acc_ID (cep_AccountID p) (accounts d)
                then (Inl (foreign_key_violation ''entries_account_id_fkey''), d')
              else (Inr [e], d'\<lparr>entries := entries d @ [e]\<rparr>)))"

definition sql_get_entry :: "int64 \<Rightarrow> Entry stmt" where
  "sql_get_entry i now d = (Inr (take 1 (filter (\<lambda>e. ent_ID e = i) (entries d))), d)"

definition sql_list_entries :: "ListEntriesParams \<Rightarrow> Entry stmt" where
  "sql_list_entries p now d =
     (limit_offset (lep_Limit p) (lep_Offset p)
        (sort_key (\<lambda>e. sint (ent_ID e)) (filter (\<lambda>e. ent_AccountID e = lep_AccountID p) (entries d))), d)"

subsection \<open>Statements on transfers (transfer.sql.go)\<close>

definition sql_create_transfer :: "CreateTransferParams \<Rightarrow> Transfer stmt" where
  "sql_create_transfer p now d =
     (case nextval (transfers_seq d) of
        None \<Rightarrow> (Inl seq_exhausted, d)
      | Some i \<Rightarrow>
          (let d' = d\<lparr>transfers_seq := transfers_seq d + 1\<rparr>;
               t = \<lparr>tr_ID = i, tr_FromAccountID = ctp_FromAccountID p,
                    tr_ToAccountID = ctp_ToAccountID p, tr_Amount = ctp_Amount p,
                    tr_CreatedAt = now\<rparr>
           in if has_key tr_ID i (transfers d) then (Inl (unique_violation ''transfers_pkey''), d')
              else if \<not> has_key acc_ID (ctp_FromAccountID p) (accounts d)
                then (Inl (foreign_key_violation ''transfers_from_account_id_fkey''), d')
              else if \<not> has_key acc_ID (ctp_ToAccountID p) (accounts d)
                then (Inl (foreign_key_violation ''transfers_to_account_id_fkey''), d')
              else (Inr [t], d'\<lparr>transfers := transfers d @ [t]\<rparr>)))"

definition sql_get_transfer :: "int64 \<Rightarrow> Transfer stmt" where
  "sql_get_transfer i now d = (Inr (take 1 (filter (\<lambda>t. tr_ID t = i) (transfers d))), d)"

definition sql_list_transfers :: "ListTransfersParams \<Rightarrow> Transfer stmt" where
  "sql_list_transfers p now d =
     (limit_offset (ltp_Limit p) (ltp_Offset p)
        (sort_key (\<lambda>t. sint (tr_ID t))
           (filter (\<lambda>t. tr_FromAccountID t = ltp_FromAccountID p \<or> tr_ToAccountID t = ltp_ToAccountID p)
              (transfers d))), d)"

subsection \<open>Statements on sessions (session.sql.go)\<close>

definition sql_create_session :: "CreateSessionParams \<Rightarrow> Session stmt" where
  "sql_create_session p now d =
     (let s = \<lparr>ses_ID = csp_ID p, ses_Username = csp_Username p,
               ses_RefreshToken = csp_RefreshToken p, ses_UserAgent = csp_UserAgent p,
               ses_ClientIp = csp_ClientIp p, ses_IsBlocked = csp_IsBlocked p,
               ses_ExpiredAt = timestamptz (csp_ExpiredAt p), ses_CreatedAt = now\<rparr>
      in if has_key ses_ID (csp_ID p) (sessions d) then (Inl (unique_violation ''sessions_pkey''), d)
         else if \<not> has_key usr_Username (csp_Username p) (users d)
           then (Inl (foreign_key_violation ''sessions_username_fkey''), d)
         else (Inr [s], d\<lparr>sessions := sessions d @ [s]\<rparr>))"

definition sql_get_session :: "uuid \<Rightarrow> Session stmt" where
  "sql_get_session i now d = (Inr (take 1 (filter (\<lambda>s. ses_ID s = i) (sessions d))), d)"

subsection \<open>Statements on users (user.sql.go)\<close>

definition sql_create_user :: "CreateUserParams \<Rightarrow> User stmt" where
  "sql_create_user p now d =
     (let u = \<lparr>usr_Username = cup_Username p, usr_HashedPassword = cup_HashedPassword p,
               usr_FullName = cup_FullName p, usr_PasswordChangedAt = zero_time,
               usr_Email = cup_Email p, usr_CreatedAt = now\<rparr>
      in if has_key usr_Username (cup_Username p) (users d)
           then (Inl (unique_violation ''users_pkey''), d)
         else if has_key usr_Email (cup_Email p) (users d)
           then (Inl (unique_violation ''users_email_key''), d)
         else (Inr [u], d\<lparr>users := users d @ [u]\<rparr>))"

definition sql_get_user :: "string \<Rightarrow> User stmt" where
  "sql_get_user n now d = (Inr (take 1 (filter (\<lambda>u. usr_Username u = n) (users d))), d)"

definition user_after_update :: "UpdateUserParams \<Rightarrow> User \<Rightarrow> User" where
  "user_after_update p u =
     u\<lparr>usr_HashedPassword := coalesce_string (uup_HashedPassword p) (usr_HashedPassword u),
       usr_PasswordChangedAt := coalesce_time (uup_PasswordChangedAt p) (usr_PasswordChangedAt u),
       usr_FullName := coalesce_string (uup_FullName p) (usr_FullName u),
       usr_Email := coalesce_string (uup_Email p) (usr_Email u)\<rparr>"

definition sql_update_user :: "UpdateUserParams \<Rightarrow> User stmt" where
  "sql_update_user p now d =
     (case row_of usr_Username (uup_Username p) (users d) of
        None \<Rightarrow> (Inr [], d)
      | Some u \<Rightarrow>
          (let u' = user_after_update p u
           in if list_ex (\<lambda>r. usr_Username r \<noteq> uup_Username p \<and> usr_Email r = usr_Email u') (users d)
                then (Inl (unique_violation ''users_email_key''), d)
              else (Inr [u'], d\<lparr>users := upd_rows usr_Username (uup_Username p) (user_after_update p) (users d)\<rparr>)))"

end
