(* ===== verification/Integrity.thy ===== *)
theory Integrity
  imports Database
begin

text \<open>
  Referential integrity: the invariant \<open>wf_db\<close> the schema declares (unique keys, foreign keys,
  sequences ahead of the ids they handed out), preserved by every statement; and the frame of
  a failing statement, which changes no table. \<open>ledger_ok\<close> is the bookkeeping invariant the
  service relies on: the balance of each account is the sum of its entries.
\<close>

subsection \<open>The invariants\<close>

definition keys_unique :: "database \<Rightarrow> bool" where
  "keys_unique d \<longleftrightarrow>
     distinct (map usr_Username (users d)) \<and>
     distinct (map usr_Email (users d)) \<and>
     distinct (map acc_ID (accounts d)) \<and>
     distinct (map (\<lambda>a. (acc_Owner a, acc_Currency a)) (accounts d)) \<and>
     distinct (map ent_ID (entries d)) \<and>
     distinct (map tr_ID (transfers d)) \<and>
     distinct (map ses_ID (sessions d))"

definition fks_ok :: "database \<Rightarrow> bool" where
  "fks_ok d \<longleftrightarrow>
     acc_Owner ` set (accounts d) \<subseteq> usr_Username ` set (users d) \<and>
     ent_AccountID ` set (entries d) \<subseteq> acc_ID ` set (accounts d) \<and>
     tr_FromAccountID ` set (transfers d) \<subseteq> acc_ID ` set (accounts d) \<and>
     tr_ToAccountID ` set (transfers d) \<subseteq> acc_ID ` set (accounts d) \<and>
     ses_Username ` set (sessions d) \<subseteq> usr_Username ` set (users d)"

text \<open>
  An id still in a table is below the next value of its sequence. (Entries may outlive no
  account, so the bound on entry accounts follows from the foreign key.)
\<close>

definition below :: "('r \<Rightarrow> int64) \<Rightarrow> 'r list \<Rightarrow> int \<Rightarrow> bool" where
  "below key rs s \<longleftrightarrow> 1 \<le> s \<and> (\<forall>r \<in> set rs. 1 \<le> sint (key r) \<and> sint (key r) < s)"

definition seqs_ok :: "database \<Rightarrow> bool" where
  "seqs_ok d \<longleftrightarrow>
     below acc_ID (accounts d) (accounts_seq d) \<and>
     below ent_ID (entries d) (entries_seq d) \<and>
     below tr_ID (transfers d) (transfers_seq d)"

definition wf_db :: "database \<Rightarrow> bool" where
  "wf_db d \<longleftrightarrow> keys_unique d \<and> fks_ok d \<and> seqs_ok d"

definition entry_sum :: "int64 \<Rightarrow> Entry list \<Rightarrow> int" where
  "entry_sum i es = (\<Sum>e \<leftarrow> filter (\<lambda>e. ent_AccountID e = i) es. sint (ent_Amount e))"

definition ledger_ok :: "database \<Rightarrow> bool" where
  "ledger_ok d \<longleftrightarrow> (\<forall>a \<in> set (accounts d). sint (acc_Balance a) = entry_sum (acc_ID a) (entries d))"

definition total_balance :: "database \<Rightarrow> int" where
  "total_balance d = (\<Sum>a \<leftarrow> accounts d. sint (acc_Balance a))"

definition same_tables :: "database \<Rightarrow> database \<Rightarrow> bool" where
  "same_tables d d' \<longleftrightarrow> users d' = users d \<and> accounts d' = accounts d \<and> entries d' = entries d \<and>
     transfers d' = transfers d \<and> sessions d' = sessions d"

lemmas wf_db_defs = wf_db_def keys_unique_def fks_ok_def seqs_ok_def

lemma wf_empty_db: "wf_db empty_db"
  by (simp add: wf_db_defs below_def empty_db_def)

lemma ledger_empty_db: "ledger_ok empty_db"
  by (simp add: ledger_ok_def empty_db_def)

lemma same_tables_refl [simp]: "same_tables d d"
  by (simp add: same_tables_def)

lemma same_tables_trans: "same_tables d d' \<Longrightarrow> same_tables d' d'' \<Longrightarrow> same_tables d d''"
  by (simp add: same_tables_def)

lemma same_tables_ledger: "same_tables d d' \<Longrightarrow> ledger_ok d \<Longrightarrow> ledger_ok d'"
  by (simp add: same_tables_def ledger_ok_def)

lemma same_tables_total: "same_tables d d' \<Longrightarrow> total_balance d' = total_balance d"
  by (simp add: same_tables_def total_balance_def)

subsection \<open>Sequences hand out fresh ids\<close>

lemma below_fresh:
  assumes "below key rs s" and "nextval s = Some i"
  shows "\<not> has_key key i rs" and "sint i = s"
proof -
  show i: "sint i = s"
    using assms nextval_SomeD by (auto simp: below_def)
  show "\<not> has_key key i rs"
    using assms(1) i by (force simp: below_def has_key_iff)
qed

lemma below_append:
  "below key rs s \<Longrightarrow> sint (key r) = s \<Longrightarrow> below key (rs @ [r]) (s + 1)"
  by (force simp: below_def)

lemma below_skip: "below key rs s \<Longrightarrow> below key rs (s + 1)"
  by (force simp: below_def)

lemma below_mono: "below key rs s \<Longrightarrow> s \<le> s' \<Longrightarrow> below key rs s'"
  by (force simp: below_def)

lemma below_upd_rows:
  "(\<And>r. key (f r) = key r) \<Longrightarrow> below key rs s \<Longrightarrow> below key (upd_rows k j f rs) s"
  by (auto simp: below_def dest!: set_upd_rowsD)

lemma below_del_rows: "below key rs s \<Longrightarrow> below key (del_rows k j rs) s"
  by (auto simp: below_def del_rows_def)

subsection \<open>Every statement keeps referential integrity\<close>

lemma wf_skip_seq:
  assumes "wf_db d"
  shows "wf_db (d\<lparr>accounts_seq := accounts_seq d + 1\<rparr>)"
    and "wf_db (d\<lparr>entries_seq := entries_seq d + 1\<rparr>)"
    and "wf_db (d\<lparr>transfers_seq := transfers_seq d + 1\<rparr>)"
  using assms by (auto simp: wf_db_defs below_skip)

lemma wf_update_balance:
  "wf_db d \<Longrightarrow> wf_db (d\<lparr>accounts := upd_rows acc_ID i (acc_Balance_update f) (accounts d)\<rparr>)"
  by (auto simp: wf_db_defs below_upd_rows map_upd_rows image_upd_rows)

lemma wf_sql_add_account_balance: "wf_db d \<Longrightarrow> wf_db (snd (sql_add_account_balance p now d))"
  by (auto simp: sql_add_account_balance_def wf_update_balance split: option.splits)

lemma wf_sql_update_account: "wf_db d \<Longrightarrow> wf_db (snd (sql_update_account p now d))"
  by (auto simp: sql_update_account_def wf_update_balance split: option.splits)

lemma wf_sql_create_account:
  assumes wf: "wf_db d"
  shows "wf_db (snd (sql_create_account p now d))"
proof (cases "nextval (accounts_seq d)")
  case None
  with wf show ?thesis by (simp add: sql_create_account_def)
next
  case (Some i)
  have "below acc_ID (accounts d) (accounts_seq d)" using wf by (simp add: wf_db_defs)
  note fresh = below_fresh [OF this Some]
  show ?thesis
    using wf fresh wf_skip_seq(1) [OF wf] below_append [OF \<open>below acc_ID _ _\<close>]
    by (auto simp: sql_create_account_def Some Let_def wf_db_defs has_key_iff)
qed

lemma wf_sql_create_entry:
  assumes wf: "wf_db d"
  shows "wf_db (snd (sql_create_entry p now d))"
proof (cases "nextval (entries_seq d)")
  case None
  with wf show ?thesis by (simp add: sql_create_entry_def)
next
  case (Some i)
  have "below ent_ID (entries d) (entries_seq d)" using wf by (simp add: wf_db_defs)
  note fresh = below_fresh [OF this Some]
  show ?thesis
    using wf fresh wf_skip_seq(2) [OF wf] below_append [OF \<open>below ent_ID _ _\<close>]
    by (auto simp: sql_create_entry_def Some Let_def wf_db_defs has_key_iff)
qed

lemma wf_sql_create_transfer:
  assumes wf: "wf_db d"
  shows "wf_db (snd (sql_create_transfer p now d))"
proof (cases "nextval (transfers_seq d)")
  case None
  with wf show ?thesis by (simp add: sql_create_transfer_def)
next
  case (Some i)
  have "below tr_ID (transfers d) (transfers_seq d)" using wf by (simp add: wf_db_defs)
  note fresh = below_fresh [OF this Some]
  show ?thesis
    using wf fresh wf_skip_seq(3) [OF wf] below_append [OF \<open>below tr_ID _ _\<close>]
    by (auto simp: sql_create_transfer_def Some Let_def wf_db_defs has_key_iff)
qed

lemma wf_sql_delete_account:
  assumes wf: "wf_db d"
  shows "wf_db (snd (sql_delete_account i now d))"
proof -
  have "acc_Owner ` set (del_rows acc_ID i (accounts d)) \<subseteq> acc_Owner ` set (accounts d)"
    by (rule image_mono [OF set_del_rows_subset])
  also have "\<dots> \<subseteq> usr_Username ` set (users d)"
    using wf by (simp add: wf_db_defs)
  finally show ?thesis
    using wf by (simp add: sql_delete_account_def wf_db_defs has_key_iff below_del_rows
        distinct_del_rows image_del_rows subset_Diff_insert)
qed

lemma wf_sql_create_session: "wf_db d \<Longrightarrow> wf_db (snd (sql_create_session p now d))"
  by (auto simp: sql_create_session_def Let_def wf_db_defs has_key_iff)

lemma wf_sql_create_user: "wf_db d \<Longrightarrow> wf_db (snd (sql_create_user p now d))"
  by (auto simp: sql_create_user_def Let_def wf_db_defs has_key_iff)

lemma user_after_update_name [simp]: "usr_Username (user_after_update p u) = usr_Username u"
  by (simp add: user_after_update_def)

lemma distinct_map_upd:
  assumes "distinct (map key rs)" and "distinct (map g rs)" and "row_of key k rs = Some r"
    and "\<And>x. x \<in> set rs \<Longrightarrow> key x \<noteq> k \<Longrightarrow> g x \<noteq> g (f r)"
  shows "distinct (map g (upd_rows key k f rs))"
  using assms
proof (induction rs)
  case (Cons x rs)
  show ?case
  proof (cases "key x = k")
    case True
    with Cons.prems have "\<not> has_key key k rs" and "x = r"
      by (auto simp: has_key_iff row_of_Cons)
    then have rest: "upd_rows key k f (x # rs) = f r # rs"
      using True upd_rows_absent [of key k rs f] by (simp add: upd_rows_def)
    have "g (f r) \<notin> g ` set rs"
      using Cons.prems True by (force simp: image_iff)
    then show ?thesis using Cons.prems rest by simp
  next
    case False
    with Cons.prems have r: "row_of key k rs = Some r" by (simp add: row_of_Cons)
    have "g x \<notin> g ` set (upd_rows key k f rs)"
    proof
      assume "g x \<in> g ` set (upd_rows key k f rs)"
      then obtain y where y: "y \<in> set (upd_rows key k f rs)" "g y = g x" by auto
      then obtain z where z: "z \<in> set rs" "y = (if key z = k then f z else z)"
        using set_upd_rowsD by metis
      then show False
      proof (cases "key z = k")
        case True
        then have "z = r"
          using Cons.prems(1) r z(1) row_of_member [of key rs z] by simp
        then show False using Cons.prems(4) [of x] False True y(2) z(2) by simp
      next
        case False
        then have "g z = g x" using y(2) z(2) by simp
        moreover have "g z \<in> g ` set rs" using z(1) by simp
        ultimately show False using Cons.prems(2) by simp
      qed
    qed
    moreover have "distinct (map g (upd_rows key k f rs))"
      using Cons.IH [OF _ _ r] Cons.prems by simp
    moreover have "upd_rows key k f (x # rs) = x # upd_rows key k f rs"
      using False by (simp add: upd_rows_def)
    ultimately show ?thesis by simp
  qed
qed simp

lemma wf_sql_update_user:
  assumes wf: "wf_db d"
  shows "wf_db (snd (sql_update_user p now d))"
proof (cases "row_of usr_Username (uup_Username p) (users d)")
  case None
  with wf show ?thesis by (simp add: sql_update_user_def)
next
  case (Some u)
  show ?thesis
  proof (cases "list_ex (\<lambda>r. usr_Username r \<noteq> uup_Username p \<and> usr_Email r = usr_Email (user_after_update p u)) (users d)")
    case True
    with wf Some show ?thesis by (simp add: sql_update_user_def)
  next
    case False
    have "distinct (map usr_Email (upd_rows usr_Username (uup_Username p) (user_after_update p) (users d)))"
      using wf False by (intro distinct_map_upd [OF _ _ Some]) (auto simp: wf_db_defs list_ex_iff)
    with wf Some False show ?thesis
      by (simp add: sql_update_user_def Let_def wf_db_defs map_upd_rows image_upd_rows)
  qed
qed

lemmas wf_statements =
  wf_sql_add_account_balance wf_sql_update_account wf_sql_create_account wf_sql_create_entry
  wf_sql_create_transfer wf_sql_delete_account wf_sql_create_session wf_sql_create_user
  wf_sql_update_user

subsection \<open>A failing statement changes no table\<close>

lemma same_tables_seq [simp]:
  "same_tables d (d\<lparr>accounts_seq := s\<rparr>)" "same_tables d (d\<lparr>entries_seq := s\<rparr>)"
  "same_tables d (d\<lparr>transfers_seq := s\<rparr>)"
  by (simp_all add: same_tables_def)

lemma failed_statement_frame:
  "sql_create_account ca now d = (Inl e, d') \<Longrightarrow> same_tables d d'"
  "sql_create_entry ce now d = (Inl e, d') \<Longrightarrow> same_tables d d'"
  "sql_create_transfer ct now d = (Inl e, d') \<Longrightarrow> same_tables d d'"
  "sql_add_account_balance aa now d = (Inl e, d') \<Longrightarrow> same_tables d d'"
  "sql_create_user cu now d = (Inl e, d') \<Longrightarrow> same_tables d d'"
  "sql_update_user uu now d = (Inl e, d') \<Longrightarrow> same_tables d d'"
  "sql_create_session cs now d = (Inl e, d') \<Longrightarrow> same_tables d d'"
  by (auto simp: sql_create_account_def sql_create_entry_def sql_create_transfer_def
      sql_add_account_balance_def sql_create_user_def sql_update_user_def sql_create_session_def
      Let_def split: option.splits if_splits)

subsection \<open>Sums of entries\<close>

lemma entry_sum_append [table_simps]:
  "entry_sum i (es @ [e]) = entry_sum i es + (if ent_AccountID e = i then sint (ent_Amount e) else 0)"
  by (simp add: entry_sum_def)

lemma entry_sum_none: "\<not> has_key ent_AccountID i es \<Longrightarrow> entry_sum i es = 0"
proof -
  assume "\<not> has_key ent_AccountID i es"
  then have "filter (\<lambda>e. ent_AccountID e = i) es = []"
    by (auto simp: has_key_iff filter_empty_conv)
  then show ?thesis by (simp only: entry_sum_def list.map sum_list.Nil)
qed

end
