(* ===== verification/Conn.thy ===== *)
theory Conn
  imports Integrity
begin

text \<open>
  The \<open>DBTX\<close> a \<open>Queries\<close> value talks to (db/sqlc/db.go): the connection pool, where every
  statement is a transaction of its own, or an open transaction. PostgreSQL and its driver are
  not part of the repository; what they may do is the record \<open>env\<close>, an argument of every
  operation: the clock, whether a round trip is delivered, is not done, or is done with its
  acknowledgement lost, and what the driver reports for the commit of a failed transaction.
  Round trips are numbered, so that an \<open>env\<close> can fail any of them.
\<close>

datatype outcome = Delivered | NotDone go_error | AckLost go_error

record env =
  clock :: "nat \<Rightarrow> instant"
  reply :: "nat \<Rightarrow> outcome"
  failed_commit :: "nat \<Rightarrow> go_error option"

text \<open>The documented behaviour of lib/pq that the store relies on: it never reports success.\<close>

definition reports_failed_commit :: "env \<Rightarrow> bool" where
  "reports_failed_commit E \<longleftrightarrow> (\<forall>n. failed_commit E n \<noteq> None)"

lemma reports_failed_commitD: "reports_failed_commit E \<Longrightarrow> \<exists>e. failed_commit E n = Some e"
  by (simp add: reports_failed_commit_def)

definition no_faults :: "env \<Rightarrow> bool" where
  "no_faults E \<longleftrightarrow> (\<forall>n. reply E n = Delivered)"

datatype tx_status = Autocommit | InTx instant | FailedTx

record conn =
  c_db :: database
  c_tx :: tx_status
  c_tick :: nat

abbreviation in_failed_tx :: go_error where
  "in_failed_tx \<equiv> PqError ''in_failed_sql_transaction'' ''''"

text \<open>One statement over the connection.\<close>

definition run_stmt :: "env \<Rightarrow> 'r stmt \<Rightarrow> conn \<Rightarrow> 'r list result \<times> conn" where
  "run_stmt E s c =
     (let n = c_tick c; c1 = c\<lparr>c_tick := Suc n\<rparr>
      in case c_tx c of
           FailedTx \<Rightarrow> (Inl in_failed_tx, c1)
         | InTx now \<Rightarrow>
             (case reply E n of
                Delivered \<Rightarrow>
                  (case s now (c_db c) of
                     (Inl e, d) \<Rightarrow> (Inl e, c1\<lparr>c_db := d, c_tx := FailedTx\<rparr>)
                   | (Inr rs, d) \<Rightarrow> (Inr rs, c1\<lparr>c_db := d\<rparr>))
              | NotDone e \<Rightarrow> (Inl e, c1\<lparr>c_tx := FailedTx\<rparr>)
              | AckLost e \<Rightarrow> (Inl e, c1\<lparr>c_db := snd (s now (c_db c)), c_tx := FailedTx\<rparr>))
         | Autocommit \<Rightarrow>
             (case reply E n of
                Delivered \<Rightarrow> (case s (clock E n) (c_db c) of (r, d) \<Rightarrow> (r, c1\<lparr>c_db := d\<rparr>))
              | NotDone e \<Rightarrow> (Inl e, c1)
              | AckLost e \<Rightarrow> (Inl e, c1\<lparr>c_db := snd (s (clock E n) (c_db c))\<rparr>)))"

text \<open>
  \<open>QueryRowContext\<close> and \<open>Scan\<close>: the first row, or \<open>sql.ErrNoRows\<close>. \<open>QueryContext\<close> and the
  loop over \<open>rows.Next()\<close>: all rows, appended one by one. \<open>ExecContext\<close>: only the error.
\<close>

type_synonym 'a query = "conn \<Rightarrow> 'a result \<times> conn"

definition query_row :: "env \<Rightarrow> 'r stmt \<Rightarrow> 'r query" where
  "query_row E s c =
     (case run_stmt E s c of
        (Inl e, c1) \<Rightarrow> (Inl e, c1)
      | (Inr [], c1) \<Rightarrow> (Inl ErrNoRows, c1)
      | (Inr (r # _), c1) \<Rightarrow> (Inr r, c1))"

fun scan_rows :: "'r list \<Rightarrow> 'r list \<Rightarrow> 'r list" where
  "scan_rows items [] = items"
| "scan_rows items (r # rows) = scan_rows (items @ [r]) rows"

definition query_rows :: "env \<Rightarrow> 'r stmt \<Rightarrow> 'r list query" where
  "query_rows E s c =
     (case run_stmt E s c of
        (Inl e, c1) \<Rightarrow> (Inl e, c1)
      | (Inr rows, c1) \<Rightarrow> (Inr (scan_rows [] rows), c1))"

definition exec_stmt :: "env \<Rightarrow> 'r stmt \<Rightarrow> conn \<Rightarrow> go_error option \<times> conn" where
  "exec_stmt E s c =
     (case run_stmt E s c of
        (Inl e, c1) \<Rightarrow> (Some e, c1)
      | (Inr _, c1) \<Rightarrow> (None, c1))"

lemma scan_rows_append: "scan_rows items rows = items @ rows"
  by (induction rows arbitrary: items) auto

subsection \<open>Round trips within a transaction and outside one\<close>

lemma run_stmt_failed: "c_tx c = FailedTx \<Longrightarrow> run_stmt E s c = (Inl in_failed_tx, c\<lparr>c_tick := Suc (c_tick c)\<rparr>)"
  by (simp add: run_stmt_def Let_def)

lemma query_row_tx:
  assumes "c_tx c = InTx now" and "query_row E s c = (r, c')"
  obtains (failed) e where "r = Inl e" "c_tx c' = FailedTx"
  | (norows) d where "r = Inl ErrNoRows" "s now (c_db c) = (Inr [], d)"
      "c' = c\<lparr>c_db := d, c_tick := Suc (c_tick c)\<rparr>"
  | (row) x xs d where "r = Inr x" "s now (c_db c) = (Inr (x # xs), d)"
      "c' = c\<lparr>c_db := d, c_tick := Suc (c_tick c)\<rparr>"
  using assms
  by (auto simp: query_row_def run_stmt_def Let_def
      split: outcome.splits prod.splits sum.splits list.splits)

lemma query_row_autocommit:
  assumes "c_tx c = Autocommit" and "query_row E s c = (r, c')"
  shows "c_tx c' = Autocommit" and "c_tick c' = Suc (c_tick c)"
    and "c_db c' = c_db c \<or> c_db c' = snd (s (clock E (c_tick c)) (c_db c))"
    and "r = Inr x \<Longrightarrow> \<exists>xs. s (clock E (c_tick c)) (c_db c) = (Inr (x # xs), c_db c')"
  using assms
  by (auto simp: query_row_def run_stmt_def Let_def
      split: outcome.splits prod.splits sum.splits list.splits)

lemma query_rows_autocommit:
  assumes "c_tx c = Autocommit" and "query_rows E s c = (r, c')"
  shows "c_tx c' = Autocommit" and "c_tick c' = Suc (c_tick c)"
    and "c_db c' = c_db c \<or> c_db c' = snd (s (clock E (c_tick c)) (c_db c))"
    and "r = Inr xs \<Longrightarrow> s (clock E (c_tick c)) (c_db c) = (Inr xs, c_db c')"
  using assms
  by (auto simp: query_rows_def run_stmt_def Let_def scan_rows_append
      split: outcome.splits prod.splits sum.splits)

lemma query_row_no_faults [conn_simps]:
  "no_faults E \<Longrightarrow> c_tx c = Autocommit \<Longrightarrow>
   query_row E s c =
     (case s (clock E (c_tick c)) (c_db c) of
        (Inl e, d) \<Rightarrow> (Inl e, c\<lparr>c_db := d, c_tick := Suc (c_tick c)\<rparr>)
      | (Inr [], d) \<Rightarrow> (Inl ErrNoRows, c\<lparr>c_db := d, c_tick := Suc (c_tick c)\<rparr>)
      | (Inr (r # _), d) \<Rightarrow> (Inr r, c\<lparr>c_db := d, c_tick := Suc (c_tick c)\<rparr>))"
  by (auto simp: query_row_def run_stmt_def Let_def no_faults_def
      split: prod.splits sum.splits list.splits)

lemma query_rows_no_faults [conn_simps]:
  "no_faults E \<Longrightarrow> c_tx c = Autocommit \<Longrightarrow>
   query_rows E s c =
     (case s (clock E (c_tick c)) (c_db c) of
        (r, d) \<Rightarrow> (r, c\<lparr>c_db := d, c_tick := Suc (c_tick c)\<rparr>))"
  by (auto simp: query_rows_def run_stmt_def Let_def no_faults_def scan_rows_append
      split: prod.splits sum.splits)

subsection \<open>Invariants of the database over connections\<close>

text \<open>Sequences only move forward, also across a rollback.\<close>

definition seqs_le :: "database \<Rightarrow> database \<Rightarrow> bool" where
  "seqs_le d d' \<longleftrightarrow> accounts_seq d \<le> accounts_seq d' \<and> entries_seq d \<le> entries_seq d' \<and>
     transfers_seq d \<le> transfers_seq d'"

definition with_seqs :: "database \<Rightarrow> database \<Rightarrow> database" where
  "with_seqs d d' = d\<lparr>accounts_seq := accounts_seq d', entries_seq := entries_seq d',
     transfers_seq := transfers_seq d'\<rparr>"

definition stmt_keeps :: "(database \<Rightarrow> bool) \<Rightarrow> 'r stmt \<Rightarrow> bool" where
  "stmt_keeps I s \<longleftrightarrow> (\<forall>now d. I d \<longrightarrow> I (snd (s now d)) \<and> seqs_le d (snd (s now d)))"

definition keeps :: "(database \<Rightarrow> bool) \<Rightarrow> (conn \<Rightarrow> 'a \<times> conn) \<Rightarrow> bool" where
  "keeps I f \<longleftrightarrow> (\<forall>c. I (c_db c) \<longrightarrow> I (c_db (snd (f c))) \<and> seqs_le (c_db c) (c_db (snd (f c))))"

lemma seqs_le_refl [simp]: "seqs_le d d"
  by (simp add: seqs_le_def)

lemma seqs_le_trans: "seqs_le d d' \<Longrightarrow> seqs_le d' d'' \<Longrightarrow> seqs_le d d''"
  by (auto simp: seqs_le_def)

lemma same_tables_with_seqs [simp]: "same_tables d (with_seqs d d')"
  by (simp add: same_tables_def with_seqs_def)

lemma seqs_le_with_seqs: "seqs_le d d' \<Longrightarrow> seqs_le d (with_seqs d d')"
  by (simp add: seqs_le_def with_seqs_def)

lemma keepsD: "keeps I f \<Longrightarrow> f c = (x, c') \<Longrightarrow> I (c_db c) \<Longrightarrow> I (c_db c') \<and> seqs_le (c_db c) (c_db c')"
  by (auto simp: keeps_def)

lemma keepsI:
  "(\<And>c x c'. f c = (x, c') \<Longrightarrow> I (c_db c) \<Longrightarrow> I (c_db c') \<and> seqs_le (c_db c) (c_db c')) \<Longrightarrow> keeps I f"
  by (auto simp: keeps_def) (metis prod.collapse)+

lemma keeps_return [intro]: "keeps I (\<lambda>c. (x, c))"
  by (simp add: keeps_def)

lemma keeps_bind [intro]:
  assumes "keeps I f" and "\<And>x. keeps I (g x)"
  shows "keeps I (\<lambda>c. case f c of (x, c') \<Rightarrow> g x c')"
proof (rule keepsI)
  fix c y c''
  assume run: "(case f c of (x, c') \<Rightarrow> g x c') = (y, c'')" and I: "I (c_db c)"
  obtain x c' where f: "f c = (x, c')" by (cases "f c")
  from keepsD [OF assms(1) f I] have "I (c_db c')" and "seqs_le (c_db c) (c_db c')" by auto
  moreover from run f have "g x c' = (y, c'')" by simp
  ultimately show "I (c_db c'') \<and> seqs_le (c_db c) (c_db c'')"
    using keepsD [OF assms(2)] seqs_le_trans by blast
qed

text \<open>
  The interface between a property of the tables and the layers that run statements: a
  property that survives the advance of sequences (all that a rollback leaves behind) and is
  kept by every statement of a computation is kept by the computation.
\<close>

locale db_invariant =
  fixes I :: "database \<Rightarrow> bool"
  assumes advance: "I d \<Longrightarrow> seqs_le d d' \<Longrightarrow> I (with_seqs d d')"
begin

lemma run_stmt_keeps:
  assumes "stmt_keeps I s"
  shows "keeps I (run_stmt E s)"
proof (rule keepsI)
  fix c r c'
  assume run: "run_stmt E s c = (r, c')" and I: "I (c_db c)"
  have s: "I (snd (s now (c_db c)))" "seqs_le (c_db c) (snd (s now (c_db c)))" for now
    using assms I by (auto simp: stmt_keeps_def)
  have "c_db c' = c_db c \<or> (\<exists>now. c_db c' = snd (s now (c_db c)))"
    using run
    by (auto simp: run_stmt_def Let_def split: tx_status.splits outcome.splits prod.splits sum.splits)
      (metis snd_conv)+
  then show "I (c_db c') \<and> seqs_le (c_db c) (c_db c')"
    using I s by auto
qed

lemma query_row_keeps: "stmt_keeps I s \<Longrightarrow> keeps I (query_row E s)"
  by (rule keepsI, drule run_stmt_keeps [where E = E])
    (auto simp: query_row_def split: prod.splits sum.splits list.splits dest: keepsD)

lemma query_rows_keeps: "stmt_keeps I s \<Longrightarrow> keeps I (query_rows E s)"
  by (rule keepsI, drule run_stmt_keeps [where E = E])
    (auto simp: query_rows_def split: prod.splits sum.splits dest: keepsD)

lemma exec_stmt_keeps: "stmt_keeps I s \<Longrightarrow> keeps I (exec_stmt E s)"
  by (rule keepsI, drule run_stmt_keeps [where E = E])
    (auto simp: exec_stmt_def split: prod.splits sum.splits dest: keepsD)

end

interpretation wf: db_invariant wf_db
proof
  fix d d'
  assume "wf_db d" and "seqs_le d d'"
  then show "wf_db (with_seqs d d')"
    by (auto simp: wf_db_defs seqs_le_def with_seqs_def elim: below_mono)
qed

subsection \<open>Statements keep referential integrity and advance sequences only\<close>

lemma seqs_le_statements:
  "seqs_le d (snd (sql_add_account_balance p1 now d))" "seqs_le d (snd (sql_update_account p2 now d))"
  "seqs_le d (snd (sql_create_account p3 now d))" "seqs_le d (snd (sql_create_entry p4 now d))"
  "seqs_le d (snd (sql_create_transfer p5 now d))" "seqs_le d (snd (sql_delete_account i now d))"
  "seqs_le d (snd (sql_create_session p6 now d))" "seqs_le d (snd (sql_create_user p7 now d))"
  "seqs_le d (snd (sql_update_user p8 now d))"
  by (auto simp: seqs_le_def Let_def sql_add_account_balance_def sql_update_account_def
      sql_create_account_def sql_create_entry_def sql_create_transfer_def sql_delete_account_def
      sql_create_session_def sql_create_user_def sql_update_user_def split: option.splits)

lemma stmt_keeps_wf [intro]:
  "stmt_keeps wf_db (sql_add_account_balance p1)" "stmt_keeps wf_db (sql_update_account p2)"
  "stmt_keeps wf_db (sql_create_account p3)" "stmt_keeps wf_db (sql_create_entry p4)"
  "stmt_keeps wf_db (sql_create_transfer p5)" "stmt_keeps wf_db (sql_delete_account i)"
  "stmt_keeps wf_db (sql_create_session p6)" "stmt_keeps wf_db (sql_create_user p7)"
  "stmt_keeps wf_db (sql_update_user p8)"
  by (simp_all add: stmt_keeps_def wf_statements seqs_le_statements)

lemma stmt_keeps_reads [intro]:
  "stmt_keeps I (sql_get_account i1)" "stmt_keeps I (sql_get_account_for_update i2)"
  "stmt_keeps I (sql_list_accounts p1)" "stmt_keeps I (sql_get_entry i3)"
  "stmt_keeps I (sql_list_entries p2)" "stmt_keeps I (sql_get_transfer i4)"
  "stmt_keeps I (sql_list_transfers p3)" "stmt_keeps I (sql_get_session i5)"
  "stmt_keeps I (sql_get_user n)"
  by (simp_all add: stmt_keeps_def sql_get_account_def sql_get_account_for_update_def
      sql_list_accounts_def sql_get_entry_def sql_list_entries_def sql_get_transfer_def
      sql_list_transfers_def sql_get_session_def sql_get_user_def)

end
