(* ===== verification/Queries.thy ===== *)
theory Queries
  imports Conn
begin

text \<open>
  The methods of \<open>Queries\<close> (the \<open>Querier\<close> interface of db/sqlc/querier.go): each runs its
  statement over the connection and scans the returned row or rows. A \<open>Queries\<close> value made by
  \<open>New\<close> on the pool or \<open>WithTx\<close> on a transaction differs only in the connection it is run on.
\<close>

definition AddAccountBalance :: "env \<Rightarrow> AddAccountBalanceParams \<Rightarrow> Account query" where
  "AddAccountBalance E arg = query_row E (sql_add_account_balance arg)"

definition CreateAccount :: "env \<Rightarrow> CreateAccountParams \<Rightarrow> Account query" where
  "CreateAccount E arg = query_row E (sql_create_account arg)"

definition DeleteAccount :: "env \<Rightarrow> int64 \<Rightarrow> conn \<Rightarrow> go_error option \<times> conn" where
  "DeleteAccount E i = exec_stmt E (sql_delete_account i)"

definition GetAccount :: "env \<Rightarrow> int64 \<Rightarrow> Account query" where
  "GetAccount E i = query_row E (sql_get_account i)"

definition GetAccountForUpdate :: "env \<Rightarrow> int64 \<Rightarrow> Account query" where
  "GetAccountForUpdate E i = query_row E (sql_get_account_for_update i)"

definition ListAccounts :: "env \<Rightarrow> ListAccountsParams \<Rightarrow> Account list query" where
  "ListAccounts E arg = query_rows E (sql_list_accounts arg)"

definition UpdateAccount :: "env \<Rightarrow> UpdateAccountParams \<Rightarrow> Account query" where
  "UpdateAccount E arg = query_row E (sql_update_account arg)"

definition CreateEntry :: "env \<Rightarrow> CreateEntryParams \<Rightarrow> Entry query" where
  "CreateEntry E arg = query_row E (sql_create_entry arg)"

definition GetEntry :: "env \<Rightarrow> int64 \<Rightarrow> Entry query" where
  "GetEntry E i = query_row E (sql_get_entry i)"

definition ListEntries :: "env \<Rightarrow> ListEntriesParams \<Rightarrow> Entry list query" where
  "ListEntries E arg = query_rows E (sql_list_entries arg)"

definition CreateTransfer :: "env \<Rightarrow> CreateTransferParams \<Rightarrow> Transfer query" where
  "CreateTransfer E arg = query_row E (sql_create_transfer arg)"

definition GetTransfer :: "env \<Rightarrow> int64 \<Rightarrow> Transfer query" where
  "GetTransfer E i = query_row E (sql_get_transfer i)"

definition ListTransfers :: "env \<Rightarrow> ListTransfersParams \<Rightarrow> Transfer list query" where
  "ListTransfers E arg = query_rows E (sql_list_transfers arg)"

definition CreateSession :: "env \<Rightarrow> CreateSessionParams \<Rightarrow> Session query" where
  "CreateSession E arg = query_row E (sql_create_session arg)"

definition GetSession :: "env \<Rightarrow> uuid \<Rightarrow> Session query" where
  "GetSession E i = query_row E (sql_get_session i)"

definition CreateUser :: "env \<Rightarrow> CreateUserParams \<Rightarrow> User query" where
  "CreateUser E arg = query_row E (sql_create_user arg)"

definition GetUser :: "env \<Rightarrow> string \<Rightarrow> User query" where
  "GetUser E n = query_row E (sql_get_user n)"

definition UpdateUser :: "env \<Rightarrow> UpdateUserParams \<Rightarrow> User query" where
  "UpdateUser E arg = query_row E (sql_update_user arg)"

lemmas query_defs =
  AddAccountBalance_def CreateAccount_def DeleteAccount_def GetAccount_def GetAccountForUpdate_def
  ListAccounts_def UpdateAccount_def CreateEntry_def GetEntry_def ListEntries_def
  CreateTransfer_def GetTransfer_def ListTransfers_def CreateSession_def GetSession_def
  CreateUser_def GetUser_def UpdateUser_def

lemma queries_keep_wf [intro]:
  "keeps wf_db (AddAccountBalance E p1)" "keeps wf_db (CreateAccount E p2)"
  "keeps wf_db (DeleteAccount E i1)" "keeps wf_db (UpdateAccount E p3)"
  "keeps wf_db (CreateEntry E p4)" "keeps wf_db (CreateTransfer E p5)"
  "keeps wf_db (CreateSession E p6)" "keeps wf_db (CreateUser E p7)"
  "keeps wf_db (UpdateUser E p8)"
  unfolding query_defs
  by (auto intro!: wf.query_row_keeps wf.exec_stmt_keeps)

text \<open>Reading does not write: outside a transaction the connection only counts a round trip.\<close>

lemma take1_filter: "take (Suc 0) (filter P rs) = (case find P rs of None \<Rightarrow> [] | Some r \<Rightarrow> [r])"
  by (induction rs) auto

lemma single_row_reads:
  "sql_get_account i now d = (Inr (case row_of acc_ID i (accounts d) of None \<Rightarrow> [] | Some r \<Rightarrow> [r]), d)"
  "sql_get_account_for_update i now d = (Inr (case row_of acc_ID i (accounts d) of None \<Rightarrow> [] | Some r \<Rightarrow> [r]), d)"
  "sql_get_entry i now d = (Inr (case row_of ent_ID i (entries d) of None \<Rightarrow> [] | Some r \<Rightarrow> [r]), d)"
  "sql_get_transfer i now d = (Inr (case row_of tr_ID i (transfers d) of None \<Rightarrow> [] | Some r \<Rightarrow> [r]), d)"
  "sql_get_session u now d = (Inr (case row_of ses_ID u (sessions d) of None \<Rightarrow> [] | Some r \<Rightarrow> [r]), d)"
  "sql_get_user n now d = (Inr (case row_of usr_Username n (users d) of None \<Rightarrow> [] | Some r \<Rightarrow> [r]), d)"
  by (simp_all add: sql_get_account_def sql_get_account_for_update_def sql_get_entry_def
      sql_get_transfer_def sql_get_session_def sql_get_user_def take1_filter row_of_def)

definition ticked :: "conn \<Rightarrow> conn" where
  "ticked c = c\<lparr>c_tick := Suc (c_tick c)\<rparr>"

lemma ticked_simps [simp]:
  "c_db (ticked c) = c_db c" "c_tx (ticked c) = c_tx c" "c_tick (ticked c) = Suc (c_tick c)"
  by (simp_all add: ticked_def)

lemma query_row_read:
  assumes "\<And>now d. s now d = (Inr (case f d of None \<Rightarrow> [] | Some r \<Rightarrow> [r]), d)"
    and "c_tx c = Autocommit" and "query_row E s c = (r, c')"
  shows "c' = ticked c" and "r = Inr x \<Longrightarrow> f (c_db c) = Some x"
    and "errors_is ErrNoRows e \<Longrightarrow> reply E (c_tick c) = Delivered \<Longrightarrow> r = Inl e \<Longrightarrow> f (c_db c) = None"
  using assms
  by (auto simp: query_row_def run_stmt_def Let_def ticked_def
      split: outcome.splits prod.splits sum.splits list.splits option.splits)

lemma GetAccount_read:
  assumes "c_tx c = Autocommit" and "GetAccount E i c = (r, c')"
  shows "c' = ticked c" and "r = Inr a \<Longrightarrow> row_of acc_ID i (accounts (c_db c)) = Some a"
  using query_row_read [where f = "\<lambda>d. row_of acc_ID i (accounts d)", OF single_row_reads(1) assms(1)] assms(2)
  by (auto simp: GetAccount_def)

lemma GetSession_read:
  assumes "c_tx c = Autocommit" and "GetSession E i c = (r, c')"
  shows "c' = ticked c" and "r = Inr a \<Longrightarrow> row_of ses_ID i (sessions (c_db c)) = Some a"
  using query_row_read [where f = "\<lambda>d. row_of ses_ID i (sessions d)", OF single_row_reads(5) assms(1)] assms(2)
  by (auto simp: GetSession_def)

lemma GetUser_read:
  assumes "c_tx c = Autocommit" and "GetUser E i c = (r, c')"
  shows "c' = ticked c" and "r = Inr a \<Longrightarrow> row_of usr_Username i (users (c_db c)) = Some a"
  using query_row_read [where f = "\<lambda>d. row_of usr_Username i (users d)", OF single_row_reads(6) assms(1)] assms(2)
  by (auto simp: GetUser_def)

lemma ListAccounts_read:
  assumes "c_tx c = Autocommit" and "ListAccounts E p c = (r, c')"
  shows "c' = ticked c"
    and "r = Inr as \<Longrightarrow> fst (sql_list_accounts p (clock E (c_tick c)) (c_db c)) = Inr as"
  using assms
  by (auto simp: ListAccounts_def query_rows_def run_stmt_def Let_def ticked_def sql_list_accounts_def
      scan_rows_append split: outcome.splits prod.splits sum.splits)

text \<open>Without faults, a read finds what the tables hold.\<close>

definition found :: "'r option \<Rightarrow> 'r result" where
  "found r = (case r of None \<Rightarrow> Inl ErrNoRows | Some x \<Rightarrow> Inr x)"

lemma found_simps [simp]: "found None = Inl ErrNoRows" "found (Some x) = Inr x"
  by (simp_all add: found_def)

lemma reads_no_faults [conn_simps]:
  assumes "no_faults E" and "c_tx c = Autocommit"
  shows "GetAccount E i c = (found (row_of acc_ID i (accounts (c_db c))), ticked c)"
    and "GetSession E u c = (found (row_of ses_ID u (sessions (c_db c))), ticked c)"
    and "GetUser E n c = (found (row_of usr_Username n (users (c_db c))), ticked c)"
  using assms
  by (simp_all add: query_defs query_row_no_faults single_row_reads ticked_def split: option.split)

lemma ListAccounts_no_faults [conn_simps]:
  assumes "no_faults E" and "c_tx c = Autocommit"
  shows "ListAccounts E p c = (fst (sql_list_accounts p (clock E (c_tick c)) (c_db c)), ticked c)"
  using assms
  by (simp add: query_defs query_rows_no_faults sql_list_accounts_def ticked_def)

subsection \<open>Pages of a listing\<close>

text \<open>What the database returns for one page of an owner's accounts.\<close>

definition owned :: "string \<Rightarrow> database \<Rightarrow> Account list" where
  "owned owner d = sort_key (\<lambda>a. sint (acc_ID a)) (filter (\<lambda>a. acc_Owner a = owner) (accounts d))"

lemma set_owned: "set (owned owner d) = {a \<in> set (accounts d). acc_Owner a = owner}"
  by (auto simp: owned_def)

lemma sql_list_accounts_owned:
  "sql_list_accounts p now d = (limit_offset (lap_Limit p) (lap_Offset p) (owned (lap_Owner p) d), d)"
  by (simp add: sql_list_accounts_def owned_def)

lemma limit_offset_InrD:
  assumes "limit_offset lim off rs = Inr qs"
  shows "0 \<le> sint lim" "0 \<le> sint off" "qs = take (nat (sint lim)) (drop (nat (sint off)) rs)"
  using assms by (auto simp: limit_offset_def split: if_splits)

lemma limit_offset_page:
  assumes "limit_offset lim off rs = Inr qs"
  shows "int (length qs) \<le> sint lim" "set qs \<subseteq> set rs"
  using limit_offset_InrD [OF assms] by (auto dest: in_set_takeD in_set_dropD)

lemma sorted_owned_page:
  assumes "limit_offset lim off (owned owner d) = Inr qs"
  shows "sorted (map (\<lambda>a. sint (acc_ID a)) qs)"
proof -
  have "sorted (map (\<lambda>a. sint (acc_ID a)) (owned owner d))"
    by (simp add: owned_def)
  then show ?thesis
    using limit_offset_InrD(3) [OF assms] by (simp add: sorted_wrt_take sorted_wrt_drop flip: take_map drop_map)
qed

end
