(* ===== verification/Store.thy ===== *)
theory Store
  imports Queries
begin

text \<open>
  Transactions of the store: \<open>execTX\<close> of db/sqlc/store.go, with its three ways to fail (begin,
  the function, commit), \<open>TransferTx\<close> with \<open>addMoney\<close> (tx_transfer.go) and \<open>CreateUserTx\<close>
  (tx_create_user.go). A closure that assigns to variables of its caller is a function that
  takes and returns their values.
\<close>

subsection \<open>execTX (store.go)\<close>

definition begin_tx :: "env \<Rightarrow> conn \<Rightarrow> conn" where
  "begin_tx E c = c\<lparr>c_tx := InTx (clock E (c_tick c)), c_tick := Suc (c_tick c)\<rparr>"

definition committed :: "conn \<Rightarrow> conn" where
  "committed c = c\<lparr>c_tx := Autocommit, c_tick := Suc (c_tick c)\<rparr>"

text \<open>What a rollback leaves of the transaction on \<open>c\<close> that began on \<open>c0\<close>: the sequence values.\<close>

definition rolled_back :: "conn \<Rightarrow> conn \<Rightarrow> conn" where
  "rolled_back c0 c =
     c\<lparr>c_db := with_seqs (c_db c0) (c_db c), c_tx := Autocommit, c_tick := Suc (c_tick c)\<rparr>"

definition tx_error :: "go_error \<Rightarrow> go_error \<Rightarrow> go_error" where
  "tx_error err rbErr = Errorf ''tx err: %v,rb err: %v'' [FErr err, FErr rbErr]"

definition execTX ::
  "env \<Rightarrow> ('r \<Rightarrow> conn \<Rightarrow> (go_error option \<times> 'r) \<times> conn) \<Rightarrow> 'r \<Rightarrow> conn \<Rightarrow> (go_error option \<times> 'r) \<times> conn"
where
  "execTX E fn r c =
     (case reply E (c_tick c) of
        NotDone e \<Rightarrow> ((Some e, r), ticked c)
      | AckLost e \<Rightarrow> ((Some e, r), ticked c)
      | Delivered \<Rightarrow>
          (case fn r (begin_tx E c) of
             ((Some err, r'), c2) \<Rightarrow>
               (case reply E (c_tick c2) of
                  Delivered \<Rightarrow> ((Some err, r'), rolled_back c c2)
                | NotDone rbErr \<Rightarrow> ((Some (tx_error err rbErr), r'), rolled_back c c2)
                | AckLost rbErr \<Rightarrow> ((Some (tx_error err rbErr), r'), rolled_back c c2))
           | ((None, r'), c2) \<Rightarrow>
               (if c_tx c2 = FailedTx then ((failed_commit E (c_tick c2), r'), rolled_back c c2)
                else case reply E (c_tick c2) of
                       Delivered \<Rightarrow> ((None, r'), committed c2)
                     | NotDone e \<Rightarrow> ((Some e, r'), rolled_back c c2)
                     | AckLost e \<Rightarrow> ((Some e, r'), committed c2))))"

text \<open>Whatever the closure does, the tables end up untouched or as the closure left them.\<close>

lemma execTX_outcome:
  assumes "execTX E fn r c = ((err, r'), c')" and "c_tx c = Autocommit"
  shows "c_tx c' = Autocommit \<and>
    (same_tables (c_db c) (c_db c') \<and> (reports_failed_commit E \<longrightarrow> err \<noteq> None) \<or>
     (\<exists>c2. fn r (begin_tx E c) = ((None, r'), c2) \<and> c_tx c2 \<noteq> FailedTx \<and> c_db c' = c_db c2))"
  using assms
  by (auto simp: execTX_def rolled_back_def committed_def dest: reports_failed_commitD
      split: outcome.splits prod.splits option.splits if_splits)

lemma execTX_cases:
  assumes "execTX E fn r c = ((err, r'), c')" and "c_tx c = Autocommit"
  obtains (rolled_back) "same_tables (c_db c) (c_db c')" "c_tx c' = Autocommit"
      "reports_failed_commit E \<longrightarrow> err \<noteq> None"
  | (committed) c2 where "fn r (begin_tx E c) = ((None, r'), c2)" "c_tx c2 \<noteq> FailedTx"
      "c_db c' = c_db c2" "c_tx c' = Autocommit"
  using execTX_outcome [OF assms] by blast

lemma execTX_no_faults:
  assumes "no_faults E" and "fn r (begin_tx E c) = ((err, r'), c2)"
  shows "execTX E fn r c =
    (case err of
       Some e \<Rightarrow> ((Some e, r'), rolled_back c c2)
     | None \<Rightarrow> if c_tx c2 = FailedTx then ((failed_commit E (c_tick c2), r'), rolled_back c c2)
               else ((None, r'), committed c2))"
  using assms by (auto simp: execTX_def no_faults_def split: option.splits)

context db_invariant begin

lemma execTX_keeps:
  assumes "\<And>r. keeps I (fn r)"
  shows "keeps I (execTX E fn r)"
proof (rule keepsI)
  fix c x c'
  assume run: "execTX E fn r c = (x, c')" and I: "I (c_db c)"
  obtain y c2 where fn: "fn r (begin_tx E c) = (y, c2)" by (cases "fn r (begin_tx E c)")
  have "I (c_db (begin_tx E c))" using I by (simp add: begin_tx_def)
  with keepsD [OF assms fn] have c2: "I (c_db c2)" "seqs_le (c_db c) (c_db c2)"
    by (auto simp: begin_tx_def)
  have "c_db c' = c_db c \<or> c_db c' = c_db c2 \<or> c_db c' = with_seqs (c_db c) (c_db c2)"
    using run fn
    by (auto simp: execTX_def rolled_back_def committed_def
        split: outcome.splits prod.splits option.splits if_splits)
  with c2 I show "I (c_db c') \<and> seqs_le (c_db c) (c_db c')"
    using advance seqs_le_with_seqs by auto
qed

end

subsection \<open>TransferTx and addMoney (tx_transfer.go)\<close>

record TransferTxParams =
  ttp_FromAccountID :: int64
  ttp_ToAccountID :: int64
  ttp_Amount :: int64

record TransferTxResult =
  ttr_Transfer :: Transfer
  ttr_FromAccount :: Account
  ttr_ToAccount :: Account
  ttr_FromEntry :: Entry
  ttr_ToEntry :: Entry

text \<open>The zero values a Go variable starts with, and a failed \<open>Scan\<close> leaves in place.\<close>

definition zero_account :: Account where
  "zero_account = \<lparr>acc_ID = 0, acc_Owner = '''', acc_Balance = 0, acc_Currency = '''',
     acc_CreatedAt = zero_time\<rparr>"

definition zero_entry :: Entry where
  "zero_entry = \<lparr>ent_ID = 0, ent_AccountID = 0, ent_Amount = 0, ent_CreatedAt = zero_time\<rparr>"

definition zero_transfer :: Transfer where
  "zero_transfer = \<lparr>tr_ID = 0, tr_FromAccountID = 0, tr_ToAccountID = 0, tr_Amount = 0,
     tr_CreatedAt = zero_time\<rparr>"

definition zero_result :: TransferTxResult where
  "zero_result = \<lparr>ttr_Transfer = zero_transfer, ttr_FromAccount = zero_account,
     ttr_ToAccount = zero_account, ttr_FromEntry = zero_entry, ttr_ToEntry = zero_entry\<rparr>"

definition addMoney ::
  "env \<Rightarrow> int64 \<Rightarrow> int64 \<Rightarrow> int64 \<Rightarrow> int64 \<Rightarrow> conn \<Rightarrow> (Account \<times> Account \<times> go_error option) \<times> conn"
where
  "addMoney E accountID1 amount1 accountID2 amount2 c =
     (case AddAccountBalance E \<lparr>aab_Amount = amount1, aab_ID = accountID1\<rparr> c of
        (Inl err, c1) \<Rightarrow> ((zero_account, zero_account, Some err), c1)
      | (Inr account1, c1) \<Rightarrow>
          (case AddAccountBalance E \<lparr>aab_Amount = amount2, aab_ID = accountID2\<rparr> c1 of
             (Inl err, c2) \<Rightarrow> ((account1, zero_account, Some err), c2)
           | (Inr account2, c2) \<Rightarrow> ((account1, account2, None), c2)))"

text \<open>
  The closure \<open>TransferTx\<close> passes to \<open>execTX\<close>. As in the source, the error of \<open>addMoney\<close> is
  assigned to the closure's \<open>err\<close> and not returned.
\<close>

definition transferTx_closure ::
  "env \<Rightarrow> TransferTxParams \<Rightarrow> TransferTxResult \<Rightarrow> conn \<Rightarrow> (go_error option \<times> TransferTxResult) \<times> conn"
where
  "transferTx_closure E arg result c =
     (case CreateTransfer E \<lparr>ctp_FromAccountID = ttp_FromAccountID arg,
             ctp_ToAccountID = ttp_ToAccountID arg, ctp_Amount = ttp_Amount arg\<rparr> c of
        (Inl err, c1) \<Rightarrow> ((Some err, result\<lparr>ttr_Transfer := zero_transfer\<rparr>), c1)
      | (Inr tr, c1) \<Rightarrow>
     (case CreateEntry E \<lparr>cep_AccountID = ttp_FromAccountID arg, cep_Amount = - ttp_Amount arg\<rparr> c1 of
        (Inl err, c2) \<Rightarrow> ((Some err, result\<lparr>ttr_Transfer := tr, ttr_FromEntry := zero_entry\<rparr>), c2)
      | (Inr fe, c2) \<Rightarrow>
     (case CreateEntry E \<lparr>cep_AccountID = ttp_ToAccountID arg, cep_Amount = ttp_Amount arg\<rparr> c2 of
        (Inl err, c3) \<Rightarrow>
          ((Some err, result\<lparr>ttr_Transfer := tr, ttr_FromEntry := fe, ttr_ToEntry := zero_entry\<rparr>), c3)
      | (Inr te, c3) \<Rightarrow>
          (let result3 = result\<lparr>ttr_Transfer := tr, ttr_FromEntry := fe, ttr_ToEntry := te\<rparr>
           in if ttp_FromAccountID arg <s ttp_ToAccountID arg
              then case addMoney E (ttp_FromAccountID arg) (- ttp_Amount arg)
                          (ttp_ToAccountID arg) (ttp_Amount arg) c3 of
                     ((a1, a2, err), c4) \<Rightarrow>
                       ((None, result3\<lparr>ttr_FromAccount := a1, ttr_ToAccount := a2\<rparr>), c4)
              else case addMoney E (ttp_ToAccountID arg) (ttp_Amount arg)
                          (ttp_FromAccountID arg) (- ttp_Amount arg) c3 of
                     ((a1, a2, err), c4) \<Rightarrow>
                       ((None, result3\<lparr>ttr_ToAccount := a1, ttr_FromAccount := a2\<rparr>), c4)))))"

definition TransferTx ::
  "env \<Rightarrow> TransferTxParams \<Rightarrow> conn \<Rightarrow> (TransferTxResult \<times> go_error option) \<times> conn"
where
  "TransferTx E arg c =
     (case execTX E (transferTx_closure E arg) zero_result c of
        ((err, result), c') \<Rightarrow> ((result, err), c'))"

subsection \<open>CreateUserTx (tx_create_user.go)\<close>

definition zero_user :: User where
  "zero_user = \<lparr>usr_Username = '''', usr_HashedPassword = '''', usr_FullName = '''',
     usr_PasswordChangedAt = zero_time, usr_Email = '''', usr_CreatedAt = zero_time\<rparr>"

text \<open>
  \<open>AfterCreate\<close> is the caller's hook; it may change a state \<open>'w\<close> of its own (the task queue),
  which a rollback of the database does not undo.
\<close>

definition createUserTx_closure ::
  "env \<Rightarrow> CreateUserParams \<Rightarrow> (User \<Rightarrow> 'w \<Rightarrow> go_error option \<times> 'w) \<Rightarrow> User \<times> 'w \<Rightarrow> conn
   \<Rightarrow> (go_error option \<times> User \<times> 'w) \<times> conn"
where
  "createUserTx_closure E arg afterCreate rw c =
     (case CreateUser E arg c of
        (Inl err, c1) \<Rightarrow> ((Some err, zero_user, snd rw), c1)
      | (Inr u, c1) \<Rightarrow> (case afterCreate u (snd rw) of (err, w) \<Rightarrow> ((err, u, w), c1)))"

definition CreateUserTx ::
  "env \<Rightarrow> CreateUserParams \<Rightarrow> (User \<Rightarrow> 'w \<Rightarrow> go_error option \<times> 'w) \<Rightarrow> 'w \<Rightarrow> conn
   \<Rightarrow> ((User \<times> go_error option) \<times> 'w) \<times> conn"
where
  "CreateUserTx E arg afterCreate w c =
     (case execTX E (createUserTx_closure E arg afterCreate) (zero_user, w) c of
        ((err, u, w'), c') \<Rightarrow> (((u, err), w'), c'))"

subsection \<open>Both transactions keep the invariants of their statements\<close>

lemma addMoney_keeps_wf: "keeps wf_db (addMoney E i1 a1 i2 a2)"
  by (rule keepsI)
    (auto simp: addMoney_def split: prod.splits sum.splits
      dest!: keepsD [OF queries_keep_wf(1)] intro: seqs_le_trans)

lemma transferTx_closure_keeps_wf: "keeps wf_db (transferTx_closure E arg r)"
  by (rule keepsI)
    (auto simp: transferTx_closure_def Let_def split: prod.splits sum.splits if_splits
      dest!: keepsD [OF queries_keep_wf(5)] keepsD [OF queries_keep_wf(6)] keepsD [OF addMoney_keeps_wf]
      intro: seqs_le_trans)

lemma TransferTx_keeps_wf: "keeps wf_db (TransferTx E arg)"
  by (rule keepsI)
    (auto simp: TransferTx_def split: prod.splits
      dest!: keepsD [OF wf.execTX_keeps [OF transferTx_closure_keeps_wf]])

lemma createUserTx_closure_keeps_wf: "keeps wf_db (createUserTx_closure E arg h r)"
  by (rule keepsI)
    (auto simp: createUserTx_closure_def split: prod.splits sum.splits
      dest!: keepsD [OF queries_keep_wf(8)])

lemma CreateUserTx_keeps_wf: "keeps wf_db (CreateUserTx E arg h w)"
  by (rule keepsI)
    (auto simp: CreateUserTx_def split: prod.splits
      dest!: keepsD [OF wf.execTX_keeps [OF createUserTx_closure_keeps_wf]])

end
