(* ===== verification/Transfer_Spec.thy ===== *)
theory Transfer_Spec
  imports Store
begin

text \<open>
  What a money transfer promises, stated without transactions, statements or locks: when it is
  possible, the rows it adds, the balances it moves (\<open>transfer_db\<close>) and the value it returns
  (\<open>transfer_result\<close>). The lemmas show that the statements of \<open>TransferTx\<close>, run one after the
  other, compute exactly this, whichever of the two accounts has the smaller id.
\<close>

subsection \<open>The abstract transfer\<close>

definition transfer_delta :: "TransferTxParams \<Rightarrow> int64 \<Rightarrow> int64" where
  "transfer_delta arg i =
     (if i = ttp_FromAccountID arg then - ttp_Amount arg else 0) +
     (if i = ttp_ToAccountID arg then ttp_Amount arg else 0)"

definition transfer_row :: "instant \<Rightarrow> TransferTxParams \<Rightarrow> database \<Rightarrow> Transfer" where
  "transfer_row now arg d =
     \<lparr>tr_ID = word_of_int (transfers_seq d), tr_FromAccountID = ttp_FromAccountID arg,
      tr_ToAccountID = ttp_ToAccountID arg, tr_Amount = ttp_Amount arg, tr_CreatedAt = now\<rparr>"

definition from_entry_row :: "instant \<Rightarrow> TransferTxParams \<Rightarrow> database \<Rightarrow> Entry" where
  "from_entry_row now arg d =
     \<lparr>ent_ID = word_of_int (entries_seq d), ent_AccountID = ttp_FromAccountID arg,
      ent_Amount = - ttp_Amount arg, ent_CreatedAt = now\<rparr>"

definition to_entry_row :: "instant \<Rightarrow> TransferTxParams \<Rightarrow> database \<Rightarrow> Entry" where
  "to_entry_row now arg d =
     \<lparr>ent_ID = word_of_int (entries_seq d + 1), ent_AccountID = ttp_ToAccountID arg,
      ent_Amount = ttp_Amount arg, ent_CreatedAt = now\<rparr>"

definition credit :: "int64 \<Rightarrow> int64 \<Rightarrow> Account \<Rightarrow> Account" where
  "credit i a r = r\<lparr>acc_Balance := acc_Balance r + (if acc_ID r = i then a else 0)\<rparr>"

definition transfer_db :: "instant \<Rightarrow> TransferTxParams \<Rightarrow> database \<Rightarrow> database" where
  "transfer_db now arg d = d\<lparr>
     accounts := map (\<lambda>r. r\<lparr>acc_Balance := acc_Balance r + transfer_delta arg (acc_ID r)\<rparr>) (accounts d),
     entries := entries d @ [from_entry_row now arg d, to_entry_row now arg d],
     transfers := transfers d @ [transfer_row now arg d],
     entries_seq := entries_seq d + 2,
     transfers_seq := transfers_seq d + 1\<rparr>"

text \<open>
  Both accounts exist, ids are left, and no balance leaves the range of \<open>bigint\<close>. A transfer
  from an account to itself is credited first and debited afterwards.
\<close>

definition transfer_possible :: "TransferTxParams \<Rightarrow> database \<Rightarrow> bool" where
  "transfer_possible arg d \<longleftrightarrow>
     transfers_seq d \<le> max_int64 \<and> entries_seq d < max_int64 \<and>
     (case (row_of acc_ID (ttp_FromAccountID arg) (accounts d),
            row_of acc_ID (ttp_ToAccountID arg) (accounts d)) of
        (Some a, Some b) \<Rightarrow>
          (if ttp_FromAccountID arg = ttp_ToAccountID arg
           then pg_add (acc_Balance b) (ttp_Amount arg) \<noteq> None \<and>
                pg_add (acc_Balance b + ttp_Amount arg) (- ttp_Amount arg) \<noteq> None
           else pg_add (acc_Balance a) (- ttp_Amount arg) \<noteq> None \<and>
                pg_add (acc_Balance b) (ttp_Amount arg) \<noteq> None)
      | _ \<Rightarrow> False)"

definition transfer_result :: "instant \<Rightarrow> TransferTxParams \<Rightarrow> database \<Rightarrow> TransferTxResult" where
  "transfer_result now arg d =
     (let a = the (row_of acc_ID (ttp_FromAccountID arg) (accounts d));
          b = the (row_of acc_ID (ttp_ToAccountID arg) (accounts d))
      in \<lparr>ttr_Transfer = transfer_row now arg d,
          ttr_FromAccount = a\<lparr>acc_Balance := acc_Balance a + transfer_delta arg (acc_ID a)\<rparr>,
          ttr_ToAccount = b\<lparr>acc_Balance := acc_Balance b + ttp_Amount arg\<rparr>,
          ttr_FromEntry = from_entry_row now arg d,
          ttr_ToEntry = to_entry_row now arg d\<rparr>)"

subsection \<open>The statements of a transfer in sequence\<close>

definition add_money_steps ::
  "instant \<Rightarrow> int64 \<Rightarrow> int64 \<Rightarrow> int64 \<Rightarrow> int64 \<Rightarrow> database \<Rightarrow> (Account \<times> Account \<times> database) option"
where
  "add_money_steps now i1 a1 i2 a2 d =
     (case sql_add_account_balance \<lparr>aab_Amount = a1, aab_ID = i1\<rparr> now d of
        (Inr (x # _), d1) \<Rightarrow>
          (case sql_add_account_balance \<lparr>aab_Amount = a2, aab_ID = i2\<rparr> now d1 of
             (Inr (y # _), d2) \<Rightarrow> Some (x, y, d2)
           | _ \<Rightarrow> None)
      | _ \<Rightarrow> None)"

definition transfer_steps ::
  "instant \<Rightarrow> TransferTxParams \<Rightarrow> database \<Rightarrow> (TransferTxResult \<times> database) option"
where
  "transfer_steps now arg d =
     (case sql_create_transfer \<lparr>ctp_FromAccountID = ttp_FromAccountID arg,
             ctp_ToAccountID = ttp_ToAccountID arg, ctp_Amount = ttp_Amount arg\<rparr> now d of
        (Inr (t # _), d1) \<Rightarrow>
     (case sql_create_entry \<lparr>cep_AccountID = ttp_FromAccountID arg, cep_Amount = - ttp_Amount arg\<rparr> now d1 of
        (Inr (fe # _), d2) \<Rightarrow>
     (case sql_create_entry \<lparr>cep_AccountID = ttp_ToAccountID arg, cep_Amount = ttp_Amount arg\<rparr> now d2 of
        (Inr (te # _), d3) \<Rightarrow>
          (if ttp_FromAccountID arg <s ttp_ToAccountID arg
           then map_option (\<lambda>(x, y, d4). (\<lparr>ttr_Transfer = t, ttr_FromAccount = x, ttr_ToAccount = y,
                    ttr_FromEntry = fe, ttr_ToEntry = te\<rparr>, d4))
                  (add_money_steps now (ttp_FromAccountID arg) (- ttp_Amount arg)
                     (ttp_ToAccountID arg) (ttp_Amount arg) d3)
           else map_option (\<lambda>(x, y, d4). (\<lparr>ttr_Transfer = t, ttr_FromAccount = y, ttr_ToAccount = x,
                    ttr_FromEntry = fe, ttr_ToEntry = te\<rparr>, d4))
                  (add_money_steps now (ttp_ToAccountID arg) (ttp_Amount arg)
                     (ttp_FromAccountID arg) (- ttp_Amount arg) d3))
      | _ \<Rightarrow> None) | _ \<Rightarrow> None) | _ \<Rightarrow> None)"

lemma credit_simps [simp]:
  "acc_ID (credit i a r) = acc_ID r" "acc_Owner (credit i a r) = acc_Owner r"
  "acc_Currency (credit i a r) = acc_Currency r"
  "acc_Balance (credit i a r) = acc_Balance r + (if acc_ID r = i then a else 0)"
  by (simp_all add: credit_def)

lemma upd_balance_credit:
  assumes "distinct (map acc_ID rs)" and "row_of acc_ID i rs = Some r"
  shows "upd_rows acc_ID i (acc_Balance_update (\<lambda>_. acc_Balance r + a)) rs = map (credit i a) rs"
  unfolding upd_rows_def
proof (rule map_cong [OF refl])
  fix x
  assume x: "x \<in> set rs"
  show "(if acc_ID x = i then acc_Balance_update (\<lambda>_. acc_Balance r + a) x else x) = credit i a x"
  proof (cases "acc_ID x = i")
    case True
    with x assms row_of_member [of acc_ID rs x] have "x = r" by simp
    with True show ?thesis by (simp add: credit_def)
  qed (simp add: credit_def)
qed

lemma row_of_map_keep:
  "(\<And>r. key (f r) = key r) \<Longrightarrow> row_of key k (map f rs) = map_option f (row_of key k rs)"
  by (induction rs) (auto simp: row_of_Cons)

lemma add_balance_eq:
  assumes "distinct (map acc_ID (accounts d))"
  shows "sql_add_account_balance \<lparr>aab_Amount = a, aab_ID = i\<rparr> now d =
    (case row_of acc_ID i (accounts d) of
       None \<Rightarrow> (Inr [], d)
     | Some r \<Rightarrow> if pg_add (acc_Balance r) a = None then (Inl out_of_range, d)
                 else (Inr [credit i a r], d\<lparr>accounts := map (credit i a) (accounts d)\<rparr>))"
  using assms
  by (auto simp: sql_add_account_balance_def pg_add_def upd_balance_credit credit_def
      split: option.splits dest: row_of_SomeD)

lemma distinct_credit [simp]: "map (acc_ID \<circ> credit i a) rs = map acc_ID rs"
  by simp

lemma add_money_steps_eq:
  assumes "distinct (map acc_ID (accounts d))"
    and "row_of acc_ID i1 (accounts d) = Some r1" and "row_of acc_ID i2 (accounts d) = Some r2"
  shows "add_money_steps now i1 a1 i2 a2 d =
    (if pg_add (acc_Balance r1) a1 = None \<or> pg_add (acc_Balance (credit i1 a1 r2)) a2 = None then None
     else Some (credit i1 a1 r1, credit i2 a2 (credit i1 a1 r2),
                d\<lparr>accounts := map (\<lambda>r. credit i2 a2 (credit i1 a1 r)) (accounts d)\<rparr>))"
  using assms
  by (simp add: add_money_steps_def add_balance_eq row_of_map_keep comp_def)

subsection \<open>The statements compute the abstract transfer\<close>

lemma create_transfer_eq:
  assumes "wf_db d"
  shows "sql_create_transfer p now d =
    (if max_int64 < transfers_seq d then (Inl seq_exhausted, d)
     else if \<not> has_key acc_ID (ctp_FromAccountID p) (accounts d)
       then (Inl (foreign_key_violation ''transfers_from_account_id_fkey''),
             d\<lparr>transfers_seq := transfers_seq d + 1\<rparr>)
     else if \<not> has_key acc_ID (ctp_ToAccountID p) (accounts d)
       then (Inl (foreign_key_violation ''transfers_to_account_id_fkey''),
             d\<lparr>transfers_seq := transfers_seq d + 1\<rparr>)
     else let t = \<lparr>tr_ID = word_of_int (transfers_seq d), tr_FromAccountID = ctp_FromAccountID p,
                tr_ToAccountID = ctp_ToAccountID p, tr_Amount = ctp_Amount p, tr_CreatedAt = now\<rparr>
          in (Inr [t], d\<lparr>transfers_seq := transfers_seq d + 1, transfers := transfers d @ [t]\<rparr>))"
  using assms below_fresh(1) [of tr_ID "transfers d" "transfers_seq d"]
  by (auto simp: sql_create_transfer_def nextval_def wf_db_defs Let_def)

lemma create_entry_eq:
  assumes "below ent_ID (entries d) (entries_seq d)"
  shows "sql_create_entry p now d =
    (if max_int64 < entries_seq d then (Inl seq_exhausted, d)
     else if \<not> has_key acc_ID (cep_AccountID p) (accounts d)
       then (Inl (foreign_key_violation ''entries_account_id_fkey''),
             d\<lparr>entries_seq := entries_seq d + 1\<rparr>)
     else let e = \<lparr>ent_ID = word_of_int (entries_seq d), ent_AccountID = cep_AccountID p,
                ent_Amount = cep_Amount p, ent_CreatedAt = now\<rparr>
          in (Inr [e], d\<lparr>entries_seq := entries_seq d + 1, entries := entries d @ [e]\<rparr>))"
  using assms below_fresh(1) [of ent_ID "entries d" "entries_seq d"]
  by (auto simp: sql_create_entry_def nextval_def Let_def)

text \<open>Both entries of a transfer between existing accounts, with ids left for both.\<close>

lemma two_entries_eq:
  fixes now :: instant and a b :: int64
  assumes "below ent_ID (entries d) (entries_seq d)" and "entries_seq d < max_int64"
    and "has_key acc_ID i (accounts d)" and "has_key acc_ID j (accounts d)"
  defines "e1 \<equiv> \<lparr>ent_ID = word_of_int (entries_seq d), ent_AccountID = i, ent_Amount = a, ent_CreatedAt = now\<rparr>"
    and "e2 \<equiv> \<lparr>ent_ID = word_of_int (entries_seq d + 1), ent_AccountID = j, ent_Amount = b, ent_CreatedAt = now\<rparr>"
  defines "d1 \<equiv> d\<lparr>entries_seq := entries_seq d + 1, entries := entries d @ [e1]\<rparr>"
  shows "sql_create_entry \<lparr>cep_AccountID = i, cep_Amount = a\<rparr> now d = (Inr [e1], d1)"
    and "sql_create_entry \<lparr>cep_AccountID = j, cep_Amount = b\<rparr> now d1 =
      (Inr [e2], d1\<lparr>entries_seq := entries_seq d + 2, entries := entries d @ [e1, e2]\<rparr>)"
proof -
  show "sql_create_entry \<lparr>cep_AccountID = i, cep_Amount = a\<rparr> now d = (Inr [e1], d1)"
    using assms(1-4) by (simp add: create_entry_eq Let_def d1_def e1_def)
  have "1 \<le> entries_seq d" using assms(1) by (simp add: below_def)
  then have "sint (ent_ID e1) = entries_seq d"
    using assms(2) by (simp add: e1_def sint64_of_int)
  then have "below ent_ID (entries d1) (entries_seq d1)"
    using below_append [OF assms(1)] by (simp add: d1_def)
  then show "sql_create_entry \<lparr>cep_AccountID = j, cep_Amount = b\<rparr> now d1 =
      (Inr [e2], d1\<lparr>entries_seq := entries_seq d + 2, entries := entries d @ [e1, e2]\<rparr>)"
    using assms(2-4) by (simp add: create_entry_eq Let_def d1_def e2_def)
qed

lemma transfer_possibleD:
  assumes "transfer_possible arg d"
  shows "transfers_seq d \<le> max_int64 \<and> entries_seq d < max_int64 \<and>
    has_key acc_ID (ttp_FromAccountID arg) (accounts d) \<and>
    has_key acc_ID (ttp_ToAccountID arg) (accounts d)"
  using assms by (auto simp: transfer_possible_def row_of_Some_has_key split: option.splits)

lemma transfer_steps_absent:
  assumes wf: "wf_db d"
    and "\<not> (transfers_seq d \<le> max_int64 \<and> entries_seq d < max_int64 \<and>
           has_key acc_ID (ttp_FromAccountID arg) (accounts d) \<and>
           has_key acc_ID (ttp_ToAccountID arg) (accounts d))"
  shows "transfer_steps now arg d = None"
proof (cases "transfers_seq d \<le> max_int64 \<and> has_key acc_ID (ttp_FromAccountID arg) (accounts d) \<and>
           has_key acc_ID (ttp_ToAccountID arg) (accounts d)")
  case False
  then show ?thesis by (auto simp: transfer_steps_def create_transfer_eq [OF wf] Let_def)
next
  case True
  with assms(2) have full: "max_int64 \<le> entries_seq d" by auto
  have "below ent_ID (entries d) (entries_seq d)" using wf by (simp add: wf_db_defs)
  have "sql_create_entry p now d' = (Inl seq_exhausted, d')" if "max_int64 < entries_seq d'" for p d'
    using that by (simp add: sql_create_entry_def nextval_def)
  with True full \<open>below ent_ID _ _\<close> show ?thesis
    by (auto simp: transfer_steps_def create_transfer_eq [OF wf] create_entry_eq Let_def
        split: prod.splits)
qed

theorem transfer_steps_eq:
  assumes wf: "wf_db d"
  shows "transfer_steps now arg d =
    (if transfer_possible arg d then Some (transfer_result now arg d, transfer_db now arg d) else None)"
proof (cases "transfers_seq d \<le> max_int64 \<and> entries_seq d < max_int64 \<and>
           has_key acc_ID (ttp_FromAccountID arg) (accounts d) \<and>
           has_key acc_ID (ttp_ToAccountID arg) (accounts d)")
  case False
  then have "\<not> transfer_possible arg d"
    using transfer_possibleD [of arg d] by blast
  with transfer_steps_absent [OF wf False] show ?thesis by simp
next
  case True
  let ?from = "ttp_FromAccountID arg" and ?to = "ttp_ToAccountID arg" and ?amt = "ttp_Amount arg"
  obtain a b where a: "row_of acc_ID ?from (accounts d) = Some a"
    and b: "row_of acc_ID ?to (accounts d) = Some b"
    using True has_key_row_of by metis
  let ?d1 = "d\<lparr>transfers_seq := transfers_seq d + 1, transfers := transfers d @ [transfer_row now arg d]\<rparr>"
  let ?d3 = "?d1\<lparr>entries_seq := entries_seq d + 2,
               entries := entries d @ [from_entry_row now arg d, to_entry_row now arg d]\<rparr>"
  have below: "below ent_ID (entries ?d1) (entries_seq ?d1)"
    and dist: "distinct (map acc_ID (accounts d))"
    using wf by (simp_all add: wf_db_defs)
  note entries_eq =
    two_entries_eq(1) [OF below, where i = ?from and j = ?to and a = "- ?amt" and now = now, simplified]
    two_entries_eq(2) [OF below, where i = ?from and j = ?to and a = "- ?amt" and b = ?amt and now = now, simplified]
  have steps: "transfer_steps now arg d =
      (if ?from <s ?to
       then map_option (\<lambda>(x, y, d4). (\<lparr>ttr_Transfer = transfer_row now arg d, ttr_FromAccount = x,
              ttr_ToAccount = y, ttr_FromEntry = from_entry_row now arg d, ttr_ToEntry = to_entry_row now arg d\<rparr>, d4))
              (add_money_steps now ?from (- ?amt) ?to ?amt ?d3)
       else map_option (\<lambda>(x, y, d4). (\<lparr>ttr_Transfer = transfer_row now arg d, ttr_FromAccount = y,
              ttr_ToAccount = x, ttr_FromEntry = from_entry_row now arg d, ttr_ToEntry = to_entry_row now arg d\<rparr>, d4))
              (add_money_steps now ?to ?amt ?from (- ?amt) ?d3))"
    using True entries_eq
    by (simp add: transfer_steps_def create_transfer_eq [OF wf] Let_def transfer_row_def
        from_entry_row_def to_entry_row_def)
  have ids: "acc_ID a = ?from" "acc_ID b = ?to" using a b row_of_SomeD by metis+
  have same: "b = a" if "?from = ?to" using a b that by simp
  have fwd: "add_money_steps now ?from (- ?amt) ?to ?amt ?d3 =
      (if transfer_possible arg d
       then Some (ttr_FromAccount (transfer_result now arg d), ttr_ToAccount (transfer_result now arg d),
                  transfer_db now arg d) else None)" if "?from <s ?to"
    using True a b ids that dist
    by (subst add_money_steps_eq [where ?r1.0 = a and ?r2.0 = b])
      (auto simp: transfer_possible_def transfer_result_def transfer_db_def transfer_delta_def
        credit_def Let_def word_sless_alt)
  have bwd: "add_money_steps now ?to ?amt ?from (- ?amt) ?d3 =
      (if transfer_possible arg d
       then Some (ttr_ToAccount (transfer_result now arg d), ttr_FromAccount (transfer_result now arg d),
                  transfer_db now arg d) else None)"
    using True a b ids same dist
    by (subst add_money_steps_eq [where ?r1.0 = b and ?r2.0 = a])
      (auto simp: transfer_possible_def transfer_result_def transfer_db_def transfer_delta_def
        credit_def Let_def)
  show ?thesis
    by (simp add: steps fwd bwd transfer_result_def Let_def)
qed

end
