(* ===== verification/Transfer_Tx.thy ===== *)
theory Transfer_Tx
  imports Transfer_Spec
begin

text \<open>
  \<open>TransferTx\<close> refines the abstract transfer: over any connection and any pattern of failures
  its tables end as they were or as \<open>transfer_db\<close> says, and with no failure it succeeds exactly
  when the transfer is possible. What follows from it for balances, money and the ledger.
\<close>

subsection \<open>Within the transaction\<close>

lemma query_row_in_tx:
  assumes "c_tx c = InTx now" and "query_row E s c = (r, c')"
  shows "(\<exists>e. r = Inl e \<and> c_tx c' = FailedTx) \<or>
    (r = Inl ErrNoRows \<and> fst (s now (c_db c)) = Inr []) \<or>
    (\<exists>x xs. r = Inr x \<and> s now (c_db c) = (Inr (x # xs), c_db c') \<and> c_tx c' = InTx now)"
  by (rule query_row_tx [OF assms]) (use assms(1) in auto)

lemma query_row_in_tx_no_faults:
  assumes "no_faults E" and "c_tx c = InTx now" and "s now (c_db c) = (Inr (x # xs), d)"
  shows "query_row E s c = (Inr x, c\<lparr>c_db := d, c_tick := Suc (c_tick c)\<rparr>)"
  using assms by (simp add: query_row_def run_stmt_def Let_def no_faults_def)

lemma add_balance_has_row:
  "has_key acc_ID i (accounts d) \<Longrightarrow> fst (sql_add_account_balance \<lparr>aab_Amount = a, aab_ID = i\<rparr> now d) \<noteq> Inr []"
  by (auto simp: sql_add_account_balance_def row_of_None_iff split: option.splits)

lemma add_balance_keeps_ids:
  assumes "sql_add_account_balance p now d = (Inr (x # xs), d')"
  shows "has_key acc_ID i (accounts d') = has_key acc_ID i (accounts d)"
  using assms
  by (auto simp: sql_add_account_balance_def has_key_upd_rows split: option.splits)

lemma addMoney_in_tx:
  assumes tx: "c_tx c = InTx now" and run: "addMoney E i1 a1 i2 a2 c = ((x, y, err), c')"
    and rows: "has_key acc_ID i1 (accounts (c_db c))" "has_key acc_ID i2 (accounts (c_db c))"
  shows "c_tx c' = FailedTx \<or>
    c_tx c' = InTx now \<and> err = None \<and> add_money_steps now i1 a1 i2 a2 (c_db c) = Some (x, y, c_db c')"
proof -
  let ?s1 = "sql_add_account_balance \<lparr>aab_Amount = a1, aab_ID = i1\<rparr>"
  let ?s2 = "sql_add_account_balance \<lparr>aab_Amount = a2, aab_ID = i2\<rparr>"
  obtain r1 c1 where q1: "query_row E ?s1 c = (r1, c1)" by (cases "query_row E ?s1 c")
  obtain r2 c2 where q2: "query_row E ?s2 c1 = (r2, c2)" by (cases "query_row E ?s2 c1")
  from query_row_in_tx [OF tx q1] add_balance_has_row [OF rows(1)]
  consider "\<exists>e. r1 = Inl e" "c_tx c1 = FailedTx"
    | z zs where "r1 = Inr z" "?s1 now (c_db c) = (Inr (z # zs), c_db c1)" "c_tx c1 = InTx now"
    by fastforce
  then show ?thesis
  proof cases
    case 1
    with run q1 show ?thesis by (auto simp: addMoney_def AddAccountBalance_def)
  next
    case 2
    have "has_key acc_ID i2 (accounts (c_db c1))"
      using rows(2) add_balance_keeps_ids [OF 2(2)] by simp
    with query_row_in_tx [OF 2(3) q2] add_balance_has_row
    have "(\<exists>e. r2 = Inl e) \<and> c_tx c2 = FailedTx \<or>
      (\<exists>w ws. r2 = Inr w \<and> ?s2 now (c_db c1) = (Inr (w # ws), c_db c2) \<and> c_tx c2 = InTx now)"
      by fastforce
    with run q1 q2 2 show ?thesis
      by (auto simp: addMoney_def AddAccountBalance_def add_money_steps_def)
  qed
qed

lemma create_transfer_rows:
  assumes "sql_create_transfer p now d = (r, d')"
  shows "r \<noteq> Inr []" and "r = Inr (x # xs) \<Longrightarrow> accounts d' = accounts d \<and>
    has_key acc_ID (ctp_FromAccountID p) (accounts d) \<and> has_key acc_ID (ctp_ToAccountID p) (accounts d)"
  using assms by (auto simp: sql_create_transfer_def Let_def split: option.splits if_splits)

lemma create_entry_rows:
  assumes "sql_create_entry p now d = (r, d')"
  shows "r \<noteq> Inr []" and "r = Inr (x # xs) \<Longrightarrow> accounts d' = accounts d"
  using assms by (auto simp: sql_create_entry_def Let_def split: option.splits if_splits)

text \<open>
  The closure of \<open>TransferTx\<close> returns an error, leaves the transaction failed, or has run all
  its statements: in particular the error of \<open>addMoney\<close> it drops is never lost without a trace.
\<close>

lemma closure_in_tx:
  assumes tx: "c_tx c = InTx now" and run: "transferTx_closure E arg zero_result c = ((err, res), c')"
  shows "err \<noteq> None \<or> c_tx c' = FailedTx \<or>
    err = None \<and> c_tx c' = InTx now \<and> transfer_steps now arg (c_db c) = Some (res, c_db c')"
proof -
  let ?from = "ttp_FromAccountID arg" and ?to = "ttp_ToAccountID arg" and ?amt = "ttp_Amount arg"
  let ?s1 = "sql_create_transfer \<lparr>ctp_FromAccountID = ?from, ctp_ToAccountID = ?to, ctp_Amount = ?amt\<rparr>"
  let ?s2 = "sql_create_entry \<lparr>cep_AccountID = ?from, cep_Amount = - ?amt\<rparr>"
  let ?s3 = "sql_create_entry \<lparr>cep_AccountID = ?to, cep_Amount = ?amt\<rparr>"
  obtain r1 c1 where q1: "query_row E ?s1 c = (r1, c1)" by (cases "query_row E ?s1 c")
  obtain r2 c2 where q2: "query_row E ?s2 c1 = (r2, c2)" by (cases "query_row E ?s2 c1")
  obtain r3 c3 where q3: "query_row E ?s3 c2 = (r3, c3)" by (cases "query_row E ?s3 c2")
  note defs = transferTx_closure_def CreateTransfer_def CreateEntry_def
  show ?thesis
  proof (cases "err")
    case None
    obtain t where r1: "r1 = Inr t" using run q1 None by (cases r1) (auto simp: defs)
    obtain fe where r2: "r2 = Inr fe" using run q1 q2 r1 None by (cases r2) (auto simp: defs)
    obtain te where r3: "r3 = Inr te" using run q1 q2 q3 r1 r2 None by (cases r3) (auto simp: defs)
    from query_row_in_tx [OF tx q1] r1 obtain ts where
      1: "?s1 now (c_db c) = (Inr (t # ts), c_db c1)" "c_tx c1 = InTx now" by auto
    from query_row_in_tx [OF 1(2) q2] r2 obtain fs where
      2: "?s2 now (c_db c1) = (Inr (fe # fs), c_db c2)" "c_tx c2 = InTx now" by auto
    from query_row_in_tx [OF 2(2) q3] r3 obtain es where
      3: "?s3 now (c_db c2) = (Inr (te # es), c_db c3)" "c_tx c3 = InTx now" by auto
    have rows: "has_key acc_ID ?from (accounts (c_db c3))" "has_key acc_ID ?to (accounts (c_db c3))"
      using create_transfer_rows(2) [OF 1(1) refl] create_entry_rows(2) [OF 2(1) refl]
        create_entry_rows(2) [OF 3(1) refl] by auto
    show ?thesis
    proof (cases "?from <s ?to")
      case True
      obtain a1 a2 e c4 where am: "addMoney E ?from (- ?amt) ?to ?amt c3 = ((a1, a2, e), c4)"
        using prod_cases4 by (metis surj_pair)
      have "res = \<lparr>ttr_Transfer = t, ttr_FromAccount = a1, ttr_ToAccount = a2, ttr_FromEntry = fe,
          ttr_ToEntry = te\<rparr> \<and> c' = c4"
        using run q1 q2 q3 r1 r2 r3 True am by (simp add: defs zero_result_def)
      with addMoney_in_tx [OF 3(2) am rows] 1(1) 2(1) 3(1) True None show ?thesis
        by (auto simp: transfer_steps_def)
    next
      case False
      obtain a1 a2 e c4 where am: "addMoney E ?to ?amt ?from (- ?amt) c3 = ((a1, a2, e), c4)"
        using prod_cases4 by (metis surj_pair)
      have "res = \<lparr>ttr_Transfer = t, ttr_FromAccount = a2, ttr_ToAccount = a1, ttr_FromEntry = fe,
          ttr_ToEntry = te\<rparr> \<and> c' = c4"
        using run q1 q2 q3 r1 r2 r3 False am by (simp add: defs zero_result_def)
      with addMoney_in_tx [OF 3(2) am rows(2,1)] 1(1) 2(1) 3(1) False None show ?thesis
        by (auto simp: transfer_steps_def)
    qed
  qed simp
qed

lemma addMoney_no_faults:
  assumes nf: "no_faults E" and tx: "c_tx c = InTx now"
    and steps: "add_money_steps now i1 a1 i2 a2 (c_db c) = Some (x, y, d)"
  shows "addMoney E i1 a1 i2 a2 c = ((x, y, None), c\<lparr>c_db := d, c_tick := c_tick c + 2\<rparr>)"
proof -
  let ?s1 = "sql_add_account_balance \<lparr>aab_Amount = a1, aab_ID = i1\<rparr>"
  let ?s2 = "sql_add_account_balance \<lparr>aab_Amount = a2, aab_ID = i2\<rparr>"
  obtain xs d1 ys where
    1: "?s1 now (c_db c) = (Inr (x # xs), d1)" and 2: "?s2 now d1 = (Inr (y # ys), d)"
    using steps by (auto simp: add_money_steps_def split: prod.splits sum.splits list.splits)
  let ?c1 = "c\<lparr>c_db := d1, c_tick := Suc (c_tick c)\<rparr>"
  have q1: "query_row E ?s1 c = (Inr x, ?c1)"
    by (rule query_row_in_tx_no_faults [where s = ?s1, OF nf tx 1])
  have q2: "query_row E ?s2 ?c1 = (Inr y, ?c1\<lparr>c_db := d, c_tick := Suc (c_tick ?c1)\<rparr>)"
    by (rule query_row_in_tx_no_faults [where s = ?s2 and now = now, OF nf]) (use tx 2 in simp_all)
  from q1 q2 show ?thesis by (simp add: addMoney_def AddAccountBalance_def)
qed

lemma closure_no_faults:
  assumes nf: "no_faults E" and tx: "c_tx c = InTx now"
    and steps: "transfer_steps now arg (c_db c) = Some (res, d)"
  shows "transferTx_closure E arg zero_result c = ((None, res), c\<lparr>c_db := d, c_tick := c_tick c + 5\<rparr>)"
proof -
  let ?from = "ttp_FromAccountID arg" and ?to = "ttp_ToAccountID arg" and ?amt = "ttp_Amount arg"
  let ?s1 = "sql_create_transfer \<lparr>ctp_FromAccountID = ?from, ctp_ToAccountID = ?to, ctp_Amount = ?amt\<rparr>"
  let ?s2 = "sql_create_entry \<lparr>cep_AccountID = ?from, cep_Amount = - ?amt\<rparr>"
  let ?s3 = "sql_create_entry \<lparr>cep_AccountID = ?to, cep_Amount = ?amt\<rparr>"
  obtain t ts d1 fe fs d2 te es d3 where
    1: "?s1 now (c_db c) = (Inr (t # ts), d1)" and 2: "?s2 now d1 = (Inr (fe # fs), d2)" and
    3: "?s3 now d2 = (Inr (te # es), d3)"
    using steps by (auto simp: transfer_steps_def split: prod.splits sum.splits list.splits)
  let ?c1 = "c\<lparr>c_db := d1, c_tick := Suc (c_tick c)\<rparr>"
  let ?c2 = "?c1\<lparr>c_db := d2, c_tick := Suc (c_tick ?c1)\<rparr>"
  let ?c3 = "?c2\<lparr>c_db := d3, c_tick := Suc (c_tick ?c2)\<rparr>"
  have q1: "query_row E ?s1 c = (Inr t, ?c1)" by (rule query_row_in_tx_no_faults [where s = ?s1, OF nf tx 1])
  have q2: "query_row E ?s2 ?c1 = (Inr fe, ?c2)"
    by (rule query_row_in_tx_no_faults [where s = ?s2 and now = now, OF nf]) (use tx 2 in simp_all)
  have q3: "query_row E ?s3 ?c2 = (Inr te, ?c3)"
    by (rule query_row_in_tx_no_faults [where s = ?s3 and now = now, OF nf]) (use tx 3 in simp_all)
  have tx3: "c_tx ?c3 = InTx now" "c_db ?c3 = d3" using tx by simp_all
  show ?thesis
  proof (cases "?from <s ?to")
    case True
    then obtain x y where am: "add_money_steps now ?from (- ?amt) ?to ?amt d3 = Some (x, y, d)"
      and res: "res = \<lparr>ttr_Transfer = t, ttr_FromAccount = x, ttr_ToAccount = y, ttr_FromEntry = fe, ttr_ToEntry = te\<rparr>"
      using steps 1 2 3 by (auto simp: transfer_steps_def)
    have "addMoney E ?from (- ?amt) ?to ?amt ?c3 = ((x, y, None), ?c3\<lparr>c_db := d, c_tick := c_tick ?c3 + 2\<rparr>)"
      by (rule addMoney_no_faults [OF nf tx3(1)]) (simp only: tx3(2) am)
    with q1 q2 q3 True res show ?thesis
      by (simp add: transferTx_closure_def CreateTransfer_def CreateEntry_def zero_result_def)
  next
    case False
    then obtain x y where am: "add_money_steps now ?to ?amt ?from (- ?amt) d3 = Some (x, y, d)"
      and res: "res = \<lparr>ttr_Transfer = t, ttr_FromAccount = y, ttr_ToAccount = x, ttr_FromEntry = fe, ttr_ToEntry = te\<rparr>"
      using steps 1 2 3 by (auto simp: transfer_steps_def)
    have "addMoney E ?to ?amt ?from (- ?amt) ?c3 = ((x, y, None), ?c3\<lparr>c_db := d, c_tick := c_tick ?c3 + 2\<rparr>)"
      by (rule addMoney_no_faults [OF nf tx3(1)]) (simp only: tx3(2) am)
    with q1 q2 q3 False res show ?thesis
      by (simp add: transferTx_closure_def CreateTransfer_def CreateEntry_def zero_result_def)
  qed
qed

subsection \<open>The transaction refines the abstract transfer\<close>

lemma TransferTx_outcome:
  assumes auto: "c_tx c = Autocommit" and wf: "wf_db (c_db c)"
    and run: "TransferTx E arg c = ((res, err), c')"
  shows "c_tx c' = Autocommit \<and>
    (same_tables (c_db c) (c_db c') \<and> (reports_failed_commit E \<longrightarrow> err \<noteq> None) \<or>
     transfer_possible arg (c_db c) \<and> res = transfer_result (clock E (c_tick c)) arg (c_db c) \<and>
     c_db c' = transfer_db (clock E (c_tick c)) arg (c_db c))"
proof -
  have ex: "execTX E (transferTx_closure E arg) zero_result c = ((err, res), c')"
    using run by (auto simp: TransferTx_def split: prod.splits)
  from ex auto show ?thesis
  proof (cases rule: execTX_cases)
    case rolled_back
    then show ?thesis by simp
  next
    case (committed c2)
    have "c_tx (begin_tx E c) = InTx (clock E (c_tick c))" "c_db (begin_tx E c) = c_db c"
      by (simp_all add: begin_tx_def)
    with closure_in_tx [OF _ committed(1)] committed(2)
    have "transfer_steps (clock E (c_tick c)) arg (c_db c) = Some (res, c_db c2)" by auto
    with committed(3,4) show ?thesis
      by (auto simp: transfer_steps_eq [OF wf] split: if_splits)
  qed
qed

lemma TransferTx_no_faults:
  assumes nf: "no_faults E" and auto: "c_tx c = Autocommit" and wf: "wf_db (c_db c)"
    and possible: "transfer_possible arg (c_db c)"
  shows "TransferTx E arg c =
    ((transfer_result (clock E (c_tick c)) arg (c_db c), None),
     c\<lparr>c_db := transfer_db (clock E (c_tick c)) arg (c_db c), c_tick := c_tick c + 7\<rparr>)"
proof -
  let ?now = "clock E (c_tick c)"
  have "transfer_steps ?now arg (c_db (begin_tx E c)) =
      Some (transfer_result ?now arg (c_db c), transfer_db ?now arg (c_db c))"
    using possible by (simp add: transfer_steps_eq [OF wf] begin_tx_def)
  from closure_no_faults [OF nf _ this] have cl:
    "transferTx_closure E arg zero_result (begin_tx E c) =
      ((None, transfer_result ?now arg (c_db c)),
       (begin_tx E c)\<lparr>c_db := transfer_db ?now arg (c_db c), c_tick := c_tick c + 6\<rparr>)"
    by (simp add: begin_tx_def)
  show ?thesis
    unfolding TransferTx_def execTX_no_faults [where fn = "transferTx_closure E arg" and r = zero_result, OF nf cl]
    using auto by (simp add: begin_tx_def committed_def)
qed

end
