(* ===== verification/Transfer_Props.thy ===== *)
theory Transfer_Props
  imports Transfer_Tx
begin

text \<open>
  What the refinement of \<open>TransferTx\<close> gives: balances move by exactly the amount, the sum of all
  balances is conserved, the ledger stays balanced, and what happens at the edges of \<open>int64\<close>.
\<close>

subsection \<open>Balances, money and the ledger under the abstract transfer\<close>

lemma transfer_balance_sint:
  assumes wf: "wf_db d" and possible: "transfer_possible arg d" and r: "r \<in> set (accounts d)"
  shows "sint (acc_Balance r + transfer_delta arg (acc_ID r)) = sint (acc_Balance r) +
    (if acc_ID r = ttp_FromAccountID arg then sint (- ttp_Amount arg) else 0) +
    (if acc_ID r = ttp_ToAccountID arg then sint (ttp_Amount arg) else 0)"
proof -
  have "row_of acc_ID (acc_ID r) (accounts d) = Some r"
    using wf r by (intro accounts_tbl.lookup_unique_row) (simp_all add: wf_db_defs)
  with possible show ?thesis
    using sint_pg_add_defined [of "acc_Balance r" "ttp_Amount arg"]
      sint_pg_add_defined [of "acc_Balance r" "- ttp_Amount arg"]
      sint_pg_add_defined [of "acc_Balance r + ttp_Amount arg" "- ttp_Amount arg"]
    by (auto simp: transfer_possible_def transfer_delta_def split: option.splits if_splits)
qed

lemma sum_indicator:
  fixes v :: int
  assumes "distinct (map key rs)" and "has_key key i rs"
  shows "(\<Sum>r \<leftarrow> rs. if key r = i then v else 0) = v"
  using assms
proof (induction rs)
  case (Cons r rs)
  show ?case
  proof (cases "key r = i")
    case True
    with Cons.prems have "i \<notin> key ` set rs" by auto
    then have "\<forall>x \<in> set rs. key x \<noteq> i" by auto
    then have "(\<Sum>x \<leftarrow> rs. if key x = i then v else 0) = 0"
      by (induction rs) auto
    with True show ?thesis by simp
  next
    case False
    with Cons show ?thesis by (simp add: has_key_def)
  qed
qed (simp add: has_key_def)

lemma transfer_total:
  assumes wf: "wf_db d" and possible: "transfer_possible arg d"
  shows "total_balance (transfer_db now arg d) =
    total_balance d + sint (- ttp_Amount arg) + sint (ttp_Amount arg)"
proof -
  let ?f = "\<lambda>r. if acc_ID r = ttp_FromAccountID arg then sint (- ttp_Amount arg) else 0"
  let ?t = "\<lambda>r. if acc_ID r = ttp_ToAccountID arg then sint (ttp_Amount arg) else 0"
  have dist: "distinct (map acc_ID (accounts d))" using wf by (simp add: wf_db_defs)
  have "total_balance (transfer_db now arg d) =
      (\<Sum>r \<leftarrow> accounts d. sint (acc_Balance r + transfer_delta arg (acc_ID r)))"
    by (simp add: total_balance_def transfer_db_def comp_def)
  also have "\<dots> = (\<Sum>r \<leftarrow> accounts d. sint (acc_Balance r) + ?f r + ?t r)"
    using transfer_balance_sint [OF wf possible] by (intro arg_cong [where f = sum_list] map_cong) auto
  also have "\<dots> = total_balance d + (\<Sum>r \<leftarrow> accounts d. ?f r) + (\<Sum>r \<leftarrow> accounts d. ?t r)"
    by (simp add: total_balance_def sum_list_addf)
  finally show ?thesis
    using transfer_possibleD [OF possible] sum_indicator [OF dist] by simp
qed

lemma transfer_ledger:
  assumes wf: "wf_db d" and possible: "transfer_possible arg d" and ledger: "ledger_ok d"
  shows "ledger_ok (transfer_db now arg d)"
  unfolding ledger_ok_def
proof
  fix a
  assume "a \<in> set (accounts (transfer_db now arg d))"
  then obtain r where r: "r \<in> set (accounts d)"
    and a: "a = r\<lparr>acc_Balance := acc_Balance r + transfer_delta arg (acc_ID r)\<rparr>"
    by (auto simp: transfer_db_def)
  have "entry_sum (acc_ID r) (entries (transfer_db now arg d)) = entry_sum (acc_ID r) (entries d) +
    (if acc_ID r = ttp_FromAccountID arg then sint (- ttp_Amount arg) else 0) +
    (if acc_ID r = ttp_ToAccountID arg then sint (ttp_Amount arg) else 0)"
    by (simp add: transfer_db_def entry_sum_def from_entry_row_def to_entry_row_def)
  then show "sint (acc_Balance a) = entry_sum (acc_ID a) (entries (transfer_db now arg d))"
    using transfer_balance_sint [OF wf possible r] ledger r a by (simp add: ledger_ok_def)
qed

lemma transfer_lookup:
  "row_of acc_ID i (accounts (transfer_db now arg d)) =
     map_option (\<lambda>r. r\<lparr>acc_Balance := acc_Balance r + transfer_delta arg i\<rparr>) (row_of acc_ID i (accounts d))"
proof -
  have "row_of acc_ID i (accounts (transfer_db now arg d)) =
      map_option (\<lambda>r. r\<lparr>acc_Balance := acc_Balance r + transfer_delta arg (acc_ID r)\<rparr>)
        (row_of acc_ID i (accounts d))"
    by (simp add: transfer_db_def row_of_map_keep)
  then show ?thesis
    using row_of_SomeD [of acc_ID i "accounts d"] by (cases "row_of acc_ID i (accounts d)") auto
qed

lemma TransferTx_ledger:
  assumes "c_tx c = Autocommit" "wf_db (c_db c)" "ledger_ok (c_db c)"
    and "TransferTx E arg c = ((res, err), c')"
  shows "ledger_ok (c_db c')"
  using TransferTx_outcome [OF assms(1,2,4)] assms(2,3)
  by (auto intro: transfer_ledger same_tables_ledger)

text \<open>A small bank for the witnesses: two customers, with an account each.\<close>

definition sample_user :: "string \<Rightarrow> string \<Rightarrow> User" where
  "sample_user n m = \<lparr>usr_Username = n, usr_HashedPassword = ''$2a$secret'', usr_FullName = n,
     usr_PasswordChangedAt = zero_time, usr_Email = m, usr_CreatedAt = 0\<rparr>"

definition sample_db :: "int64 \<Rightarrow> int64 \<Rightarrow> database" where
  "sample_db b1 b2 = empty_db\<lparr>
     users := [sample_user ''ann'' ''ann@x.org'', sample_user ''bob'' ''bob@x.org''],
     accounts := [\<lparr>acc_ID = 1, acc_Owner = ''ann'', acc_Balance = b1, acc_Currency = ''USD'', acc_CreatedAt = 0\<rparr>,
                  \<lparr>acc_ID = 2, acc_Owner = ''bob'', acc_Balance = b2, acc_Currency = ''USD'', acc_CreatedAt = 0\<rparr>],
     accounts_seq := 3\<rparr>"

definition sample_conn :: "int64 \<Rightarrow> int64 \<Rightarrow> conn" where
  "sample_conn b1 b2 = \<lparr>c_db = sample_db b1 b2, c_tx = Autocommit, c_tick = 0\<rparr>"

definition good_env :: env where
  "good_env = \<lparr>clock = int, reply = (\<lambda>_. Delivered), failed_commit = (\<lambda>_. Some (ExtError ''failed transaction''))\<rparr>"

definition transfer_1_2 :: "int64 \<Rightarrow> TransferTxParams" where
  "transfer_1_2 a = \<lparr>ttp_FromAccountID = 1, ttp_ToAccountID = 2, ttp_Amount = a\<rparr>"

lemmas sample_defs = sample_conn_def sample_db_def sample_user_def empty_db_def good_env_def
  transfer_1_2_def

lemma wf_sample: "wf_db (sample_db b1 b2)"
  by (simp add: wf_db_defs below_def sample_defs)

lemma sample_conn_simps [simp]:
  "c_db (sample_conn b1 b2) = sample_db b1 b2" "c_tx (sample_conn b1 b2) = Autocommit"
  by (simp_all add: sample_conn_def)

lemma no_faults_update: "no_faults (E\<lparr>failed_commit := f\<rparr>) = no_faults E"
  by (simp add: no_faults_def)

lemma good_env_simps [simp]: "no_faults good_env" "reports_failed_commit good_env"
  by (simp_all add: good_env_def no_faults_def reports_failed_commit_def)

subsection \<open>Properties\<close>

text \<open>C6: with no failure, a possible transfer commits: the two balances move by the amount in
  opposite directions, every other account and table is as before, one transfer and two entries
  with the next ids are added, from and to the accounts given and with the amount given, and the
  returned result holds exactly these rows and the accounts as they are now (but for a transfer of an
  account to itself, whose second account is returned as it was between the two updates).\<close>

theorem TransferTx_moves_money:
  assumes "no_faults E" and "c_tx c = Autocommit" and "wf_db (c_db c)"
    and "transfer_possible arg (c_db c)"
  shows "\<exists>res c' t fe te. TransferTx E arg c = ((res, None), c') \<and>
    (\<forall>i. row_of acc_ID i (accounts (c_db c')) =
       map_option (\<lambda>r. r\<lparr>acc_Balance := acc_Balance r + transfer_delta arg i\<rparr>)
         (row_of acc_ID i (accounts (c_db c)))) \<and>
    transfers (c_db c') = transfers (c_db c) @ [t] \<and> entries (c_db c') = entries (c_db c) @ [fe, te] \<and>
    users (c_db c') = users (c_db c) \<and> sessions (c_db c') = sessions (c_db c) \<and>
    sint (tr_ID t) = transfers_seq (c_db c) \<and> transfers_seq (c_db c') = transfers_seq (c_db c) + 1 \<and>
    tr_FromAccountID t = ttp_FromAccountID arg \<and> tr_ToAccountID t = ttp_ToAccountID arg \<and>
    tr_Amount t = ttp_Amount arg \<and> tr_CreatedAt t = clock E (c_tick c) \<and>
    sint (ent_ID fe) = entries_seq (c_db c) \<and> sint (ent_ID te) = entries_seq (c_db c) + 1 \<and>
    entries_seq (c_db c') = entries_seq (c_db c) + 2 \<and>
    ent_AccountID fe = ttp_FromAccountID arg \<and> ent_Amount fe = - ttp_Amount arg \<and>
    ent_AccountID te = ttp_ToAccountID arg \<and> ent_Amount te = ttp_Amount arg \<and>
    ent_CreatedAt fe = clock E (c_tick c) \<and> ent_CreatedAt te = clock E (c_tick c) \<and>
    ttr_Transfer res = t \<and> ttr_FromEntry res = fe \<and> ttr_ToEntry res = te \<and>
    row_of acc_ID (ttp_FromAccountID arg) (accounts (c_db c')) = Some (ttr_FromAccount res) \<and>
    (ttp_FromAccountID arg \<noteq> ttp_ToAccountID arg \<longrightarrow>
       row_of acc_ID (ttp_ToAccountID arg) (accounts (c_db c')) = Some (ttr_ToAccount res)) \<and>
    res = transfer_result (clock E (c_tick c)) arg (c_db c)"
proof -
  let ?now = "clock E (c_tick c)" and ?d = "c_db c"
  let ?res = "transfer_result ?now arg ?d"
  note possible = transfer_possibleD [OF assms(4)]
  have seqs: "1 \<le> transfers_seq ?d" "transfers_seq ?d \<le> max_int64" "1 \<le> entries_seq ?d" "entries_seq ?d < max_int64"
    using assms(3) possible by (auto simp: wf_db_defs below_def)
  then have "sint (word_of_int (entries_seq ?d + 1) :: int64) = entries_seq ?d + 1"
    by (intro sint64_of_int) auto
  then have "sint (ent_ID (to_entry_row ?now arg ?d)) = entries_seq ?d + 1"
    unfolding to_entry_row_def Entry.simps .
  moreover from seqs have "sint (tr_ID (transfer_row ?now arg ?d)) = transfers_seq ?d"
    "sint (ent_ID (from_entry_row ?now arg ?d)) = entries_seq ?d"
    by (simp_all add: transfer_row_def from_entry_row_def sint64_of_int)
  ultimately have ids: "sint (tr_ID (transfer_row ?now arg ?d)) = transfers_seq ?d"
    "sint (ent_ID (from_entry_row ?now arg ?d)) = entries_seq ?d"
    "sint (ent_ID (to_entry_row ?now arg ?d)) = entries_seq ?d + 1" by simp_all
  obtain a b where ab: "row_of acc_ID (ttp_FromAccountID arg) (accounts ?d) = Some a" "row_of acc_ID (ttp_ToAccountID arg) (accounts ?d) = Some b"
    using possible has_key_row_of by metis
  moreover have "acc_ID a = ttp_FromAccountID arg" "acc_ID b = ttp_ToAccountID arg" using ab row_of_SomeD by metis+
  ultimately have rows: "row_of acc_ID (ttp_FromAccountID arg) (accounts (transfer_db ?now arg ?d)) = Some (ttr_FromAccount ?res)"
    "ttp_FromAccountID arg \<noteq> ttp_ToAccountID arg \<Longrightarrow>
      row_of acc_ID (ttp_ToAccountID arg) (accounts (transfer_db ?now arg ?d)) = Some (ttr_ToAccount ?res)"
    by (simp_all add: transfer_lookup transfer_result_def Let_def transfer_delta_def)
  let ?t = "transfer_row ?now arg ?d" and ?fe = "from_entry_row ?now arg ?d" and ?te = "to_entry_row ?now arg ?d"
  let ?d' = "transfer_db ?now arg ?d"
  have stored: "transfers ?d' = transfers ?d @ [?t]" "entries ?d' = entries ?d @ [?fe, ?te]" "users ?d' = users ?d"
    "sessions ?d' = sessions ?d" "transfers_seq ?d' = transfers_seq ?d + 1" "entries_seq ?d' = entries_seq ?d + 2"
    by (simp_all add: transfer_db_def)
  have returned: "ttr_Transfer ?res = ?t" "ttr_FromEntry ?res = ?fe" "ttr_ToEntry ?res = ?te"
    by (simp_all add: transfer_result_def Let_def)
  have fields: "tr_FromAccountID ?t = ttp_FromAccountID arg" "tr_ToAccountID ?t = ttp_ToAccountID arg"
    "tr_Amount ?t = ttp_Amount arg" "tr_CreatedAt ?t = ?now" "ent_AccountID ?fe = ttp_FromAccountID arg"
    "ent_Amount ?fe = - ttp_Amount arg" "ent_AccountID ?te = ttp_ToAccountID arg" "ent_Amount ?te = ttp_Amount arg"
    "ent_CreatedAt ?fe = ?now" "ent_CreatedAt ?te = ?now"
    by (simp_all add: transfer_row_def from_entry_row_def to_entry_row_def)
  show ?thesis
    unfolding TransferTx_no_faults [OF assms]
    by (rule exI [of _ ?res], rule exI, rule exI [of _ ?t], rule exI [of _ ?fe], rule exI [of _ ?te], rule conjI [OF refl])
      (use rows in \<open>simp add: ids stored returned fields transfer_lookup\<close>)
qed

theorem TransferTx_moves_money_witness:
  "\<exists>c'. TransferTx good_env (transfer_1_2 30) (sample_conn 100 5) =
      ((transfer_result 0 (transfer_1_2 30) (sample_db 100 5), None), c') \<and>
    map acc_Balance (accounts (c_db c')) = [70, 35]"
proof -
  have p: "transfer_possible (transfer_1_2 30) (c_db (sample_conn 100 5))"
    by (simp add: transfer_possible_def sample_defs row_of_Cons pg_add_def)
  have z: "clock good_env (c_tick (sample_conn 100 5)) = 0"
    by (simp add: sample_defs)
  from TransferTx_moves_money [OF good_env_simps(1) sample_conn_simps(2) _ p] obtain c' where
    c': "TransferTx good_env (transfer_1_2 30) (sample_conn 100 5) =
      ((transfer_result 0 (transfer_1_2 30) (sample_db 100 5), None), c')"
    by (auto simp: wf_sample z)
  with TransferTx_no_faults [OF good_env_simps(1) sample_conn_simps(2) _ p] show ?thesis
    by (auto simp: wf_sample z transfer_db_def transfer_delta_def) (simp_all add: sample_defs)
qed

text \<open>C7: atomicity. Whatever fails (any round trip, before or after its effect), the tables
  after \<open>TransferTx\<close> are the ones before it or the whole transfer's, and the connection is out of
  the transaction.\<close>

theorem TransferTx_atomic:
  assumes "c_tx c = Autocommit" and "wf_db (c_db c)"
    and "TransferTx E arg c = ((res, err), c')"
  shows "c_tx c' = Autocommit \<and>
    (same_tables (c_db c) (c_db c') \<or>
     transfer_possible arg (c_db c) \<and> c_db c' = transfer_db (clock E (c_tick c)) arg (c_db c))"
  using TransferTx_outcome [OF assms] by auto

definition failing_env :: env where
  "failing_env = good_env\<lparr>reply := (\<lambda>n. if n = 4 then NotDone (ExtError ''connection reset'') else Delivered)\<rparr>"

theorem TransferTx_atomic_witness:
  "same_tables (sample_db 100 5) (c_db (snd (TransferTx failing_env (transfer_1_2 30) (sample_conn 100 5)))) \<or>
   c_db (snd (TransferTx failing_env (transfer_1_2 30) (sample_conn 100 5))) =
     transfer_db 0 (transfer_1_2 30) (sample_db 100 5)"
proof -
  obtain res err c' where run: "TransferTx failing_env (transfer_1_2 30) (sample_conn 100 5) = ((res, err), c')"
    by (metis surj_pair)
  have "clock failing_env (c_tick (sample_conn 100 5)) = 0"
    by (simp add: failing_env_def sample_defs)
  with TransferTx_atomic [OF sample_conn_simps(2) _ run] run wf_sample show ?thesis by auto
qed

text \<open>C8: a nil error means the transfer is in the tables, provided the driver reports the
  commit of a failed transaction as an error (as lib/pq documents): \<open>TransferTx\<close> drops the error
  of \<open>addMoney\<close> and relies on the commit to fail.\<close>

theorem TransferTx_nil_error_applied:
  assumes "c_tx c = Autocommit" and "wf_db (c_db c)" and "reports_failed_commit E"
    and "TransferTx E arg c = ((res, None), c')"
  shows "transfer_possible arg (c_db c) \<and> res = transfer_result (clock E (c_tick c)) arg (c_db c) \<and>
    c_db c' = transfer_db (clock E (c_tick c)) arg (c_db c)"
  using TransferTx_outcome [OF assms(1,2,4)] assms(3) by auto

theorem TransferTx_nil_error_applied_witness:
  "\<exists>c'. TransferTx good_env (transfer_1_2 (-7)) (sample_conn 100 5) =
      ((transfer_result 0 (transfer_1_2 (-7)) (sample_db 100 5), None), c') \<and>
    c_db c' = transfer_db 0 (transfer_1_2 (-7)) (sample_db 100 5)"
proof -
  have p: "transfer_possible (transfer_1_2 (-7)) (c_db (sample_conn 100 5))"
    by (simp add: transfer_possible_def sample_defs row_of_Cons pg_add_def)
  have z: "clock good_env (c_tick (sample_conn 100 5)) = 0" by (simp add: sample_defs)
  note run = TransferTx_no_faults [OF good_env_simps(1) sample_conn_simps(2) _ p]
  show ?thesis
    using TransferTx_nil_error_applied [OF sample_conn_simps(2) _ good_env_simps(2) run] run
    by (simp add: wf_sample z)
qed

text \<open>Without that behaviour of the driver the dropped error is silent: there is a run in
  which the credit overflows, nothing is transferred, and \<open>TransferTx\<close> returns a nil error with
  the id of a transfer that does not exist.\<close>

theorem TransferTx_can_fail_silently:
  "\<exists>E c arg res c'. c_tx c = Autocommit \<and> wf_db (c_db c) \<and> no_faults E \<and>
     TransferTx E arg c = ((res, None), c') \<and> same_tables (c_db c) (c_db c') \<and>
     tr_ID (ttr_Transfer res) = 1 \<and> transfers (c_db c') = []"
proof -
  let ?E = "good_env\<lparr>failed_commit := (\<lambda>_. None)\<rparr>"
  let ?c = "sample_conn 100 (word_of_int max_int64)"
  let ?run = "TransferTx ?E (transfer_1_2 30) ?c"
  have "snd (fst ?run) = None" and "same_tables (c_db ?c) (c_db (snd ?run))"
    and "tr_ID (ttr_Transfer (fst (fst ?run))) = 1" and "transfers (c_db (snd ?run)) = []"
    by code_simp+
  then show ?thesis
    using wf_sample good_env_simps(1) sample_conn_simps no_faults_update
    by (metis prod.collapse)
qed

text \<open>No run of \<open>TransferTx\<close>, successful or not, changes the sum of all balances (for an
  amount that \<open>int64\<close> can negate; the HTTP API only passes positive ones).\<close>

theorem TransferTx_conserves_money:
  assumes "c_tx c = Autocommit" and "wf_db (c_db c)"
    and "sint (ttp_Amount arg) \<noteq> min_int64"
    and "TransferTx E arg c = ((res, err), c')"
  shows "total_balance (c_db c') = total_balance (c_db c)"
  using TransferTx_outcome [OF assms(1,2,4)] transfer_total [OF assms(2), of arg] sint64_neg [OF assms(3)]
  by (auto simp: same_tables_total)

theorem TransferTx_conserves_money_witness:
  "total_balance (c_db (snd (TransferTx failing_env (transfer_1_2 30) (sample_conn 100 5)))) = 105"
proof -
  obtain res err c' where run: "TransferTx failing_env (transfer_1_2 30) (sample_conn 100 5) = ((res, err), c')"
    by (metis surj_pair)
  have amt: "sint (ttp_Amount (transfer_1_2 30)) \<noteq> min_int64" by (simp add: transfer_1_2_def)
  have "total_balance (sample_db 100 5) = 105" by (simp add: total_balance_def sample_defs)
  with TransferTx_conserves_money [OF sample_conn_simps(2) _ amt run] run wf_sample show ?thesis by simp
qed

text \<open>C39: the amount \<open>-2^63\<close>, which Go's negation maps to itself, is accepted by the store and
  debits both accounts: \<open>2^64\<close> units disappear.\<close>

theorem TransferTx_min_amount_destroys_money:
  assumes "no_faults E" and "c_tx c = Autocommit" and "wf_db (c_db c)"
    and "sint (ttp_Amount arg) = min_int64" and "transfer_possible arg (c_db c)"
  shows "\<exists>res c'. TransferTx E arg c = ((res, None), c') \<and>
    total_balance (c_db c') = total_balance (c_db c) - 2 ^ 64"
proof -
  have "ttp_Amount arg = word_of_int min_int64"
    using assms(4) by (metis scast_eq scast_id)
  then have "sint (- ttp_Amount arg) = min_int64" by simp
  with transfer_total [OF assms(3,5)] assms(4) show ?thesis
    unfolding TransferTx_no_faults [OF assms(1-3,5)] by simp
qed

theorem TransferTx_min_amount_witness:
  "\<exists>res c'. TransferTx good_env (transfer_1_2 (word_of_int min_int64)) (sample_conn 100 5) = ((res, None), c') \<and>
     total_balance (c_db c') = total_balance (sample_db 100 5) - 2 ^ 64"
proof -
  have "transfer_possible (transfer_1_2 (word_of_int min_int64)) (c_db (sample_conn 100 5))"
    by (simp add: transfer_possible_def sample_defs row_of_Cons pg_add_def)
  from TransferTx_min_amount_destroys_money [OF good_env_simps(1) sample_conn_simps(2) _ _ this]
  show ?thesis by (simp add: wf_sample transfer_1_2_def)
qed

end
