(* ===== verification/User_Tx.thy ===== *)
theory User_Tx
  imports Transfer_Props
begin

text \<open>
  \<open>CreateUserTx\<close>: the user row and the caller's hook (sending the verification task) succeed or
  fail together, as far as one transaction can tie a database to a queue.
\<close>

definition user_row :: "instant \<Rightarrow> CreateUserParams \<Rightarrow> User" where
  "user_row now arg = \<lparr>usr_Username = cup_Username arg, usr_HashedPassword = cup_HashedPassword arg,
     usr_FullName = cup_FullName arg, usr_PasswordChangedAt = zero_time, usr_Email = cup_Email arg,
     usr_CreatedAt = now\<rparr>"

definition user_possible :: "CreateUserParams \<Rightarrow> database \<Rightarrow> bool" where
  "user_possible arg d \<longleftrightarrow> \<not> has_key usr_Username (cup_Username arg) (users d) \<and>
     \<not> has_key usr_Email (cup_Email arg) (users d)"

lemma sql_create_user_possible:
  "sql_create_user arg now d =
     (if user_possible arg d then (Inr [user_row now arg], d\<lparr>users := users d @ [user_row now arg]\<rparr>)
      else (Inl (if has_key usr_Username (cup_Username arg) (users d) then unique_violation ''users_pkey''
                 else unique_violation ''users_email_key''), d))"
  by (simp add: sql_create_user_def user_possible_def user_row_def Let_def)

lemma createUserTx_closure_in_tx:
  assumes "c_tx c = InTx now" and "createUserTx_closure E arg hook (u0, w) c = ((err, u, w'), c')"
  shows "(\<exists>e. err = Some e \<and> u = zero_user \<and> w' = w) \<or>
    user_possible arg (c_db c) \<and> u = user_row now arg \<and> hook u w = (err, w') \<and> c_tx c' = c_tx c \<and>
    c_db c' = (c_db c)\<lparr>users := users (c_db c) @ [u]\<rparr>"
proof -
  obtain r c1 where create: "query_row E (sql_create_user arg) c = (r, c1)" by fastforce
  have "(case r of Inl err \<Rightarrow> ((Some err, zero_user, w), c1)
      | Inr u \<Rightarrow> (case hook u w of (err, w') \<Rightarrow> ((err, u, w'), c1))) = ((err, u, w'), c')"
    using assms(2) create by (simp add: createUserTx_closure_def CreateUser_def cong: sum.case_cong)
  with assms(1) create show ?thesis
    by (cases rule: query_row_tx) (auto simp: sql_create_user_possible split: if_splits prod.splits)
qed

lemma CreateUserTx_outcome:
  assumes "c_tx c = Autocommit" and "reports_failed_commit E"
    and "CreateUserTx E arg hook w c = (((u, err), w'), c')"
  shows "same_tables (c_db c) (c_db c') \<and> err \<noteq> None \<or>
    user_possible arg (c_db c) \<and> u = user_row (clock E (c_tick c)) arg \<and> hook u w = (None, w') \<and>
    c_db c' = (c_db c)\<lparr>users := users (c_db c) @ [u]\<rparr>"
proof -
  have "execTX E (createUserTx_closure E arg hook) (zero_user, w) c = ((err, u, w'), c')"
    using assms(3) by (auto simp: CreateUserTx_def split: prod.splits)
  then show ?thesis
    using assms(1)
  proof (cases rule: execTX_cases)
    case (committed c2)
    have "c_tx (begin_tx E c) = InTx (clock E (c_tick c))" "c_db (begin_tx E c) = c_db c"
      by (simp_all add: begin_tx_def)
    with createUserTx_closure_in_tx [OF _ committed(1)] committed(3) show ?thesis by auto
  qed (use assms(2) in simp)
qed

text \<open>
  C20: whatever fails, the tables stay as they were or gain exactly the new user, and then the hook
  ran on that user and returned nil; a nil error is returned in the second case only.
\<close>

theorem CreateUserTx_all_or_nothing:
  assumes "c_tx c = Autocommit" and "reports_failed_commit E"
    and "CreateUserTx E arg hook w c = (((u, err), w'), c')"
  shows "same_tables (c_db c) (c_db c') \<and> err \<noteq> None \<or>
    user_possible arg (c_db c) \<and> u = user_row (clock E (c_tick c)) arg \<and> hook u w = (None, w') \<and>
    c_db c' = (c_db c)\<lparr>users := users (c_db c) @ [u]\<rparr>"
  by (rule CreateUserTx_outcome [OF assms])

definition sample_params :: "string \<Rightarrow> string \<Rightarrow> CreateUserParams" where
  "sample_params n m = \<lparr>cup_Username = n, cup_HashedPassword = ''$2a$secret'', cup_FullName = n, cup_Email = m\<rparr>"

theorem CreateUserTx_all_or_nothing_witness:
  "\<exists>u err w' c'. CreateUserTx good_env (sample_params ''carl'' ''carl@x.org'') (\<lambda>u w. (Some (ExtError ''redis''), Suc w)) 0
      (sample_conn 100 5) = (((u, err), w'), c') \<and> same_tables (sample_db 100 5) (c_db c') \<and> err \<noteq> None"
proof -
  obtain u err w' c' where run: "CreateUserTx good_env (sample_params ''carl'' ''carl@x.org'')
      (\<lambda>u w. (Some (ExtError ''redis''), Suc w)) 0 (sample_conn 100 5) = (((u, err), w'), c')"
    by (metis surj_pair)
  with CreateUserTx_all_or_nothing [OF sample_conn_simps(2) good_env_simps(2) run] show ?thesis by auto
qed

text \<open>Without faults the outcome is determined by the two unique keys and the hook.\<close>

lemma CreateUserTx_no_faults:
  assumes "no_faults E" and "c_tx c = Autocommit"
  shows "\<exists>c'. CreateUserTx E arg hook w c =
    (if user_possible arg (c_db c)
     then (case hook (user_row (clock E (c_tick c)) arg) w of (err, w') \<Rightarrow> (((user_row (clock E (c_tick c)) arg, err), w'), c'))
     else (((zero_user, Some (if has_key usr_Username (cup_Username arg) (users (c_db c))
                              then unique_violation ''users_pkey'' else unique_violation ''users_email_key'')), w), c')) \<and>
    (\<not> user_possible arg (c_db c) \<longrightarrow> same_tables (c_db c) (c_db c'))"
proof -
  have tx: "c_tx (begin_tx E c) = InTx (clock E (c_tick c))" "c_db (begin_tx E c) = c_db c"
    by (simp_all add: begin_tx_def)
  have "reply E n = Delivered" for n using assms(1) by (simp add: no_faults_def)
  moreover obtain err w' where "hook (user_row (clock E (c_tick c)) arg) w = (err, w')" by fastforce
  ultimately show ?thesis
    using tx
    by (simp add: CreateUserTx_def execTX_def createUserTx_closure_def CreateUser_def query_row_def run_stmt_def
        Let_def sql_create_user_possible rolled_back_def split: prod.splits option.splits)
qed

end
