(* ===== verification/Go_Strings.thy ===== *)
theory Go_Strings
  imports Prelude
begin

text \<open>
  What the code uses of Go's string library, on byte strings: \<open>strings.Fields\<close>,
  \<open>strings.ToLower\<close> and the rune count by which the validator measures strings. A rune is
  decoded as \<open>utf8.DecodeRune\<close> does: an invalid byte is one rune.
\<close>

definition byte :: "char \<Rightarrow> nat" where
  "byte c = of_char c"

subsection \<open>White space and strings.Fields\<close>

text \<open>
  The number of bytes of the white space rune (\<open>unicode.IsSpace\<close>) a string starts with, 0 if it
  starts with none. The lead bytes below never occur inside another rune, so a scan byte by byte
  finds the same separators as a scan rune by rune.
\<close>

definition space_len3 :: "nat \<Rightarrow> nat \<Rightarrow> nat \<Rightarrow> bool" where
  "space_len3 a b c \<longleftrightarrow>
     a = 0xE1 \<and> b = 0x9A \<and> c = 0x80 \<or>
     a = 0xE2 \<and> b = 0x80 \<and> (0x80 \<le> c \<and> c \<le> 0x8A \<or> c = 0xA8 \<or> c = 0xA9 \<or> c = 0xAF) \<or>
     a = 0xE2 \<and> b = 0x81 \<and> c = 0x9F \<or>
     a = 0xE3 \<and> b = 0x80 \<and> c = 0x80"

definition ascii_space :: "nat \<Rightarrow> bool" where
  "ascii_space a \<longleftrightarrow> 9 \<le> a \<and> a \<le> 13 \<or> a = 32"

fun space_rune :: "string \<Rightarrow> nat" where
  "space_rune [] = 0"
| "space_rune (x # xs) =
     (if ascii_space (byte x) then 1
      else case xs of
        [] \<Rightarrow> 0
      | y # ys \<Rightarrow>
          if byte x = 0xC2 \<and> (byte y = 0x85 \<or> byte y = 0xA0) then 2
          else case ys of [] \<Rightarrow> 0 | z # _ \<Rightarrow> if space_len3 (byte x) (byte y) (byte z) then 3 else 0)"

text \<open>\<open>word\<close> is the field read so far.\<close>

fun fields_from :: "string \<Rightarrow> string \<Rightarrow> string list" where
  "fields_from word [] = (if word = [] then [] else [word])"
| "fields_from word (x # xs) =
     (let k = space_rune (x # xs)
      in if k = 0 then fields_from (word @ [x]) xs
         else (if word = [] then [] else [word]) @ fields_from [] (drop (k - 1) xs))"

definition Fields :: "string \<Rightarrow> string list" where
  "Fields s = fields_from [] s"

text \<open>
  \<open>strings.ToLower\<close> on ASCII; other runes are left alone. No rune outside ASCII has a lower case
  form made of the letters of \<open>bearer\<close>, the one word the code compares the result with.
\<close>

definition lower_char :: "char \<Rightarrow> char" where
  "lower_char c = (if 65 \<le> byte c \<and> byte c \<le> 90 then char_of (byte c + 32) else c)"

definition to_lower :: "string \<Rightarrow> string" where
  "to_lower s = map lower_char s"

text \<open>Visible ASCII characters: all that bearer schemes and tokens consist of.\<close>

definition graphic :: "char \<Rightarrow> bool" where
  "graphic c \<longleftrightarrow> 33 \<le> byte c \<and> byte c \<le> 126"

lemma space_rune_graphic: "graphic x \<Longrightarrow> space_rune (x # xs) = 0"
  by (auto simp: graphic_def ascii_space_def space_len3_def split: list.splits)

lemma fields_from_graphic:
  "list_all graphic w \<Longrightarrow> fields_from word (w @ s) = fields_from (word @ w) s"
proof (induction w arbitrary: word)
  case (Cons x w)
  then show ?case by (simp add: space_rune_graphic del: space_rune.simps)
qed simp

lemma fields_from_blank: "fields_from word (CHR '' '' # s) = (if word = [] then [] else [word]) @ fields_from [] s"
  by (simp add: ascii_space_def byte_def)

lemma fields_two:
  assumes "list_all graphic a" "a \<noteq> []" "list_all graphic b" "b \<noteq> []"
  shows "Fields (a @ '' '' @ b) = [a, b]"
proof -
  have "Fields (a @ '' '' @ b) = a # fields_from [] (b @ [])"
    using assms(1,2) by (simp add: Fields_def fields_from_graphic fields_from_blank del: fields_from.simps)
  then show ?thesis using assms(3,4) fields_from_graphic [OF assms(3), of "[]" "[]"] by simp
qed

lemma fields_from_nonempty: "w \<in> set (fields_from word s) \<Longrightarrow> w \<noteq> []"
  by (induction word s rule: fields_from.induct) (auto simp: Let_def split: if_splits)

subsection \<open>Counting runes\<close>

definition cont_byte :: "nat \<Rightarrow> bool" where
  "cont_byte b \<longleftrightarrow> 0x80 \<le> b \<and> b \<le> 0xBF"

definition second_ok :: "nat \<Rightarrow> nat \<Rightarrow> bool" where
  "second_ok a b \<longleftrightarrow>
     (if a = 0xE0 then 0xA0 \<le> b \<and> b \<le> 0xBF
      else if a = 0xED then 0x80 \<le> b \<and> b \<le> 0x9F
      else if a = 0xF0 then 0x90 \<le> b \<and> b \<le> 0xBF
      else if a = 0xF4 then 0x80 \<le> b \<and> b \<le> 0x8F
      else cont_byte b)"

text \<open>The bytes of the rune a nonempty string starts with, less its first.\<close>

definition rune_rest :: "nat list \<Rightarrow> nat" where
  "rune_rest bs = (case bs of
     a # b # c # d # _ \<Rightarrow>
       (if 0xC2 \<le> a \<and> a \<le> 0xDF \<and> cont_byte b then 1
        else if 0xE0 \<le> a \<and> a \<le> 0xEF \<and> second_ok a b \<and> cont_byte c then 2
        else if 0xF0 \<le> a \<and> a \<le> 0xF4 \<and> second_ok a b \<and> cont_byte c \<and> cont_byte d then 3 else 0)
   | [a, b, c] \<Rightarrow>
       (if 0xC2 \<le> a \<and> a \<le> 0xDF \<and> cont_byte b then 1
        else if 0xE0 \<le> a \<and> a \<le> 0xEF \<and> second_ok a b \<and> cont_byte c then 2 else 0)
   | [a, b] \<Rightarrow> (if 0xC2 \<le> a \<and> a \<le> 0xDF \<and> cont_byte b then 1 else 0)
   | _ \<Rightarrow> 0)"

fun count_runes :: "nat list \<Rightarrow> nat" where
  "count_runes [] = 0"
| "count_runes (b # bs) = Suc (count_runes (drop (rune_rest (b # bs)) bs))"

definition rune_count :: "string \<Rightarrow> nat" where
  "rune_count s = count_runes (map byte s)"

lemma count_runes_le: "count_runes bs \<le> length bs"
proof (induction bs rule: count_runes.induct)
  case (2 b bs)
  then have "count_runes (drop (rune_rest (b # bs)) bs) \<le> length bs"
    using le_trans diff_le_self by fastforce
  then show ?case by simp
qed simp

lemma rune_count_le_bytes: "rune_count s \<le> length s"
  using count_runes_le [of "map byte s"] by (simp add: rune_count_def)

subsection \<open>Character classes\<close>

definition is_digit :: "char \<Rightarrow> bool" where
  "is_digit c \<longleftrightarrow> 48 \<le> byte c \<and> byte c \<le> 57"

definition is_lower :: "char \<Rightarrow> bool" where
  "is_lower c \<longleftrightarrow> 97 \<le> byte c \<and> byte c \<le> 122"

definition is_upper :: "char \<Rightarrow> bool" where
  "is_upper c \<longleftrightarrow> 65 \<le> byte c \<and> byte c \<le> 90"

end
