(* ===== verification/Worker.thy ===== *)
theory Worker
  imports User_Tx Go_Strings
begin

text \<open>
  Package worker: the task queue between the gRPC server and the task processor. asynq and redis
  are parameters (a round trip of \<open>EnqueueContext\<close> may fail, or be done with its acknowledgement
  lost), as is encoding/json for the one struct that is sent. The interface \<open>TaskDistributor\<close> is
  the locale \<open>task_distributor\<close>, which \<open>RedisTaskDistributor\<close> interprets.
\<close>

subsection \<open>Tasks\<close>

definition TaskSendVerifyEmail :: string where
  "TaskSendVerifyEmail = ''task:send_verify_email''"

record PayloadSendVerifyEmail =
  pve_Username :: string

datatype task_option = MaxRetry nat | ProcessIn duration | Queue string

record task =
  tk_Type :: string
  tk_Payload :: string
  tk_Opts :: "task_option list"

text \<open>
  What redis holds: the tasks not yet tried, those to be tried again with the number of failures behind
  them, those given up with their number of failures, and those completed (asynq drops them; the list is
  their history). The distributor adds to the first; the rest is the worker's (Work_Queue).
\<close>

record redis =
  rd_tasks :: "task list"
  rd_retry :: "(task \<times> nat) list"
  rd_archived :: "(task \<times> nat) list"
  rd_completed :: "task list"
  rd_tick :: nat

record asynq_lib =
  json_Marshal :: "PayloadSendVerifyEmail \<Rightarrow> string result"
  json_Unmarshal :: "string \<Rightarrow> PayloadSendVerifyEmail result"
  enqueue_reply :: "nat \<Rightarrow> outcome"

text \<open>JSON encodes a struct with a string of visible ASCII faithfully (other bytes may be replaced).\<close>

definition json_ok :: "asynq_lib \<Rightarrow> bool" where
  "json_ok A \<longleftrightarrow> (\<forall>p s. list_all graphic (pve_Username p) \<longrightarrow> json_Marshal A p = Inr s \<longrightarrow>
     json_Unmarshal A s = Inr p)"

definition EnqueueContext :: "asynq_lib \<Rightarrow> task \<Rightarrow> redis \<Rightarrow> go_error option \<times> redis" where
  "EnqueueContext A t r =
     (let r1 = r\<lparr>rd_tick := Suc (rd_tick r)\<rparr>
      in case enqueue_reply A (rd_tick r) of
           Delivered \<Rightarrow> (None, r1\<lparr>rd_tasks := rd_tasks r @ [t]\<rparr>)
         | NotDone e \<Rightarrow> (Some e, r1)
         | AckLost e \<Rightarrow> (Some e, r1\<lparr>rd_tasks := rd_tasks r @ [t]\<rparr>))"

subsection \<open>The distributor (distributor.go, task_send_verify_email.go)\<close>

type_synonym 'w TaskDistributor = "PayloadSendVerifyEmail \<Rightarrow> task_option list \<Rightarrow> 'w \<Rightarrow> go_error option \<times> 'w"

definition DistributeTaskSendVerifyEmail :: "asynq_lib \<Rightarrow> redis TaskDistributor" where
  "DistributeTaskSendVerifyEmail A payload opt r =
     (case json_Marshal A payload of
        Inl err \<Rightarrow> (Some (Wrapf ''fail to marshal task payload: %w'' [] err), r)
      | Inr jsonPayload \<Rightarrow>
     (case EnqueueContext A \<lparr>tk_Type = TaskSendVerifyEmail, tk_Payload = jsonPayload, tk_Opts = opt\<rparr> r of
        (Some err, r1) \<Rightarrow> (Some (Wrapf ''fail to enqueue task: %w'' [] err), r1)
      | (None, r1) \<Rightarrow> (None, r1)))"

text \<open>\<open>NewRedisTaskDistributor\<close> returns the interface: its one method, over the client just made.\<close>

definition NewRedisTaskDistributor :: "asynq_lib \<Rightarrow> redis TaskDistributor" where
  "NewRedisTaskDistributor client = DistributeTaskSendVerifyEmail client"

text \<open>What a client of the interface sees of the queue: the tasks that decode to a user, with their options.\<close>

definition pending :: "asynq_lib \<Rightarrow> redis \<Rightarrow> (string \<times> task_option list) list" where
  "pending A r = concat (map (\<lambda>t.
     if tk_Type t = TaskSendVerifyEmail
     then (case json_Unmarshal A (tk_Payload t) of Inl _ \<Rightarrow> [] | Inr p \<Rightarrow> [(pve_Username p, tk_Opts t)])
     else []) (rd_tasks r))"

locale task_distributor =
  fixes distribute :: "'l \<Rightarrow> 'w TaskDistributor" and waiting :: "'l \<Rightarrow> 'w \<Rightarrow> (string \<times> task_option list) list"
    and lib_ok :: "'l \<Rightarrow> bool"
  assumes nil_enqueues: "lib_ok l \<Longrightarrow> list_all graphic (pve_Username p) \<Longrightarrow> distribute l p opts w = (None, w') \<Longrightarrow>
      waiting l w' = waiting l w @ [(pve_Username p, opts)]"
    and error_at_most_once: "lib_ok l \<Longrightarrow> list_all graphic (pve_Username p) \<Longrightarrow> distribute l p opts w = (Some e, w') \<Longrightarrow>
      waiting l w' = waiting l w \<or> waiting l w' = waiting l w @ [(pve_Username p, opts)]"
begin

lemma never_lost:
  assumes "lib_ok l" and "list_all graphic (pve_Username p)" and "distribute l p opts w = (err, w')"
  shows "set (waiting l w) \<subseteq> set (waiting l w')"
  using nil_enqueues [OF assms(1,2), of opts w w'] error_at_most_once [OF assms(1,2), of opts w _ w'] assms(3)
  by (cases err) auto

text \<open>A store transaction with the distribution as its hook: a committed user has its task waiting.\<close>

lemma committed_user_waits:
  assumes "lib_ok l" and "list_all graphic (cup_Username arg)" and "c_tx c = Autocommit" and "reports_failed_commit E"
    and run: "CreateUserTx E arg (\<lambda>u. distribute l \<lparr>pve_Username = usr_Username u\<rparr> opts) w c = (((u, err), w'), c')"
    and new: "\<not> same_tables (c_db c) (c_db c')"
  shows "waiting l w' = waiting l w @ [(cup_Username arg, opts)]"
proof -
  have "distribute l \<lparr>pve_Username = cup_Username arg\<rparr> opts w = (None, w')"
    using CreateUserTx_outcome [OF assms(3,4) run] new by (auto simp: user_row_def)
  from nil_enqueues [OF assms(1) _ this] assms(2) show ?thesis by simp
qed

end

interpretation redis: task_distributor DistributeTaskSendVerifyEmail pending json_ok
proof
  fix A opts r r' e and p :: PayloadSendVerifyEmail
  assume ok: "json_ok A" "list_all graphic (pve_Username p)"
  show "pending A r' = pending A r @ [(pve_Username p, opts)]"
    if "DistributeTaskSendVerifyEmail A p opts r = (None, r')"
    using that ok unfolding json_ok_def
    by (auto simp: DistributeTaskSendVerifyEmail_def EnqueueContext_def Let_def pending_def
        split: sum.splits outcome.splits prod.splits option.splits)
  show "pending A r' = pending A r \<or> pending A r' = pending A r @ [(pve_Username p, opts)]"
    if "DistributeTaskSendVerifyEmail A p opts r = (Some e, r')"
    using that ok unfolding json_ok_def
    by (auto simp: DistributeTaskSendVerifyEmail_def EnqueueContext_def Let_def pending_def
        split: sum.splits outcome.splits prod.splits option.splits)
qed

subsection \<open>The processor (processor.go, task_send_verify_email.go)\<close>

definition ProcessTaskSendVerifyEmail :: "asynq_lib \<Rightarrow> env \<Rightarrow> task \<Rightarrow> conn \<Rightarrow> go_error option \<times> conn" where
  "ProcessTaskSendVerifyEmail A E task c =
     (case json_Unmarshal A (tk_Payload task) of
        Inl err \<Rightarrow> (Some (Wrapf ''json.Unmarshal failed: %v: %w'' [FErr err] ErrSkipRetry), c)
      | Inr payload \<Rightarrow>
     (case GetUser E (pve_Username payload) c of
        (Inl err, c1) \<Rightarrow> (Some (Wrapf ''failed to get user: %w'' [] err), c1)
      | (Inr user, c1) \<Rightarrow> (None, c1)))"

text \<open>\<open>Start\<close> registers one handler; asynq retries a task unless its error is \<open>SkipRetry\<close>.\<close>

definition processor_mux :: "asynq_lib \<Rightarrow> env \<Rightarrow> (string \<times> (task \<Rightarrow> conn \<Rightarrow> go_error option \<times> conn)) list" where
  "processor_mux A E = [(TaskSendVerifyEmail, ProcessTaskSendVerifyEmail A E)]"

definition retried :: "go_error option \<Rightarrow> bool" where
  "retried err \<longleftrightarrow> (case err of None \<Rightarrow> False | Some e \<Rightarrow> \<not> errors_is e ErrSkipRetry)"

text \<open>
  Processing a task reads the database only. Without faults it succeeds if the user of the
  payload exists; a task for a user that does not exist (its transaction was rolled back after the
  task was queued) fails with an error that asynq retries; a malformed payload is never retried.
\<close>

theorem process_task_outcome:
  assumes "no_faults E" and "c_tx c = Autocommit" and "tk_Type task = TaskSendVerifyEmail"
  shows "\<exists>handler err c'. map_of (processor_mux A E) (tk_Type task) = Some handler \<and> handler task c = (err, c') \<and>
    c_db c' = c_db c \<and>
    (case json_Unmarshal A (tk_Payload task) of
       Inl _ \<Rightarrow> err \<noteq> None \<and> \<not> retried err
     | Inr p \<Rightarrow> if has_key usr_Username (pve_Username p) (users (c_db c)) then err = None else retried err)"
  using assms(3)
  by (auto simp: row_of_None_iff processor_mux_def ProcessTaskSendVerifyEmail_def reads_no_faults [OF assms(1,2)] retried_def
      found_def split: sum.splits option.splits dest: row_of_Some_has_key)

definition sample_asynq :: asynq_lib where
  "sample_asynq = \<lparr>json_Marshal = (\<lambda>p. Inr (pve_Username p)), json_Unmarshal = (\<lambda>s. Inr \<lparr>pve_Username = s\<rparr>),
     enqueue_reply = (\<lambda>_. Delivered)\<rparr>"

lemma sample_json_ok: "json_ok sample_asynq"
  by (auto simp: json_ok_def sample_asynq_def)

theorem process_task_witness:
  "\<exists>err c'. ProcessTaskSendVerifyEmail sample_asynq good_env
      \<lparr>tk_Type = TaskSendVerifyEmail, tk_Payload = ''ghost'', tk_Opts = []\<rparr> (sample_conn 100 5) = (err, c') \<and> retried err"
  using process_task_outcome [OF good_env_simps(1) sample_conn_simps(2) [of 100 5],
      of "\<lparr>tk_Type = TaskSendVerifyEmail, tk_Payload = ''ghost'', tk_Opts = []\<rparr>" sample_asynq]
  by (auto simp: processor_mux_def sample_asynq_def sample_db_def sample_user_def has_key_def)

end
