(* ===== verification/Util.thy ===== *)
theory Util
  imports Go_Strings
begin

text \<open>
  Package util: supported currencies, password hashing (bcrypt is a parameter), the random test
  data and the configuration; and package val: the field validators of the gRPC requests
  (\<open>net/mail.ParseAddress\<close> is a parameter).
\<close>

subsection \<open>Currencies (currency.go)\<close>

definition USD :: string where "USD = ''USD''"
definition EUR :: string where "EUR = ''EUR''"
definition CAD :: string where "CAD = ''CAD''"

definition IsSupportCurrency :: "string \<Rightarrow> bool" where
  "IsSupportCurrency currency \<longleftrightarrow> currency = USD \<or> currency = CAD \<or> currency = EUR"

subsection \<open>Passwords (password.go)\<close>

text \<open>
  bcrypt: \<open>GenerateFromPassword\<close> draws a salt and may fail (passwords of more than 72 bytes do);
  \<open>CompareHashAndPassword\<close> is nil when the password is the one that was hashed.
\<close>

record bcrypt_lib =
  bcrypt_generate :: "nat \<Rightarrow> string \<Rightarrow> string result"
  bcrypt_compare :: "string \<Rightarrow> string \<Rightarrow> go_error option"

definition bcrypt_ok :: "bcrypt_lib \<Rightarrow> bool" where
  "bcrypt_ok B \<longleftrightarrow> (\<forall>salt p h. bcrypt_generate B salt p = Inr h \<longrightarrow>
     bcrypt_compare B h p = None \<and> h \<noteq> '''')"

definition HashPassword :: "bcrypt_lib \<Rightarrow> nat \<Rightarrow> string \<Rightarrow> string result" where
  "HashPassword B salt password =
     (case bcrypt_generate B salt password of
        Inl err \<Rightarrow> Inl (Wrapf ''failed to hash password: %w'' [] err)
      | Inr hashedPassword \<Rightarrow> Inr hashedPassword)"

definition CheckPassword :: "bcrypt_lib \<Rightarrow> string \<Rightarrow> string \<Rightarrow> go_error option" where
  "CheckPassword B password hashPassword = bcrypt_compare B hashPassword password"

lemma check_hashed_password:
  "bcrypt_ok B \<Longrightarrow> HashPassword B salt p = Inr h \<Longrightarrow> CheckPassword B p h = None"
  by (auto simp: HashPassword_def CheckPassword_def bcrypt_ok_def split: sum.splits)

subsection \<open>Random test data (random.go)\<close>

text \<open>
  \<open>rng k\<close> is the \<open>k\<close>-th number the generator draws; \<open>Int63n\<close> and \<open>Intn\<close> reduce it modulo the
  bound, and panic (\<open>None\<close>) when the bound is not positive. A function returns the position in
  the stream after it.
\<close>

definition alphabet :: string where
  "alphabet = ''abcdefghijhlmnopqrstuvwxyz''"

definition int63n :: "nat \<Rightarrow> int64 \<Rightarrow> int64 option" where
  "int63n raw n = (if sint n \<le> 0 then None else Some (word_of_int (int raw mod sint n)))"

definition RandomInt :: "(nat \<Rightarrow> nat) \<Rightarrow> nat \<Rightarrow> int64 \<Rightarrow> int64 \<Rightarrow> int64 option \<times> nat" where
  "RandomInt rng k mn mx =
     (case int63n (rng k) (mx - mn + 1) of
        None \<Rightarrow> (None, k)
      | Some v \<Rightarrow> (Some (mn + v), Suc k))"

fun random_string_loop :: "(nat \<Rightarrow> nat) \<Rightarrow> nat \<Rightarrow> nat \<Rightarrow> string \<Rightarrow> string \<times> nat" where
  "random_string_loop rng k 0 sb = (sb, k)"
| "random_string_loop rng k (Suc n) sb =
     random_string_loop rng (Suc k) n (sb @ [alphabet ! (rng k mod length alphabet)])"

definition RandomString :: "(nat \<Rightarrow> nat) \<Rightarrow> nat \<Rightarrow> int \<Rightarrow> string \<times> nat" where
  "RandomString rng k n = random_string_loop rng k (nat n) ''''"

definition RandomOwner :: "(nat \<Rightarrow> nat) \<Rightarrow> nat \<Rightarrow> string \<times> nat" where
  "RandomOwner rng k = RandomString rng k 6"

definition RandomMoney :: "(nat \<Rightarrow> nat) \<Rightarrow> nat \<Rightarrow> int64 option \<times> nat" where
  "RandomMoney rng k = RandomInt rng k 0 100000"

definition RandomCurrency :: "(nat \<Rightarrow> nat) \<Rightarrow> nat \<Rightarrow> string \<times> nat" where
  "RandomCurrency rng k =
     (let currencies = [USD, CAD, EUR] in (currencies ! (rng k mod length currencies), Suc k))"

definition RandomEmail :: "(nat \<Rightarrow> nat) \<Rightarrow> nat \<Rightarrow> string \<times> nat" where
  "RandomEmail rng k = (case RandomString rng k 6 of (s, k') \<Rightarrow> (s @ ''@email.com'', k'))"

lemma random_string_loop_spec:
  "random_string_loop rng k n sb = (s, k') \<Longrightarrow>
   k' = k + n \<and> (\<exists>t. s = sb @ t \<and> length t = n \<and> set t \<subseteq> set alphabet)"
proof (induction rng k n sb rule: random_string_loop.induct)
  case (2 rng k n sb)
  then obtain t where t: "k' = Suc k + n" "s = (sb @ [alphabet ! (rng k mod length alphabet)]) @ t"
    "length t = n" "set t \<subseteq> set alphabet" by auto
  have "alphabet ! (rng k mod length alphabet) \<in> set alphabet"
    by (intro nth_mem mod_less_divisor) (simp add: alphabet_def)
  with t show ?case by (auto intro!: exI [of _ "alphabet ! (rng k mod length alphabet) # t"])
qed simp

subsection \<open>Configuration (config.go)\<close>

text \<open>\<open>LoadConfig\<close> returns what viper reads and unmarshals: either step may fail.\<close>

record Config =
  DBDriver :: string
  DBSource :: string
  HTTPServerAddress :: string
  GRPCServerAddress :: string
  TokenSymmetricKey :: string
  AccessTokenDuration :: duration
  RefreshTokenDuration :: duration
  Environment :: string
  RedisAddress :: string

definition zero_config :: Config where
  "zero_config = \<lparr>DBDriver = '''', DBSource = '''', HTTPServerAddress = '''', GRPCServerAddress = '''',
     TokenSymmetricKey = '''', AccessTokenDuration = 0, RefreshTokenDuration = 0, Environment = '''',
     RedisAddress = ''''\<rparr>"

record viper_lib =
  viper_ReadInConfig :: "string \<Rightarrow> go_error option"
  viper_Unmarshal :: "string \<Rightarrow> Config \<times> go_error option"

definition LoadConfig :: "viper_lib \<Rightarrow> string \<Rightarrow> Config \<times> go_error option" where
  "LoadConfig V path =
     (case viper_ReadInConfig V path of
        Some err \<Rightarrow> (zero_config, Some err)
      | None \<Rightarrow> viper_Unmarshal V path)"

subsection \<open>Validators (val/validator.go)\<close>

definition username_char :: "char \<Rightarrow> bool" where
  "username_char c \<longleftrightarrow> is_lower c \<or> is_digit c \<or> c = CHR ''_''"

text \<open>\<open>^[a-z0-9_]+$\<close> and \<open>^[a-zA-Z\s]+$\<close>; \<open>\s\<close> is tab, newline, form feed, return or blank.\<close>

definition isValidUsername :: "string \<Rightarrow> bool" where
  "isValidUsername s \<longleftrightarrow> s \<noteq> [] \<and> list_all username_char s"

definition full_name_char :: "char \<Rightarrow> bool" where
  "full_name_char c \<longleftrightarrow> is_lower c \<or> is_upper c \<or> byte c \<in> {9, 10, 12, 13, 32}"

definition isValidFullName :: "string \<Rightarrow> bool" where
  "isValidFullName s \<longleftrightarrow> s \<noteq> [] \<and> list_all full_name_char s"

definition ValidateString :: "string \<Rightarrow> nat \<Rightarrow> nat \<Rightarrow> go_error option" where
  "ValidateString value minLength maxLength =
     (let n = length value
      in if n < minLength \<or> n > maxLength
         then Some (Errorf ''must contain %d-%d charaters'' [FInt (int minLength), FInt (int maxLength)])
         else None)"

definition ValidateUsername :: "string \<Rightarrow> go_error option" where
  "ValidateUsername value =
     (case ValidateString value 3 100 of
        Some err \<Rightarrow> Some err
      | None \<Rightarrow>
          if \<not> isValidUsername value
          then Some (Errorf ''must contain only lowercase letters, numbers and underscores'' [])
          else None)"

definition ValidatePassword :: "string \<Rightarrow> go_error option" where
  "ValidatePassword value = ValidateString value 6 100"

definition ValidateEmail :: "(string \<Rightarrow> bool) \<Rightarrow> string \<Rightarrow> go_error option" where
  "ValidateEmail parse_address value =
     (case ValidateString value 5 100 of
        Some err \<Rightarrow> Some err
      | None \<Rightarrow>
          if \<not> parse_address value then Some (Errorf ''must be a valid email address'' []) else None)"

definition ValidateFullName :: "string \<Rightarrow> go_error option" where
  "ValidateFullName value =
     (case ValidateString value 3 100 of
        Some err \<Rightarrow> Some err
      | None \<Rightarrow>
          if \<not> isValidFullName value
          then Some (Errorf ''must contain only letters and spaces'' [])
          else None)"

lemma ValidateString_ok: "ValidateString s mn mx = None \<longleftrightarrow> mn \<le> length s \<and> length s \<le> mx"
  by (auto simp: ValidateString_def Let_def)

lemma ValidateUsername_ok:
  "ValidateUsername s = None \<longleftrightarrow> 3 \<le> length s \<and> length s \<le> 100 \<and> list_all username_char s"
  using ValidateString_ok [of s 3 100]
  by (cases s) (auto simp: ValidateUsername_def isValidUsername_def split: option.splits)

lemma ValidateFullName_ok:
  "ValidateFullName s = None \<longleftrightarrow> 3 \<le> length s \<and> length s \<le> 100 \<and> list_all full_name_char s"
  using ValidateString_ok [of s 3 100]
  by (cases s) (auto simp: ValidateFullName_def isValidFullName_def split: option.splits)

lemma ValidatePassword_ok: "ValidatePassword s = None \<longleftrightarrow> 6 \<le> length s \<and> length s \<le> 100"
  by (simp add: ValidatePassword_def ValidateString_ok)

lemma ValidateEmail_ok:
  "ValidateEmail pa s = None \<longleftrightarrow> 5 \<le> length s \<and> length s \<le> 100 \<and> pa s"
  using ValidateString_ok [of s 5 100]
  by (auto simp: ValidateEmail_def split: option.splits)

text \<open>A valid username is made of visible ASCII characters: it can be a field of a header.\<close>

lemma valid_username_graphic: "ValidateUsername s = None \<Longrightarrow> list_all graphic s"
  by (auto simp: ValidateUsername_ok list_all_iff username_char_def graphic_def is_lower_def is_digit_def byte_def
      dest!: bspec)

end
