(* ===== verification/Bank_Inv.thy ===== *)
theory Bank_Inv
  imports Transfer_Props Util
begin

text \<open>
  The invariant the servers maintain on top of referential integrity. No table declares it: it
  holds because accounts are only opened empty and balances only change in \<open>TransferTx\<close>. It says
  that the ledger balances account by account and in total, that every entry belongs to a
  transfer (double entry), that transfers are positive and within one currency, and that every
  account's currency is supported.
\<close>

definition entry_pair :: "Transfer \<Rightarrow> (int64 \<times> int64) list" where
  "entry_pair t = [(tr_FromAccountID t, - tr_Amount t), (tr_ToAccountID t, tr_Amount t)]"

definition double_entry :: "database \<Rightarrow> bool" where
  "double_entry d \<longleftrightarrow>
     map (\<lambda>e. (ent_AccountID e, ent_Amount e)) (entries d) = concat (map entry_pair (transfers d))"

definition currency_of :: "int64 \<Rightarrow> database \<Rightarrow> string option" where
  "currency_of i d = map_option acc_Currency (row_of acc_ID i (accounts d))"

definition same_currency :: "int64 \<Rightarrow> int64 \<Rightarrow> database \<Rightarrow> bool" where
  "same_currency i j d \<longleftrightarrow>
     (case currency_of i d of None \<Rightarrow> False | Some cur \<Rightarrow> currency_of j d = Some cur)"

definition transfers_ok :: "database \<Rightarrow> bool" where
  "transfers_ok d \<longleftrightarrow>
     (\<forall>t \<in> set (transfers d). 0 < sint (tr_Amount t) \<and>
        same_currency (tr_FromAccountID t) (tr_ToAccountID t) d)"

definition currencies_ok :: "database \<Rightarrow> bool" where
  "currencies_ok d \<longleftrightarrow> (\<forall>a \<in> set (accounts d). IsSupportCurrency (acc_Currency a))"

definition bank_inv :: "database \<Rightarrow> bool" where
  "bank_inv d \<longleftrightarrow> wf_db d \<and> ledger_ok d \<and> total_balance d = 0 \<and> double_entry d \<and>
     transfers_ok d \<and> currencies_ok d"

lemma bank_invD:
  assumes "bank_inv d"
  shows "wf_db d" "ledger_ok d" "total_balance d = 0" "double_entry d" "transfers_ok d" "currencies_ok d"
  using assms by (auto simp: bank_inv_def)

lemma bank_inv_empty: "bank_inv empty_db"
  by (simp add: bank_inv_def wf_empty_db ledger_empty_db)
    (simp add: total_balance_def double_entry_def transfers_ok_def currencies_ok_def empty_db_def)

text \<open>It depends on accounts, entries and transfers only, beside referential integrity.\<close>

lemma bank_inv_cong:
  assumes "bank_inv d" and "wf_db d'" and "accounts d' = accounts d" "entries d' = entries d"
    "transfers d' = transfers d"
  shows "bank_inv d'"
proof -
  have "currency_of i d' = currency_of i d" for i
    using assms(3) by (simp add: currency_of_def)
  then have "same_currency i j d' = same_currency i j d" for i j
    by (simp add: same_currency_def cong: option.case_cong)
  with assms show ?thesis
    by (simp add: bank_inv_def ledger_ok_def total_balance_def double_entry_def transfers_ok_def
        currencies_ok_def)
qed

interpretation bank: db_invariant bank_inv
proof
  fix d d'
  assume inv: "bank_inv d" and le: "seqs_le d d'"
  show "bank_inv (with_seqs d d')"
    by (rule bank_inv_cong [OF inv wf.advance [OF bank_invD(1) [OF inv] le]]) (simp_all add: with_seqs_def)
qed

subsection \<open>Statements outside transfers\<close>

lemma bank_sql_create_user: "stmt_keeps bank_inv (sql_create_user p)"
proof -
  have "bank_inv (snd (sql_create_user p now d))" if "bank_inv d" for now d
    by (rule bank_inv_cong [OF that wf_sql_create_user [OF bank_invD(1) [OF that]]])
      (simp_all add: sql_create_user_def Let_def)
  then show ?thesis by (simp add: stmt_keeps_def seqs_le_statements)
qed

lemma bank_sql_update_user: "stmt_keeps bank_inv (sql_update_user p)"
proof -
  have "bank_inv (snd (sql_update_user p now d))" if "bank_inv d" for now d
    by (rule bank_inv_cong [OF that wf_sql_update_user [OF bank_invD(1) [OF that]]])
      (simp_all add: sql_update_user_def Let_def split: option.splits)
  then show ?thesis by (simp add: stmt_keeps_def seqs_le_statements)
qed

lemma bank_sql_create_session: "stmt_keeps bank_inv (sql_create_session p)"
proof -
  have "bank_inv (snd (sql_create_session p now d))" if "bank_inv d" for now d
    by (rule bank_inv_cong [OF that wf_sql_create_session [OF bank_invD(1) [OF that]]])
      (simp_all add: sql_create_session_def Let_def)
  then show ?thesis by (simp add: stmt_keeps_def seqs_le_statements)
qed

text \<open>Opening an account: its id is new, so no entry and no transfer mentions it.\<close>

lemma create_account_shape:
  assumes "wf_db d"
  shows "same_tables d (snd (sql_create_account p now d)) \<or>
    (\<exists>a. acc_Balance a = cap_Balance p \<and> acc_Currency a = cap_Currency p \<and> acc_Owner a = cap_Owner p \<and>
       \<not> has_key acc_ID (acc_ID a) (accounts d) \<and>
       accounts (snd (sql_create_account p now d)) = accounts d @ [a] \<and>
       entries (snd (sql_create_account p now d)) = entries d \<and>
       transfers (snd (sql_create_account p now d)) = transfers d)"
  by (auto simp: sql_create_account_def Let_def split: option.splits)

lemma bank_inv_new_account:
  assumes inv: "bank_inv d" and wf: "wf_db d'"
    and fresh: "\<not> has_key acc_ID (acc_ID a) (accounts d)"
    and a: "acc_Balance a = 0" "IsSupportCurrency (acc_Currency a)"
    and d': "accounts d' = accounts d @ [a]" "entries d' = entries d" "transfers d' = transfers d"
  shows "bank_inv d'"
proof -
  have fks: "ent_AccountID ` set (entries d) \<subseteq> acc_ID ` set (accounts d)"
    using bank_invD(1) [OF inv] by (simp add: wf_db_defs)
  then have "\<not> has_key ent_AccountID (acc_ID a) (entries d)"
    using fresh by (auto simp: has_key_iff)
  then have "ledger_ok d'"
    using bank_invD(2) [OF inv] a d' entry_sum_none by (simp add: ledger_ok_def)
  moreover have "currency_of i d' = currency_of i d" if "currency_of i d \<noteq> None" for i
    using that d' by (auto simp: currency_of_def row_of_append split: option.splits)
  then have "same_currency i j d'" if "same_currency i j d" for i j
    using that by (fastforce simp: same_currency_def split: option.splits)
  then have "transfers_ok d'"
    using bank_invD(5) [OF inv] d' by (simp add: transfers_ok_def)
  ultimately show ?thesis
    using inv wf a d' by (simp add: bank_inv_def total_balance_def double_entry_def currencies_ok_def)
qed

lemma bank_sql_create_account:
  assumes "cap_Balance p = 0" and "IsSupportCurrency (cap_Currency p)"
  shows "stmt_keeps bank_inv (sql_create_account p)"
proof -
  have "bank_inv (snd (sql_create_account p now d))" if inv: "bank_inv d" for now d
  proof -
    have wf: "wf_db (snd (sql_create_account p now d))"
      by (rule wf_sql_create_account [OF bank_invD(1) [OF inv]])
    from create_account_shape [OF bank_invD(1) [OF inv], of p now] show ?thesis
      using bank_inv_cong [OF inv wf] bank_inv_new_account [OF inv wf] assms
      by (auto simp: same_tables_def)
  qed
  then show ?thesis by (simp add: stmt_keeps_def seqs_le_statements)
qed

subsection \<open>Transfers\<close>

lemma currency_of_transfer_db: "currency_of i (transfer_db now arg d) = currency_of i d"
  by (simp add: currency_of_def transfer_lookup option.map_comp comp_def)

lemma same_currency_transfer_db: "same_currency i j (transfer_db now arg d) = same_currency i j d"
  by (simp add: same_currency_def currency_of_transfer_db cong: option.case_cong)

lemma bank_inv_transfer:
  assumes inv: "bank_inv d" and wf: "wf_db (transfer_db now arg d)" and possible: "transfer_possible arg d"
    and amount: "0 < sint (ttp_Amount arg)"
    and currency: "same_currency (ttp_FromAccountID arg) (ttp_ToAccountID arg) d"
  shows "bank_inv (transfer_db now arg d)"
proof -
  let ?d = "transfer_db now arg d"
  note I = bank_invD [OF inv]
  have "total_balance ?d = 0"
    using transfer_total [OF I(1) possible, of now] sint64_neg [of "ttp_Amount arg"] amount I(3) by simp
  moreover have "double_entry ?d"
    using I(4) by (simp add: double_entry_def transfer_db_def entry_pair_def from_entry_row_def
        to_entry_row_def transfer_row_def)
  moreover have "transfers ?d = transfers d @ [transfer_row now arg d]"
    by (simp add: transfer_db_def)
  then have "transfers_ok ?d"
    using I(5) amount currency by (auto simp: transfers_ok_def same_currency_transfer_db transfer_row_def)
  moreover have "currencies_ok ?d"
    using I(6) by (simp add: currencies_ok_def transfer_db_def)
  ultimately show ?thesis
    using wf transfer_ledger [OF I(1) possible I(2)] by (simp add: bank_inv_def)
qed

text \<open>A transfer with the checks the HTTP handler makes keeps the bank invariant.\<close>

lemma TransferTx_keeps_bank:
  assumes auto: "c_tx c = Autocommit" and inv: "bank_inv (c_db c)"
    and run: "TransferTx E arg c = ((res, err), c')"
    and amount: "0 < sint (ttp_Amount arg)"
    and currency: "same_currency (ttp_FromAccountID arg) (ttp_ToAccountID arg) (c_db c)"
  shows "c_tx c' = Autocommit \<and> bank_inv (c_db c')"
proof -
  note wf = bank_invD(1) [OF inv]
  have wf': "wf_db (c_db c')" using keepsD [OF TransferTx_keeps_wf run wf] by simp
  from TransferTx_outcome [OF auto wf run] show ?thesis
    using bank_inv_transfer [OF inv _ _ amount currency] wf' bank_inv_cong [OF inv wf']
    by (auto simp: same_tables_def)
qed

subsection \<open>Computations outside a transaction\<close>

definition serves :: "(database \<Rightarrow> bool) \<Rightarrow> (conn \<Rightarrow> 'a \<times> conn) \<Rightarrow> bool" where
  "serves I f \<longleftrightarrow> (\<forall>c. c_tx c = Autocommit \<longrightarrow> I (c_db c) \<longrightarrow>
     c_tx (snd (f c)) = Autocommit \<and> I (c_db (snd (f c))))"

lemma servesD:
  "serves I f \<Longrightarrow> f c = (x, c') \<Longrightarrow> c_tx c = Autocommit \<Longrightarrow> I (c_db c) \<Longrightarrow> c_tx c' = Autocommit \<and> I (c_db c')"
  by (auto simp: serves_def)

lemma servesI:
  "(\<And>c x c'. f c = (x, c') \<Longrightarrow> c_tx c = Autocommit \<Longrightarrow> I (c_db c) \<Longrightarrow> c_tx c' = Autocommit \<and> I (c_db c'))
   \<Longrightarrow> serves I f"
  by (auto simp: serves_def) (metis prod.collapse)+

context db_invariant begin

lemma query_row_serves:
  assumes "stmt_keeps I s"
  shows "serves I (query_row E s)"
  by (rule servesI) (use query_row_autocommit(1) keepsD [OF query_row_keeps [OF assms]] in blast)

lemma query_rows_serves:
  assumes "stmt_keeps I s"
  shows "serves I (query_rows E s)"
  by (rule servesI) (use query_rows_autocommit(1) keepsD [OF query_rows_keeps [OF assms]] in blast)

lemma execTX_serves:
  assumes "\<And>r. keeps I (fn r)"
  shows "serves I (execTX E fn r)"
proof (rule servesI)
  fix c x c'
  assume "execTX E fn r c = (x, c')" "c_tx c = Autocommit" "I (c_db c)"
  then show "c_tx c' = Autocommit \<and> I (c_db c')"
    using keepsD [OF execTX_keeps [OF assms]] execTX_outcome [of E fn r c "fst x" "snd x" c'] by auto
qed

end

lemma bank_serves [intro]:
  "serves bank_inv (CreateUser E p1)" "serves bank_inv (UpdateUser E p2)"
  "serves bank_inv (CreateSession E p3)" "serves bank_inv (GetAccount E i)"
  "serves bank_inv (ListAccounts E p4)" "serves bank_inv (GetSession E u)"
  "serves bank_inv (GetUser E n)"
  unfolding query_defs
  by (auto intro!: bank.query_row_serves bank.query_rows_serves bank_sql_create_user
      bank_sql_update_user bank_sql_create_session)

end
