(* ===== verification/Token.thy ===== *)
theory Token
  imports Go_Strings
begin

text \<open>
  Package token: the payload of a token, and the two implementations of the \<open>Maker\<close> interface,
  \<open>JWTMaker\<close> (jwt-go) and \<open>PasetoMaker\<close> (o1egl/paseto). The two libraries are parameters
  (\<open>jwt_lib\<close>, \<open>paseto_lib\<close>) with their documented behaviour as the predicates \<open>jwt_lib_ok\<close> and
  \<open>paseto_lib_ok\<close>. Both encode the payload as JSON, which keeps a name only if it is valid UTF-8; the
  predicates idealise this and speak of every payload (the names the servers register are ASCII). The
  contract both makers meet is the locale \<open>token_maker\<close>.
\<close>

subsection \<open>Payload (payload.go)\<close>

record Payload =
  pl_ID :: uuid
  pl_Username :: string
  pl_IssuedAt :: instant
  pl_ExpiredAt :: instant

definition Payload_Valid :: "instant \<Rightarrow> Payload \<Rightarrow> go_error option" where
  "Payload_Valid now payload = (if pl_ExpiredAt payload < now then Some ErrExpiredToken else None)"

text \<open>What the system provides to \<open>NewPayload\<close>: a random id and two readings of the clock.\<close>

record token_env =
  te_uuid :: "uuid result"
  te_issued :: instant
  te_now :: instant

definition NewPayload :: "token_env \<Rightarrow> string \<Rightarrow> duration \<Rightarrow> Payload result" where
  "NewPayload te username d =
     (case te_uuid te of
        Inl err \<Rightarrow> Inl err
      | Inr tokenID \<Rightarrow>
          Inr \<lparr>pl_ID = tokenID, pl_Username = username, pl_IssuedAt = te_issued te,
               pl_ExpiredAt = te_now te + sint d\<rparr>)"

subsection \<open>The Maker interface (maker.go)\<close>

record Maker =
  mk_CreateToken :: "token_env \<Rightarrow> string \<Rightarrow> duration \<Rightarrow> (string \<times> Payload) result"
  mk_VerifyToken :: "instant \<Rightarrow> string \<Rightarrow> Payload result"

subsection \<open>JWT (jwt_maker.go)\<close>

text \<open>
  The part of jwt-go the code calls. \<open>jwt_sign key p\<close> is \<open>NewWithClaims\<close> with HS256 and
  \<open>SignedString\<close>; \<open>jwt_parse f valid t\<close> is \<open>ParseWithClaims\<close>, which asks \<open>f\<close> for the key of the
  token's signing method and the claims' \<open>Valid\<close> method for their validity.
\<close>

datatype signing_method =
    SigningMethodHMAC string
  | SigningMethodRSA string
  | SigningMethodRSAPSS string
  | SigningMethodECDSA string
  | SigningMethodNone

datatype claims = PayloadClaims Payload | OtherClaims

datatype jwt_error = ValidationError "go_error option" | OtherJwtError go_error

record jwt_lib =
  jwt_sign :: "string \<Rightarrow> Payload \<Rightarrow> string result"
  jwt_method :: "string \<Rightarrow> signing_method"
  jwt_parse :: "(signing_method \<Rightarrow> string result) \<Rightarrow> (Payload \<Rightarrow> go_error option) \<Rightarrow> string \<Rightarrow> jwt_error + claims"

record JWTMaker =
  secretKey :: string

definition minSecretKeySize :: nat where
  "minSecretKeySize = 32"

definition NewJWTMaker :: "string \<Rightarrow> JWTMaker result" where
  "NewJWTMaker key =
     (if length key < minSecretKeySize
      then Inl (Errorf ''invalid key size: must be at least %d characters'' [FInt (int minSecretKeySize)])
      else Inr \<lparr>secretKey = key\<rparr>)"

definition jwt_CreateToken ::
  "jwt_lib \<Rightarrow> JWTMaker \<Rightarrow> token_env \<Rightarrow> string \<Rightarrow> duration \<Rightarrow> (string \<times> Payload) result"
where
  "jwt_CreateToken L maker te username d =
     (case NewPayload te username d of
        Inl err \<Rightarrow> Inl err
      | Inr payload \<Rightarrow>
          (case jwt_sign L (secretKey maker) payload of
             Inl err \<Rightarrow> Inl err
           | Inr token \<Rightarrow> Inr (token, payload)))"

definition keyFunc :: "JWTMaker \<Rightarrow> signing_method \<Rightarrow> string result" where
  "keyFunc maker m = (case m of SigningMethodHMAC _ \<Rightarrow> Inr (secretKey maker) | _ \<Rightarrow> Inl ErrInvalidToken)"

definition jwt_VerifyToken :: "jwt_lib \<Rightarrow> JWTMaker \<Rightarrow> instant \<Rightarrow> string \<Rightarrow> Payload result" where
  "jwt_VerifyToken L maker now token =
     (case jwt_parse L (keyFunc maker) (Payload_Valid now) token of
        Inl (ValidationError (Some inner)) \<Rightarrow>
          if errors_is inner ErrExpiredToken then Inl ErrExpiredToken else Inl ErrInvalidToken
      | Inl _ \<Rightarrow> Inl ErrInvalidToken
      | Inr (PayloadClaims payload) \<Rightarrow> Inr payload
      | Inr OtherClaims \<Rightarrow> Inl ErrInvalidToken)"

definition jwt_maker :: "jwt_lib \<times> JWTMaker \<Rightarrow> Maker" where
  "jwt_maker lm = \<lparr>mk_CreateToken = jwt_CreateToken (fst lm) (snd lm),
     mk_VerifyToken = jwt_VerifyToken (fst lm) (snd lm)\<rparr>"

text \<open>
  The documented behaviour of jwt-go: a token signed with HS256 parses under the same key, and
  then the claims' \<open>Valid\<close> decides; whatever parses was checked with the key \<open>f\<close> gives for its
  method and had valid claims of the type passed in.
\<close>

definition jwt_lib_ok :: "jwt_lib \<Rightarrow> bool" where
  "jwt_lib_ok L \<longleftrightarrow>
     (\<forall>key p t f valid. jwt_sign L key p = Inr t \<longrightarrow> f (SigningMethodHMAC ''HS256'') = Inr key \<longrightarrow>
        jwt_parse L f valid t =
          (case valid p of None \<Rightarrow> Inr (PayloadClaims p) | Some e \<Rightarrow> Inl (ValidationError (Some e)))) \<and>
     (\<forall>f valid t c. jwt_parse L f valid t = Inr c \<longrightarrow>
        (\<exists>k p. f (jwt_method L t) = Inr k \<and> c = PayloadClaims p \<and> valid p = None))"

subsection \<open>PASETO (paseto_maker.go)\<close>

record paseto_lib =
  paseto_encrypt :: "string \<Rightarrow> Payload \<Rightarrow> string result"
  paseto_decrypt :: "string \<Rightarrow> string \<Rightarrow> Payload result"

record PasetoMaker =
  symmetricKey :: string

definition paseto_KeySize :: nat where
  "paseto_KeySize = 32"

definition NewPasetoMaker :: "string \<Rightarrow> PasetoMaker result" where
  "NewPasetoMaker key =
     (if length key \<noteq> paseto_KeySize
      then Inl (Errorf ''invalid key size: must be exactly %d characters'' [FInt (int paseto_KeySize)])
      else Inr \<lparr>symmetricKey = key\<rparr>)"

definition paseto_CreateToken ::
  "paseto_lib \<Rightarrow> PasetoMaker \<Rightarrow> token_env \<Rightarrow> string \<Rightarrow> duration \<Rightarrow> (string \<times> Payload) result"
where
  "paseto_CreateToken L maker te username d =
     (case NewPayload te username d of
        Inl err \<Rightarrow> Inl err
      | Inr payload \<Rightarrow>
          (case paseto_encrypt L (symmetricKey maker) payload of
             Inl err \<Rightarrow> Inl err
           | Inr token \<Rightarrow> Inr (token, payload)))"

definition paseto_VerifyToken :: "paseto_lib \<Rightarrow> PasetoMaker \<Rightarrow> instant \<Rightarrow> string \<Rightarrow> Payload result" where
  "paseto_VerifyToken L maker now token =
     (case paseto_decrypt L token (symmetricKey maker) of
        Inl _ \<Rightarrow> Inl ErrInvalidToken
      | Inr payload \<Rightarrow>
          (case Payload_Valid now payload of
             Some err \<Rightarrow> Inl err
           | None \<Rightarrow> Inr payload))"

definition paseto_maker :: "paseto_lib \<times> PasetoMaker \<Rightarrow> Maker" where
  "paseto_maker lm = \<lparr>mk_CreateToken = paseto_CreateToken (fst lm) (snd lm),
     mk_VerifyToken = paseto_VerifyToken (fst lm) (snd lm)\<rparr>"

definition paseto_lib_ok :: "paseto_lib \<Rightarrow> bool" where
  "paseto_lib_ok L \<longleftrightarrow>
     (\<forall>key p t. paseto_encrypt L key p = Inr t \<longrightarrow> paseto_decrypt L t key = Inr p)"

subsection \<open>The contract of a Maker\<close>

definition maker_ok :: "Maker \<Rightarrow> bool" where
  "maker_ok m \<longleftrightarrow>
     (\<forall>te u d t p. mk_CreateToken m te u d = Inr (t, p) \<longrightarrow>
        NewPayload te u d = Inr p \<and>
        (\<forall>now. mk_VerifyToken m now t = (case Payload_Valid now p of None \<Rightarrow> Inr p | Some e \<Rightarrow> Inl e))) \<and>
     (\<forall>now t p. mk_VerifyToken m now t = Inr p \<longrightarrow> now \<le> pl_ExpiredAt p)"

lemma maker_verifies:
  assumes "maker_ok m" and "mk_CreateToken m te u d = Inr (t, p)"
  shows "pl_Username p = u" "now \<le> pl_ExpiredAt p \<Longrightarrow> mk_VerifyToken m now t = Inr p"
proof -
  from assms have "NewPayload te u d = Inr p"
    and verify: "mk_VerifyToken m now t = (case Payload_Valid now p of None \<Rightarrow> Inr p | Some e \<Rightarrow> Inl e)" for now
    unfolding maker_ok_def by blast+
  then show "pl_Username p = u" by (auto simp: NewPayload_def split: sum.splits)
  show "mk_VerifyToken m now t = Inr p" if "now \<le> pl_ExpiredAt p"
    using that verify by (simp add: Payload_Valid_def)
qed

locale token_maker =
  fixes maker :: "'l \<Rightarrow> Maker" and lib_ok :: "'l \<Rightarrow> bool"
  assumes create_payload: "mk_CreateToken (maker l) te u d = Inr (t, p) \<Longrightarrow> NewPayload te u d = Inr p"
    and verify_created: "lib_ok l \<Longrightarrow> mk_CreateToken (maker l) te u d = Inr (t, p) \<Longrightarrow>
      mk_VerifyToken (maker l) now t = (case Payload_Valid now p of None \<Rightarrow> Inr p | Some e \<Rightarrow> Inl e)"
    and verify_valid: "lib_ok l \<Longrightarrow> mk_VerifyToken (maker l) now t = Inr p \<Longrightarrow> Payload_Valid now p = None"
    and verify_error: "mk_VerifyToken (maker l) now t = Inl e \<Longrightarrow> e = ErrInvalidToken \<or> e = ErrExpiredToken"
begin

lemma created_claims:
  assumes "mk_CreateToken (maker l) te u d = Inr (t, p)"
  shows "pl_Username p = u" "pl_ExpiredAt p = te_now te + sint d" "te_uuid te = Inr (pl_ID p)"
  using create_payload [OF assms] by (auto simp: NewPayload_def split: sum.splits)

lemma accepted_until_expiry:
  assumes "lib_ok l" and "mk_CreateToken (maker l) te u d = Inr (t, p)"
  shows "mk_VerifyToken (maker l) now t =
    (if now \<le> te_now te + sint d then Inr p else Inl ErrExpiredToken)"
  using verify_created [OF assms] created_claims(2) [OF assms(2)] by (simp add: Payload_Valid_def)

lemma accepted_is_unexpired:
  "lib_ok l \<Longrightarrow> mk_VerifyToken (maker l) now t = Inr p \<Longrightarrow> now \<le> pl_ExpiredAt p"
  using verify_valid [of l now t p] by (auto simp: Payload_Valid_def split: if_splits)

lemma meets_contract: "lib_ok l \<Longrightarrow> maker_ok (maker l)"
  unfolding maker_ok_def
  using create_payload verify_created accepted_is_unexpired by blast

end

lemma jwt_verify_error:
  "jwt_VerifyToken L m now t = Inl e \<Longrightarrow> e = ErrInvalidToken \<or> e = ErrExpiredToken"
  by (auto simp: jwt_VerifyToken_def split: sum.splits claims.splits jwt_error.splits option.splits if_splits)

interpretation jwt: token_maker jwt_maker "\<lambda>lm. jwt_lib_ok (fst lm)"
proof
  fix lm te u d t p now e
  show "mk_CreateToken (jwt_maker lm) te u d = Inr (t, p) \<Longrightarrow> NewPayload te u d = Inr p"
    by (auto simp: jwt_maker_def jwt_CreateToken_def split: sum.splits)
  show "mk_VerifyToken (jwt_maker lm) now t = (case Payload_Valid now p of None \<Rightarrow> Inr p | Some e \<Rightarrow> Inl e)"
    if "jwt_lib_ok (fst lm)" and "mk_CreateToken (jwt_maker lm) te u d = Inr (t, p)"
  proof -
    have "jwt_sign (fst lm) (secretKey (snd lm)) p = Inr t"
      using that(2) by (auto simp: jwt_maker_def jwt_CreateToken_def split: sum.splits)
    moreover have "keyFunc (snd lm) (SigningMethodHMAC ''HS256'') = Inr (secretKey (snd lm))"
      by (simp add: keyFunc_def)
    ultimately have "jwt_parse (fst lm) (keyFunc (snd lm)) (Payload_Valid now) t =
        (case Payload_Valid now p of None \<Rightarrow> Inr (PayloadClaims p) | Some e \<Rightarrow> Inl (ValidationError (Some e)))"
      using that(1) unfolding jwt_lib_ok_def by blast
    then show ?thesis
      by (simp add: jwt_maker_def jwt_VerifyToken_def Payload_Valid_def)
  qed
  show "jwt_lib_ok (fst lm) \<Longrightarrow> mk_VerifyToken (jwt_maker lm) now t = Inr p \<Longrightarrow> Payload_Valid now p = None"
    by (fastforce simp: jwt_maker_def jwt_VerifyToken_def jwt_lib_ok_def
        split: sum.splits claims.splits jwt_error.splits option.splits if_splits)
  show "mk_VerifyToken (jwt_maker lm) now t = Inl e \<Longrightarrow> e = ErrInvalidToken \<or> e = ErrExpiredToken"
    by (simp add: jwt_maker_def jwt_verify_error)
qed

interpretation paseto: token_maker paseto_maker "\<lambda>lm. paseto_lib_ok (fst lm)"
proof
  fix lm te u d t p now e
  show "mk_CreateToken (paseto_maker lm) te u d = Inr (t, p) \<Longrightarrow> NewPayload te u d = Inr p"
    by (auto simp: paseto_maker_def paseto_CreateToken_def split: sum.splits)
  show "paseto_lib_ok (fst lm) \<Longrightarrow> mk_CreateToken (paseto_maker lm) te u d = Inr (t, p) \<Longrightarrow>
    mk_VerifyToken (paseto_maker lm) now t = (case Payload_Valid now p of None \<Rightarrow> Inr p | Some e \<Rightarrow> Inl e)"
    by (auto simp: paseto_maker_def paseto_CreateToken_def paseto_VerifyToken_def paseto_lib_ok_def
        split: sum.splits option.splits)
  show "paseto_lib_ok (fst lm) \<Longrightarrow> mk_VerifyToken (paseto_maker lm) now t = Inr p \<Longrightarrow> Payload_Valid now p = None"
    by (auto simp: paseto_maker_def paseto_VerifyToken_def split: sum.splits option.splits)
  show "mk_VerifyToken (paseto_maker lm) now t = Inl e \<Longrightarrow> e = ErrInvalidToken \<or> e = ErrExpiredToken"
    by (auto simp: paseto_maker_def paseto_VerifyToken_def Payload_Valid_def split: sum.splits option.splits if_splits)
qed

end
