(* ===== verification/Http_Binding.thy ===== *)
theory Http_Binding
  imports Bank_Inv Token
begin

text \<open>
  The HTTP side of package api around its handlers: the request structs with their binding tags,
  responses, the authentication middleware, the server and its routes. gin decodes a request
  (a parameter: the decoded struct or an error) and checks the tags, whose documented meaning is
  \<open>rule_ok\<close>; the \<open>email\<close> tag is a parameter.
\<close>

subsection \<open>Binding tags\<close>

datatype rule = Required | Min int | Max int | Gt int | Alphanum | EmailTag | CurrencyTag

datatype field_value = StringField string | IntField int

text \<open>The custom tag (validator.go).\<close>

definition validCurrency :: "field_value \<Rightarrow> bool" where
  "validCurrency v = (case v of StringField currency \<Rightarrow> IsSupportCurrency currency | IntField _ \<Rightarrow> False)"

fun rule_ok :: "(string \<Rightarrow> bool) \<Rightarrow> rule \<Rightarrow> field_value \<Rightarrow> bool" where
  "rule_ok email Required (StringField s) \<longleftrightarrow> s \<noteq> ''''"
| "rule_ok email Required (IntField i) \<longleftrightarrow> i \<noteq> 0"
| "rule_ok email (Min n) (StringField s) \<longleftrightarrow> n \<le> int (rune_count s)"
| "rule_ok email (Min n) (IntField i) \<longleftrightarrow> n \<le> i"
| "rule_ok email (Max n) (StringField s) \<longleftrightarrow> int (rune_count s) \<le> n"
| "rule_ok email (Max n) (IntField i) \<longleftrightarrow> i \<le> n"
| "rule_ok email (Gt n) (StringField s) \<longleftrightarrow> n < int (rune_count s)"
| "rule_ok email (Gt n) (IntField i) \<longleftrightarrow> n < i"
| "rule_ok email Alphanum (StringField s) \<longleftrightarrow>
     s \<noteq> '''' \<and> list_all (\<lambda>c. is_lower c \<or> is_upper c \<or> is_digit c) s"
| "rule_ok email Alphanum (IntField i) \<longleftrightarrow> False"
| "rule_ok email EmailTag (StringField s) \<longleftrightarrow> email s"
| "rule_ok email EmailTag (IntField i) \<longleftrightarrow> False"
| "rule_ok email CurrencyTag v \<longleftrightarrow> validCurrency v"

type_synonym tagged = "(field_value \<times> rule list) list"

definition tags_ok :: "(string \<Rightarrow> bool) \<Rightarrow> tagged \<Rightarrow> bool" where
  "tags_ok email fs \<longleftrightarrow> list_all (\<lambda>(v, rs). list_all (\<lambda>r. rule_ok email r v) rs) fs"

definition should_bind :: "(string \<Rightarrow> bool) \<Rightarrow> ('req \<Rightarrow> tagged) \<Rightarrow> 'req result \<Rightarrow> 'req result" where
  "should_bind email tags decoded =
     (case decoded of
        Inl err \<Rightarrow> Inl err
      | Inr req \<Rightarrow> if tags_ok email (tags req) then Inr req else Inl (ExtError ''validation failed''))"

lemma should_bind_Inr: "should_bind email tags dec = Inr req \<longleftrightarrow> dec = Inr req \<and> tags_ok email (tags req)"
  by (auto simp: should_bind_def split: sum.splits)

subsection \<open>Requests\<close>

record createAccountRequest =
  car_Currency :: string

definition createAccountRequest_tags :: "createAccountRequest \<Rightarrow> tagged" where
  "createAccountRequest_tags r = [(StringField (car_Currency r), [Required, CurrencyTag])]"

record getAccountRequest =
  gar_ID :: int64

definition getAccountRequest_tags :: "getAccountRequest \<Rightarrow> tagged" where
  "getAccountRequest_tags r = [(IntField (sint (gar_ID r)), [Required, Min 1])]"

record listAccountRequest =
  lar_PageID :: int32
  lar_PageSize :: int32

definition listAccountRequest_tags :: "listAccountRequest \<Rightarrow> tagged" where
  "listAccountRequest_tags r =
     [(IntField (sint (lar_PageID r)), [Required, Min 1]),
      (IntField (sint (lar_PageSize r)), [Required, Min 5, Max 10])]"

record createUserRequest =
  cur_UserName :: string
  cur_Password :: string
  cur_FullName :: string
  cur_Email :: string

definition createUserRequest_tags :: "createUserRequest \<Rightarrow> tagged" where
  "createUserRequest_tags r =
     [(StringField (cur_UserName r), [Required, Alphanum]),
      (StringField (cur_Password r), [Required, Min 6]),
      (StringField (cur_FullName r), [Required]),
      (StringField (cur_Email r), [Required, EmailTag])]"

record loginUserRequest =
  lur_UserName :: string
  lur_Password :: string

definition loginUserRequest_tags :: "loginUserRequest \<Rightarrow> tagged" where
  "loginUserRequest_tags r =
     [(StringField (lur_UserName r), [Required, Alphanum]),
      (StringField (lur_Password r), [Required, Min 6])]"

record reNewAccessTokenRequest =
  rnr_RefreshToken :: string

definition reNewAccessTokenRequest_tags :: "reNewAccessTokenRequest \<Rightarrow> tagged" where
  "reNewAccessTokenRequest_tags r = [(StringField (rnr_RefreshToken r), [Required])]"

record transferRequest =
  trq_FromAccountID :: int64
  trq_ToAccountID :: int64
  trq_Amount :: int64
  trq_Currency :: string

definition transferRequest_tags :: "transferRequest \<Rightarrow> tagged" where
  "transferRequest_tags r =
     [(IntField (sint (trq_FromAccountID r)), [Required, Min 1]),
      (IntField (sint (trq_ToAccountID r)), [Required, Min 1]),
      (IntField (sint (trq_Amount r)), [Required, Gt 0]),
      (StringField (trq_Currency r), [Required, CurrencyTag])]"

subsection \<open>Responses\<close>

record userResponse =
  ur_Username :: string
  ur_FullName :: string
  ur_PasswordChangedAt :: instant
  ur_Email :: string
  ur_CreatedAt :: instant

definition newUserResponse :: "User \<Rightarrow> userResponse" where
  "newUserResponse user = \<lparr>ur_Username = usr_Username user, ur_FullName = usr_FullName user,
     ur_PasswordChangedAt = usr_PasswordChangedAt user, ur_Email = usr_Email user,
     ur_CreatedAt = usr_CreatedAt user\<rparr>"

record loginUserResponse =
  lr_SessionID :: uuid
  lr_AccessToken :: string
  lr_AccessTokenExpiredAt :: instant
  lr_RefreshToken :: string
  lr_RefreshTokenExpiredAt :: instant
  lr_User :: userResponse

record reNewAccessTokenResponse =
  rn_AccessToken :: string
  rn_AccessTokenExpiredAt :: instant

datatype http_body =
    ErrBody go_error
  | AccountBody Account
  | AccountsBody "Account list"
  | TransferBody TransferTxResult
  | UserBody userResponse
  | LoginBody loginUserResponse
  | RenewBody reNewAccessTokenResponse
  | PanicBody

text \<open>A response: the status code and the body; gin turns a panic of a handler into status 500.\<close>

type_synonym response = "nat \<times> http_body"

abbreviation StatusOK :: nat where "StatusOK \<equiv> 200"
abbreviation StatusBadRequest :: nat where "StatusBadRequest \<equiv> 400"
abbreviation StatusUnauthorized :: nat where "StatusUnauthorized \<equiv> 401"
abbreviation StatusForbidden :: nat where "StatusForbidden \<equiv> 403"
abbreviation StatusNotFound :: nat where "StatusNotFound \<equiv> 404"
abbreviation StatusInternalServerError :: nat where "StatusInternalServerError \<equiv> 500"

definition errResponse :: "nat \<Rightarrow> go_error \<Rightarrow> response" where
  "errResponse status err = (status, ErrBody err)"

subsection \<open>Authentication (middleware.go)\<close>

definition authMiddleware :: "Maker \<Rightarrow> instant \<Rightarrow> string \<Rightarrow> response + Payload" where
  "authMiddleware tokenMaker now authorizationHeader =
     (if length authorizationHeader = 0
      then Inl (errResponse StatusUnauthorized (Errorf ''authorization header is not provided'' []))
      else
        let flds = Fields authorizationHeader
        in if length flds < 2
           then Inl (errResponse StatusUnauthorized (Errorf ''invalid authorization header format'' []))
           else
             let authorizationType = to_lower (flds ! 0)
             in if authorizationType \<noteq> ''bearer''
                then Inl (errResponse StatusUnauthorized
                       (Errorf ''unsupported authorization type %s'' [FStr authorizationType]))
                else case mk_VerifyToken tokenMaker now (flds ! 1) of
                       Inl err \<Rightarrow> Inl (errResponse StatusUnauthorized err)
                     | Inr payload \<Rightarrow> Inr payload)"

lemma authMiddleware_reject: "authMiddleware m now h = Inl (st, b) \<Longrightarrow> st = StatusUnauthorized"
  by (auto simp: authMiddleware_def errResponse_def Let_def split: if_splits sum.splits)

lemma authMiddleware_accept:
  "authMiddleware m now h = Inr p \<Longrightarrow>
   length (Fields h) \<ge> 2 \<and> to_lower (Fields h ! 0) = ''bearer'' \<and> mk_VerifyToken m now (Fields h ! 1) = Inr p"
  by (auto simp: authMiddleware_def Let_def split: if_splits sum.splits)

lemma to_lower_bearer: "to_lower ''Bearer'' = ''bearer''" "to_lower ''bearer'' = ''bearer''"
  by code_simp+

lemma bearer_graphic: "list_all graphic ''Bearer''" "list_all graphic ''bearer''"
  by code_simp+

lemma authMiddleware_bearer:
  assumes "list_all graphic tok" "tok \<noteq> ''''" and "mk_VerifyToken m now tok = Inr p"
  shows "authMiddleware m now (''Bearer '' @ tok) = Inr p"
proof -
  have "Fields (''Bearer'' @ '' '' @ tok) = [''Bearer'', tok]"
    by (rule fields_two [OF bearer_graphic(1) _ assms(1,2)]) simp
  with assms(3) show ?thesis by (simp add: authMiddleware_def to_lower_bearer)
qed

subsection \<open>Server and routes (server.go)\<close>

record Server =
  srv_config :: Config
  srv_tokenMaker :: Maker

definition NewServer :: "jwt_lib \<Rightarrow> Config \<Rightarrow> Server result" where
  "NewServer L config =
     (case NewJWTMaker (TokenSymmetricKey config) of
        Inl err \<Rightarrow> Inl (Wrapf ''can not create token maker: %w'' [] err)
      | Inr maker \<Rightarrow> Inr \<lparr>srv_config = config, srv_tokenMaker = jwt_maker (L, maker)\<rparr>)"

lemma NewServer_maker_ok: "jwt_lib_ok L \<Longrightarrow> NewServer L config = Inr srv \<Longrightarrow> maker_ok (srv_tokenMaker srv)"
  using jwt.meets_contract [of "(L, _)"] by (auto simp: NewServer_def split: sum.splits)

datatype endpoint =
    CreateUserEP | LoginUserEP | RenewAccessEP
  | CreateAccountEP | GetAccountEP | ListAccountEP | CreateTransferEP

text \<open>Method, path, whether the route is in the group behind the middleware, handler.\<close>

definition setupRouter :: "(string \<times> string \<times> bool \<times> endpoint) list" where
  "setupRouter =
     [(''POST'', ''/users'', False, CreateUserEP),
      (''POST'', ''/users/login'', False, LoginUserEP),
      (''POST'', ''/tokens/renew_access'', False, RenewAccessEP),
      (''POST'', ''/accounts'', True, CreateAccountEP),
      (''GET'', ''/accounts/:id'', True, GetAccountEP),
      (''GET'', ''/accounts'', True, ListAccountEP),
      (''POST'', ''/transfers'', True, CreateTransferEP)]"

definition needs_auth :: "endpoint \<Rightarrow> bool" where
  "needs_auth e \<longleftrightarrow> list_ex (\<lambda>(m, p, auth, e'). e' = e \<and> auth) setupRouter"

lemma needs_auth_simps [simp]:
  "needs_auth CreateAccountEP" "needs_auth GetAccountEP" "needs_auth ListAccountEP" "needs_auth CreateTransferEP"
  "\<not> needs_auth CreateUserEP" "\<not> needs_auth LoginUserEP" "\<not> needs_auth RenewAccessEP"
  by (simp_all add: needs_auth_def setupRouter_def)

end
