(* ===== verification/Http_Api.thy ===== *)
theory Http_Api
  imports Http_Binding
begin

text \<open>
  The handlers of package api: every branch and every call of the store, in the order of the
  source. A handler takes the connection and returns the response with the connection after it.
  \<open>authPayload\<close> is what the middleware stored in the gin context; \<open>MustGet\<close> panics without it.
\<close>

text \<open>The libraries the handlers call, and what one request draws from the system.\<close>

record libs =
  lib_email_tag :: "string \<Rightarrow> bool"
  lib_bcrypt :: bcrypt_lib

record req_env =
  rv_auth_now :: instant
  rv_verify_now :: instant
  rv_now :: instant
  rv_salt :: nat
  rv_access :: token_env
  rv_refresh :: token_env

definition panic_response :: response where
  "panic_response = (StatusInternalServerError, PanicBody)"

subsection \<open>Accounts (account.go)\<close>

definition api_createAccount ::
  "libs \<Rightarrow> env \<Rightarrow> Payload option \<Rightarrow> createAccountRequest result \<Rightarrow> conn \<Rightarrow> response \<times> conn"
where
  "api_createAccount L E authPayload decoded c =
     (case should_bind (lib_email_tag L) createAccountRequest_tags decoded of
        Inl err \<Rightarrow> (errResponse StatusBadRequest err, c)
      | Inr req \<Rightarrow>
     (case authPayload of
        None \<Rightarrow> (panic_response, c)
      | Some payload \<Rightarrow>
     (case CreateAccount E \<lparr>cap_Owner = pl_Username payload, cap_Balance = 0,
             cap_Currency = car_Currency req\<rparr> c of
        (Inl err, c1) \<Rightarrow>
          (case errors_as_pq err of
             Some name \<Rightarrow>
               if name = ''foreign_key_violation'' \<or> name = ''unique_violation''
               then (errResponse StatusForbidden err, c1)
               else (errResponse StatusInternalServerError err, c1)
           | None \<Rightarrow> (errResponse StatusInternalServerError err, c1))
      | (Inr account, c1) \<Rightarrow> ((StatusOK, AccountBody account), c1))))"

definition api_getAccount ::
  "libs \<Rightarrow> env \<Rightarrow> Payload option \<Rightarrow> getAccountRequest result \<Rightarrow> conn \<Rightarrow> response \<times> conn"
where
  "api_getAccount L E authPayload decoded c =
     (case should_bind (lib_email_tag L) getAccountRequest_tags decoded of
        Inl err \<Rightarrow> (errResponse StatusBadRequest err, c)
      | Inr req \<Rightarrow>
     (case GetAccount E (gar_ID req) c of
        (Inl err, c1) \<Rightarrow>
          if errors_is err ErrNoRows then (errResponse StatusNotFound err, c1)
          else (errResponse StatusInternalServerError err, c1)
      | (Inr account, c1) \<Rightarrow>
     (case authPayload of
        None \<Rightarrow> (panic_response, c1)
      | Some payload \<Rightarrow>
          if pl_Username payload \<noteq> acc_Owner account
          then (errResponse StatusUnauthorized
                  (Errorf ''account doesn't belong to the authenticated user'' []), c1)
          else ((StatusOK, AccountBody account), c1))))"

definition list_params :: "Payload \<Rightarrow> listAccountRequest \<Rightarrow> ListAccountsParams" where
  "list_params payload req =
     \<lparr>lap_Owner = pl_Username payload, lap_Limit = lar_PageSize req,
      lap_Offset = (lar_PageID req - 1) * lar_PageSize req\<rparr>"

definition api_listAccount ::
  "libs \<Rightarrow> env \<Rightarrow> Payload option \<Rightarrow> listAccountRequest result \<Rightarrow> conn \<Rightarrow> response \<times> conn"
where
  "api_listAccount L E authPayload decoded c =
     (case should_bind (lib_email_tag L) listAccountRequest_tags decoded of
        Inl err \<Rightarrow> (errResponse StatusBadRequest err, c)
      | Inr req \<Rightarrow>
     (case authPayload of
        None \<Rightarrow> (panic_response, c)
      | Some payload \<Rightarrow>
     (case ListAccounts E (list_params payload req) c of
        (Inl err, c1) \<Rightarrow> (errResponse StatusInternalServerError err, c1)
      | (Inr as, c1) \<Rightarrow> ((StatusOK, AccountsBody as), c1))))"

subsection \<open>Transfers (transfer.go)\<close>

definition api_validAccount :: "env \<Rightarrow> int64 \<Rightarrow> string \<Rightarrow> conn \<Rightarrow> (response + Account) \<times> conn" where
  "api_validAccount E accountID currency c =
     (case GetAccount E accountID c of
        (Inl err, c1) \<Rightarrow>
          if errors_is err ErrNoRows then (Inl (errResponse StatusNotFound err), c1)
          else (Inl (errResponse StatusInternalServerError err), c1)
      | (Inr account, c1) \<Rightarrow>
          if acc_Currency account \<noteq> currency
          then (Inl (errResponse StatusBadRequest
                  (Errorf ''account [%d] currency mismatch: %s vs %s''
                     [FInt (sint (acc_ID account)), FStr (acc_Currency account), FStr currency])), c1)
          else (Inr account, c1))"

definition api_createTransfer ::
  "libs \<Rightarrow> env \<Rightarrow> Payload option \<Rightarrow> transferRequest result \<Rightarrow> conn \<Rightarrow> response \<times> conn"
where
  "api_createTransfer L E authPayload decoded c =
     (case should_bind (lib_email_tag L) transferRequest_tags decoded of
        Inl err \<Rightarrow> (errResponse StatusBadRequest err, c)
      | Inr req \<Rightarrow>
     (case api_validAccount E (trq_FromAccountID req) (trq_Currency req) c of
        (Inl resp, c1) \<Rightarrow> (resp, c1)
      | (Inr fromAccount, c1) \<Rightarrow>
     (case authPayload of
        None \<Rightarrow> (panic_response, c1)
      | Some payload \<Rightarrow>
          if acc_Owner fromAccount \<noteq> pl_Username payload
          then (errResponse StatusUnauthorized
                  (Errorf ''from account doesn't belong to the authenticated user'' []), c1)
          else
     (case api_validAccount E (trq_ToAccountID req) (trq_Currency req) c1 of
        (Inl resp, c2) \<Rightarrow> (resp, c2)
      | (Inr toAccount, c2) \<Rightarrow>
     (case TransferTx E \<lparr>ttp_FromAccountID = trq_FromAccountID req,
             ttp_ToAccountID = trq_ToAccountID req, ttp_Amount = trq_Amount req\<rparr> c2 of
        ((result, Some err), c3) \<Rightarrow> (errResponse StatusInternalServerError err, c3)
      | ((result, None), c3) \<Rightarrow> ((StatusOK, TransferBody result), c3))))))"

subsection \<open>Users (user.go)\<close>

definition api_createUser ::
  "libs \<Rightarrow> env \<Rightarrow> req_env \<Rightarrow> createUserRequest result \<Rightarrow> conn \<Rightarrow> response \<times> conn"
where
  "api_createUser L E rv decoded c =
     (case should_bind (lib_email_tag L) createUserRequest_tags decoded of
        Inl err \<Rightarrow> (errResponse StatusBadRequest err, c)
      | Inr req \<Rightarrow>
     (case HashPassword (lib_bcrypt L) (rv_salt rv) (cur_Password req) of
        Inl err \<Rightarrow> (errResponse StatusInternalServerError err, c)
      | Inr hashedPassword \<Rightarrow>
     (case CreateUser E \<lparr>cup_Username = cur_UserName req, cup_HashedPassword = hashedPassword,
             cup_FullName = cur_FullName req, cup_Email = cur_Email req\<rparr> c of
        (Inl err, c1) \<Rightarrow>
          (case errors_as_pq err of
             Some name \<Rightarrow>
               if name = ''unique_violation'' then (errResponse StatusForbidden err, c1)
               else (errResponse StatusInternalServerError err, c1)
           | None \<Rightarrow> (errResponse StatusInternalServerError err, c1))
      | (Inr user, c1) \<Rightarrow> ((StatusOK, UserBody (newUserResponse user)), c1))))"

definition api_loginUser ::
  "libs \<Rightarrow> Server \<Rightarrow> env \<Rightarrow> req_env \<Rightarrow> string \<Rightarrow> string \<Rightarrow> loginUserRequest result \<Rightarrow> conn
   \<Rightarrow> response \<times> conn"
where
  "api_loginUser L server E rv userAgent clientIP decoded c =
     (case should_bind (lib_email_tag L) loginUserRequest_tags decoded of
        Inl err \<Rightarrow> (errResponse StatusBadRequest err, c)
      | Inr req \<Rightarrow>
     (case GetUser E (lur_UserName req) c of
        (Inl err, c1) \<Rightarrow>
          if errors_is err ErrNoRows then (errResponse StatusNotFound err, c1)
          else (errResponse StatusInternalServerError err, c1)
      | (Inr user, c1) \<Rightarrow>
     (case CheckPassword (lib_bcrypt L) (lur_Password req) (usr_HashedPassword user) of
        Some err \<Rightarrow> (errResponse StatusUnauthorized err, c1)
      | None \<Rightarrow>
     (case mk_CreateToken (srv_tokenMaker server) (rv_access rv) (usr_Username user)
             (AccessTokenDuration (srv_config server)) of
        Inl err \<Rightarrow> (errResponse StatusInternalServerError err, c1)
      | Inr (accessToken, accessPayload) \<Rightarrow>
     (case mk_CreateToken (srv_tokenMaker server) (rv_refresh rv) (usr_Username user)
             (RefreshTokenDuration (srv_config server)) of
        Inl err \<Rightarrow> (errResponse StatusInternalServerError err, c1)
      | Inr (refreshToken, refreshPayload) \<Rightarrow>
     (case CreateSession E \<lparr>csp_ID = pl_ID refreshPayload, csp_Username = usr_Username user,
             csp_RefreshToken = refreshToken, csp_UserAgent = userAgent, csp_ClientIp = clientIP,
             csp_IsBlocked = False, csp_ExpiredAt = pl_ExpiredAt refreshPayload\<rparr> c1 of
        (Inl err, c2) \<Rightarrow> (errResponse StatusInternalServerError err, c2)
      | (Inr session, c2) \<Rightarrow>
          ((StatusOK, LoginBody \<lparr>lr_SessionID = ses_ID session, lr_AccessToken = accessToken,
              lr_AccessTokenExpiredAt = pl_ExpiredAt accessPayload, lr_RefreshToken = refreshToken,
              lr_RefreshTokenExpiredAt = pl_ExpiredAt refreshPayload,
              lr_User = newUserResponse user\<rparr>), c2)))))))"

subsection \<open>Renewing an access token (token.go)\<close>

definition api_reNewAccessToken ::
  "libs \<Rightarrow> Server \<Rightarrow> env \<Rightarrow> req_env \<Rightarrow> reNewAccessTokenRequest result \<Rightarrow> conn \<Rightarrow> response \<times> conn"
where
  "api_reNewAccessToken L server E rv decoded c =
     (case should_bind (lib_email_tag L) reNewAccessTokenRequest_tags decoded of
        Inl err \<Rightarrow> (errResponse StatusBadRequest err, c)
      | Inr req \<Rightarrow>
     (case mk_VerifyToken (srv_tokenMaker server) (rv_verify_now rv) (rnr_RefreshToken req) of
        Inl err \<Rightarrow> (errResponse StatusUnauthorized err, c)
      | Inr refreshPayload \<Rightarrow>
     (case GetSession E (pl_ID refreshPayload) c of
        (Inl err, c1) \<Rightarrow>
          if errors_is err ErrNoRows then (errResponse StatusNotFound err, c1)
          else (errResponse StatusInternalServerError err, c1)
      | (Inr session, c1) \<Rightarrow>
          if ses_IsBlocked session
          then (errResponse StatusUnauthorized (Errorf ''session is blocked'' []), c1)
          else if ses_Username session \<noteq> pl_Username refreshPayload
          then (errResponse StatusUnauthorized (Errorf ''incorrect session user'' []), c1)
          else if ses_RefreshToken session \<noteq> rnr_RefreshToken req
          then (errResponse StatusUnauthorized (Errorf ''incorrect session token'' []), c1)
          else if ses_ExpiredAt session < rv_now rv
          then (errResponse StatusUnauthorized (Errorf ''expired session'' []), c1)
          else
     (case mk_CreateToken (srv_tokenMaker server) (rv_access rv) (pl_Username refreshPayload)
             (AccessTokenDuration (srv_config server)) of
        Inl err \<Rightarrow> (errResponse StatusInternalServerError err, c1)
      | Inr (accessToken, accessPayload) \<Rightarrow>
          ((StatusOK, RenewBody \<lparr>rn_AccessToken = accessToken,
              rn_AccessTokenExpiredAt = pl_ExpiredAt accessPayload\<rparr>), c1)))))"

subsection \<open>Serving a request\<close>

text \<open>A request as gin hands it over: the matched route with its decoded input.\<close>

datatype request =
    CreateUserReq "createUserRequest result"
  | LoginUserReq string string "loginUserRequest result"
  | RenewAccessReq "reNewAccessTokenRequest result"
  | CreateAccountReq "createAccountRequest result"
  | GetAccountReq "getAccountRequest result"
  | ListAccountReq "listAccountRequest result"
  | CreateTransferReq "transferRequest result"

fun endpoint_of :: "request \<Rightarrow> endpoint" where
  "endpoint_of (CreateUserReq _) = CreateUserEP"
| "endpoint_of (LoginUserReq _ _ _) = LoginUserEP"
| "endpoint_of (RenewAccessReq _) = RenewAccessEP"
| "endpoint_of (CreateAccountReq _) = CreateAccountEP"
| "endpoint_of (GetAccountReq _) = GetAccountEP"
| "endpoint_of (ListAccountReq _) = ListAccountEP"
| "endpoint_of (CreateTransferReq _) = CreateTransferEP"

fun dispatch ::
  "libs \<Rightarrow> Server \<Rightarrow> env \<Rightarrow> req_env \<Rightarrow> Payload option \<Rightarrow> request \<Rightarrow> conn \<Rightarrow> response \<times> conn"
where
  "dispatch L server E rv p (CreateUserReq r) c = api_createUser L E rv r c"
| "dispatch L server E rv p (LoginUserReq ua ip r) c = api_loginUser L server E rv ua ip r c"
| "dispatch L server E rv p (RenewAccessReq r) c = api_reNewAccessToken L server E rv r c"
| "dispatch L server E rv p (CreateAccountReq r) c = api_createAccount L E p r c"
| "dispatch L server E rv p (GetAccountReq r) c = api_getAccount L E p r c"
| "dispatch L server E rv p (ListAccountReq r) c = api_listAccount L E p r c"
| "dispatch L server E rv p (CreateTransferReq r) c = api_createTransfer L E p r c"

definition serve ::
  "libs \<Rightarrow> Server \<Rightarrow> env \<Rightarrow> req_env \<Rightarrow> string \<Rightarrow> request \<Rightarrow> conn \<Rightarrow> response \<times> conn"
where
  "serve L server E rv authHeader req c =
     (if needs_auth (endpoint_of req)
      then case authMiddleware (srv_tokenMaker server) (rv_auth_now rv) authHeader of
             Inl resp \<Rightarrow> (resp, c)
           | Inr payload \<Rightarrow> dispatch L server E rv (Some payload) req c
      else dispatch L server E rv None req c)"

end
