(* ===== verification/Gapi.thy ===== *)
theory Gapi
  imports Worker Http_Api
begin

text \<open>
  Package gapi: the gRPC server. Messages are records (an \<open>optional\<close> field is an option, read by
  the generated getters of package pb), a result is a status or a response. The context carries
  the incoming metadata and the peer; \<open>mail.ParseAddress\<close>, bcrypt and \<open>status.WithDetails\<close> are
  parameters.
\<close>

subsection \<open>Messages (package pb)\<close>

record pb_User =
  pu_Username :: string
  pu_FullName :: string
  pu_Email :: string
  pu_PasswordChangedAt :: instant
  pu_CreatedAt :: instant

record CreateUserRequest =
  cr_Username :: string
  cr_FullName :: string
  cr_Email :: string
  cr_Password :: string

record LoginUserRequest =
  lq_Username :: string
  lq_Password :: string

record UpdateUserRequest =
  uq_Username :: string
  uq_FullName :: "string option"
  uq_Email :: "string option"
  uq_Password :: "string option"

record LoginUserResponse =
  ls_User :: pb_User
  ls_SessionId :: string
  ls_AccessToken :: string
  ls_RefreshToken :: string
  ls_AccessTokenExpiresAt :: instant
  ls_RefreshTokenExpiresAt :: instant

definition get_opt :: "string option \<Rightarrow> string" where
  "get_opt x = (case x of None \<Rightarrow> '''' | Some v \<Rightarrow> v)"

definition GetFullName :: "UpdateUserRequest \<Rightarrow> string" where
  "GetFullName x = get_opt (uq_FullName x)"

definition GetEmail :: "UpdateUserRequest \<Rightarrow> string" where
  "GetEmail x = get_opt (uq_Email x)"

definition GetPassword :: "UpdateUserRequest \<Rightarrow> string" where
  "GetPassword x = get_opt (uq_Password x)"

definition ConvertUser :: "User \<Rightarrow> pb_User" where
  "ConvertUser user = \<lparr>pu_Username = usr_Username user, pu_FullName = usr_FullName user,
     pu_Email = usr_Email user, pu_PasswordChangedAt = usr_PasswordChangedAt user,
     pu_CreatedAt = usr_CreatedAt user\<rparr>"

subsection \<open>Errors (error.go)\<close>

datatype code = OK | Unknown | InvalidArgument | NotFound | AlreadyExists | PermissionDenied | Unimplemented
  | Internal | Unauthenticated

datatype field_violation = FieldViolation (fv_Field: string) (fv_Description: go_error)

record grpc_status =
  st_Code :: code
  st_Message :: string
  st_Args :: "fmt_arg list"
  st_Details :: "field_violation list"

definition status_Errorf :: "code \<Rightarrow> string \<Rightarrow> fmt_arg list \<Rightarrow> grpc_status" where
  "status_Errorf c msg args = \<lparr>st_Code = c, st_Message = msg, st_Args = args, st_Details = []\<rparr>"

definition fieldViolation :: "string \<Rightarrow> go_error \<Rightarrow> field_violation" where
  "fieldViolation field err = FieldViolation field err"

definition invalidArgumentError :: "(field_violation list \<Rightarrow> bool) \<Rightarrow> field_violation list \<Rightarrow> grpc_status" where
  "invalidArgumentError with_details violations =
     (let statusInvalid = \<lparr>st_Code = InvalidArgument, st_Message = ''invalid argument'', st_Args = [], st_Details = []\<rparr>
      in if with_details violations then statusInvalid\<lparr>st_Details := violations\<rparr> else statusInvalid)"

definition unauthenticatedError :: "go_error \<Rightarrow> grpc_status" where
  "unauthenticatedError err = status_Errorf Unauthenticated ''unauthorized: %s'' [FErr err]"

subsection \<open>The context: metadata, peer, authorization (metadata.go, authorization.go)\<close>

record grpc_ctx =
  cx_metadata :: "(string \<times> string list) list option"
  cx_peer :: "string option"

definition md_get :: "(string \<times> string list) list \<Rightarrow> string \<Rightarrow> string list" where
  "md_get md k = (case map_of md k of None \<Rightarrow> [] | Some vs \<Rightarrow> vs)"

record Metadata =
  md_UserAgent :: string
  md_ClientIp :: string

definition extractMetaData :: "grpc_ctx \<Rightarrow> Metadata" where
  "extractMetaData ctx =
     (let m0 = \<lparr>md_UserAgent = '''', md_ClientIp = ''''\<rparr>;
          m3 = (case cx_metadata ctx of
                  None \<Rightarrow> m0
                | Some mD \<Rightarrow>
                    (let m1 = (case md_get mD ''grpcgateway-user-agent'' of [] \<Rightarrow> m0 | ua # _ \<Rightarrow> m0\<lparr>md_UserAgent := ua\<rparr>);
                         m2 = (case md_get mD ''user-agent'' of [] \<Rightarrow> m1 | ua # _ \<Rightarrow> m1\<lparr>md_UserAgent := ua\<rparr>)
                     in case md_get mD ''x-forwarded-for'' of [] \<Rightarrow> m2 | ip # _ \<Rightarrow> m2\<lparr>md_ClientIp := ip\<rparr>))
      in case cx_peer ctx of None \<Rightarrow> m3 | Some addr \<Rightarrow> m3\<lparr>md_ClientIp := addr\<rparr>)"

record 'w gServer =
  gs_config :: Config
  gs_tokenMaker :: Maker
  gs_taskDistributor :: "'w TaskDistributor"

definition gapi_NewServer :: "jwt_lib \<Rightarrow> Config \<Rightarrow> 'w TaskDistributor \<Rightarrow> 'w gServer result" where
  "gapi_NewServer L config taskDistributor =
     (case NewJWTMaker (TokenSymmetricKey config) of
        Inl err \<Rightarrow> Inl (Wrapf ''can not create token maker: %w'' [] err)
      | Inr maker \<Rightarrow> Inr \<lparr>gs_config = config, gs_tokenMaker = jwt_maker (L, maker),
                          gs_taskDistributor = taskDistributor\<rparr>)"

definition authorizeUser :: "Maker \<Rightarrow> instant \<Rightarrow> grpc_ctx \<Rightarrow> Payload result" where
  "authorizeUser tokenMaker now ctx =
     (case cx_metadata ctx of
        None \<Rightarrow> Inl (Errorf ''missing metadata'' [])
      | Some md \<Rightarrow>
     (case md_get md ''authorization'' of
        [] \<Rightarrow> Inl (Errorf ''missing authorization header'' [])
      | header # _ \<Rightarrow>
          let flds = Fields header
          in if length flds < 2
             then Inl (Errorf ''invalid authorization header fomat'' [])
             else
               let authType = to_lower (flds ! 0)
               in if authType \<noteq> ''bearer''
                  then Inl (Errorf ''unsupported authorization type %s'' [FStr authType])
                  else case mk_VerifyToken tokenMaker now (flds ! 1) of
                         Inl err \<Rightarrow> Inl (Errorf ''invalid access token %s'' [FStr (flds ! 1)])
                       | Inr payload \<Rightarrow> Inr payload))"

subsection \<open>Validation of the requests\<close>

definition violation :: "string \<Rightarrow> go_error option \<Rightarrow> field_violation list" where
  "violation field err = (case err of None \<Rightarrow> [] | Some e \<Rightarrow> [fieldViolation field e])"

definition validateCreateUserRequest :: "(string \<Rightarrow> bool) \<Rightarrow> CreateUserRequest \<Rightarrow> field_violation list" where
  "validateCreateUserRequest pa req =
     violation ''username'' (ValidateUsername (cr_Username req)) @
     violation ''password'' (ValidatePassword (cr_Password req)) @
     violation ''full_name'' (ValidateFullName (cr_FullName req)) @
     violation ''email'' (ValidateEmail pa (cr_Email req))"

definition validateLoginUserRequest :: "LoginUserRequest \<Rightarrow> field_violation list" where
  "validateLoginUserRequest req =
     violation ''username'' (ValidateUsername (lq_Username req)) @
     violation ''password'' (ValidatePassword (lq_Password req))"

definition validateUpdateUserRequest :: "(string \<Rightarrow> bool) \<Rightarrow> UpdateUserRequest \<Rightarrow> field_violation list" where
  "validateUpdateUserRequest pa req =
     violation ''username'' (ValidateUsername (uq_Username req)) @
     (if uq_Password req \<noteq> None then violation ''password'' (ValidatePassword (GetPassword req)) else []) @
     (if uq_FullName req \<noteq> None then violation ''full_name'' (ValidateFullName (GetFullName req)) else []) @
     (if uq_Email req \<noteq> None then violation ''email'' (ValidateEmail pa (GetEmail req)) else [])"

subsection \<open>Handlers\<close>

record glibs =
  gl_parse_address :: "string \<Rightarrow> bool"
  gl_bcrypt :: bcrypt_lib
  gl_with_details :: "field_violation list \<Rightarrow> bool"

text \<open>rpc_create_user.go: the verification task is queued by the transaction's hook.\<close>

definition verify_email_opts :: "task_option list" where
  "verify_email_opts = [MaxRetry 10, ProcessIn (10 * 1000000000), Queue ''critical'']"

definition send_verify_email :: "'w gServer \<Rightarrow> User \<Rightarrow> 'w \<Rightarrow> go_error option \<times> 'w" where
  "send_verify_email server user =
     gs_taskDistributor server \<lparr>pve_Username = usr_Username user\<rparr> verify_email_opts"

definition gapi_CreateUser ::
  "glibs \<Rightarrow> 'w gServer \<Rightarrow> env \<Rightarrow> req_env \<Rightarrow> CreateUserRequest \<Rightarrow> 'w \<Rightarrow> conn
   \<Rightarrow> (grpc_status + pb_User) \<times> 'w \<times> conn"
where
  "gapi_CreateUser L server E rv req w c =
     (let violations = validateCreateUserRequest (gl_parse_address L) req
      in if violations \<noteq> [] then (Inl (invalidArgumentError (gl_with_details L) violations), w, c)
         else
     (case HashPassword (gl_bcrypt L) (rv_salt rv) (cr_Password req) of
        Inl err \<Rightarrow> (Inl (status_Errorf Internal ''failed to hash password %s '' [FErr err]), w, c)
      | Inr hashedPassword \<Rightarrow>
     (case CreateUserTx E \<lparr>cup_Username = cr_Username req, cup_HashedPassword = hashedPassword,
             cup_FullName = cr_FullName req, cup_Email = cr_Email req\<rparr> (send_verify_email server) w c of
        (((user, Some err), w1), c1) \<Rightarrow>
          (if errors_as_pq err = Some ''unique_violation''
           then (Inl (status_Errorf AlreadyExists ''username already exists %s '' [FErr err]), w1, c1)
           else (Inl (status_Errorf Internal ''failed to create user %s '' [FErr err]), w1, c1))
      | (((user, None), w1), c1) \<Rightarrow> (Inr (ConvertUser user), w1, c1))))"

text \<open>rpc_login_user.go.\<close>

definition gapi_LoginUser ::
  "glibs \<Rightarrow> 'w gServer \<Rightarrow> env \<Rightarrow> req_env \<Rightarrow> grpc_ctx \<Rightarrow> LoginUserRequest \<Rightarrow> conn
   \<Rightarrow> (grpc_status + LoginUserResponse) \<times> conn"
where
  "gapi_LoginUser L server E rv ctx req c =
     (let violations = validateLoginUserRequest req
      in if violations \<noteq> [] then (Inl (invalidArgumentError (gl_with_details L) violations), c)
         else
     (case GetUser E (lq_Username req) c of
        (Inl err, c1) \<Rightarrow>
          if errors_is err ErrNoRows
          then (Inl (status_Errorf NotFound ''user not found %s '' [FErr err]), c1)
          else (Inl (status_Errorf Internal ''failed to get user %s '' [FErr err]), c1)
      | (Inr user, c1) \<Rightarrow>
     (case CheckPassword (gl_bcrypt L) (lq_Password req) (usr_HashedPassword user) of
        Some err \<Rightarrow> (Inl (status_Errorf Unauthenticated ''invalid password %s '' [FErr err]), c1)
      | None \<Rightarrow>
     (case mk_CreateToken (gs_tokenMaker server) (rv_access rv) (usr_Username user)
             (AccessTokenDuration (gs_config server)) of
        Inl err \<Rightarrow> (Inl (status_Errorf Internal ''failed to create access token %s '' [FErr err]), c1)
      | Inr (accessToken, accessPayload) \<Rightarrow>
     (case mk_CreateToken (gs_tokenMaker server) (rv_refresh rv) (usr_Username user)
             (RefreshTokenDuration (gs_config server)) of
        Inl err \<Rightarrow> (Inl (status_Errorf Internal ''failed to create refresh token %s '' [FErr err]), c1)
      | Inr (refreshToken, refreshPayload) \<Rightarrow>
     (let metaData = extractMetaData ctx
      in case CreateSession E \<lparr>csp_ID = pl_ID refreshPayload, csp_Username = usr_Username user,
             csp_RefreshToken = refreshToken, csp_UserAgent = md_UserAgent metaData,
             csp_ClientIp = md_ClientIp metaData, csp_IsBlocked = False,
             csp_ExpiredAt = pl_ExpiredAt refreshPayload\<rparr> c1 of
        (Inl err, c2) \<Rightarrow> (Inl (status_Errorf Internal ''failed to create session %s '' [FErr err]), c2)
      | (Inr session, c2) \<Rightarrow>
          (Inr \<lparr>ls_User = ConvertUser user, ls_SessionId = ses_ID session, ls_AccessToken = accessToken,
                ls_RefreshToken = refreshToken, ls_AccessTokenExpiresAt = pl_ExpiredAt accessPayload,
                ls_RefreshTokenExpiresAt = pl_ExpiredAt refreshPayload\<rparr>, c2)))))))"

text \<open>rpc_update_user.go: only the fields that are present (and not empty) are updated.\<close>

definition null_string :: NullString where
  "null_string = \<lparr>ns_String = '''', ns_Valid = False\<rparr>"

definition null_time :: NullTime where
  "null_time = \<lparr>nt_Time = zero_time, nt_Valid = False\<rparr>"

definition update_args :: "UpdateUserRequest \<Rightarrow> UpdateUserParams" where
  "update_args req =
     \<lparr>uup_HashedPassword = null_string, uup_PasswordChangedAt = null_time,
      uup_FullName = \<lparr>ns_String = GetFullName req, ns_Valid = GetFullName req \<noteq> ''''\<rparr>,
      uup_Email = \<lparr>ns_String = GetEmail req, ns_Valid = GetEmail req \<noteq> ''''\<rparr>,
      uup_Username = uq_Username req\<rparr>"

definition fill_password :: "glibs \<Rightarrow> req_env \<Rightarrow> UpdateUserRequest \<Rightarrow> UpdateUserParams \<Rightarrow> UpdateUserParams result" where
  "fill_password L rv req args =
     (if uq_Password req = None then Inr args
      else case HashPassword (gl_bcrypt L) (rv_salt rv) (GetPassword req) of
             Inl err \<Rightarrow> Inl err
           | Inr hashedPassword \<Rightarrow>
               Inr (args\<lparr>uup_HashedPassword := \<lparr>ns_String = hashedPassword, ns_Valid = True\<rparr>,
                         uup_PasswordChangedAt := \<lparr>nt_Time = rv_now rv, nt_Valid = True\<rparr>\<rparr>))"

definition gapi_UpdateUser ::
  "glibs \<Rightarrow> 'w gServer \<Rightarrow> env \<Rightarrow> req_env \<Rightarrow> grpc_ctx \<Rightarrow> UpdateUserRequest \<Rightarrow> conn
   \<Rightarrow> (grpc_status + pb_User) \<times> conn"
where
  "gapi_UpdateUser L server E rv ctx req c =
     (case authorizeUser (gs_tokenMaker server) (rv_auth_now rv) ctx of
        Inl err \<Rightarrow> (Inl (unauthenticatedError err), c)
      | Inr payload \<Rightarrow>
     (let violations = validateUpdateUserRequest (gl_parse_address L) req
      in if violations \<noteq> [] then (Inl (invalidArgumentError (gl_with_details L) violations), c)
         else if pl_Username payload \<noteq> uq_Username req
         then (Inl (status_Errorf PermissionDenied ''cannot update other user's info'' []), c)
         else
     (case fill_password L rv req (update_args req) of
        Inl err \<Rightarrow> (Inl (status_Errorf Internal ''failed to hash password %s '' [FErr err]), c)
      | Inr args \<Rightarrow>
     (case UpdateUser E args c of
        (Inl err, c1) \<Rightarrow>
          if errors_is err ErrNoRows
          then (Inl (status_Errorf NotFound ''user not found %s '' [FErr err]), c1)
          else (Inl (status_Errorf Internal ''failed to update user %s '' [FErr err]), c1)
      | (Inr user, c1) \<Rightarrow> (Inr (ConvertUser user), c1)))))"

end
