(* ===== verification/Gapi_Logger.thy ===== *)
theory Gapi_Logger
  imports Gapi
begin

text \<open>
  The request loggers (gapi/logger.go). \<open>HttpLogger\<close> hands the handler a \<open>ResponseRecorder\<close> in place
  of the connection's writer: a handler is the sequence of calls it makes on its writer, and the
  writer below, net/http's, sends the first status it is given (200 when the body comes first).
  \<open>GRPCLogger\<close> is an interceptor: it runs a handler and logs its method, duration and status. A log
  line is a record of the fields in the code's order; the times a logger reads are its arguments.
\<close>

datatype write_call = WriteHeader nat | Write string

record ResponseRecorder =
  rec_calls :: "write_call list"
  rec_statusCode :: nat
  rec_Body :: string

definition recorder_WriteHeader :: "nat \<Rightarrow> ResponseRecorder \<Rightarrow> ResponseRecorder" where
  "recorder_WriteHeader code r = r\<lparr>rec_statusCode := code, rec_calls := rec_calls r @ [WriteHeader code]\<rparr>"

definition recorder_Write :: "string \<Rightarrow> ResponseRecorder \<Rightarrow> ResponseRecorder" where
  "recorder_Write body r = r\<lparr>rec_Body := body, rec_calls := rec_calls r @ [Write body]\<rparr>"

fun record_calls :: "write_call list \<Rightarrow> ResponseRecorder \<Rightarrow> ResponseRecorder" where
  "record_calls [] r = r"
| "record_calls (WriteHeader code # cs) r = record_calls cs (recorder_WriteHeader code r)"
| "record_calls (Write body # cs) r = record_calls cs (recorder_Write body r)"

datatype log_level = InfoLevel | ErrorLevel

record http_log =
  hl_level :: log_level
  hl_body :: "string option"
  hl_duration :: int
  hl_status_code :: nat
  hl_method :: string
  hl_path :: string

definition HttpLogger :: "instant \<Rightarrow> instant \<Rightarrow> string \<Rightarrow> string \<Rightarrow> write_call list \<Rightarrow> write_call list \<times> http_log" where
  "HttpLogger startTime now method uri handler =
     (let recorder = record_calls handler \<lparr>rec_calls = [], rec_statusCode = 200, rec_Body = ''''\<rparr>;
          logger = (if rec_statusCode recorder \<noteq> 200 then (ErrorLevel, Some (rec_Body recorder)) else (InfoLevel, None))
      in (rec_calls recorder,
          \<lparr>hl_level = fst logger, hl_body = snd logger, hl_duration = now - startTime,
           hl_status_code = rec_statusCode recorder, hl_method = method, hl_path = uri\<rparr>))"

text \<open>
  The error of a call is a status or, where a library returns one, any other error;
  \<open>status.FromError\<close> gives \<open>OK\<close> for nil and fails for an error that carries no status.
\<close>

datatype rpc_error = StatusError grpc_status | OtherError go_error

fun code_num :: "code \<Rightarrow> nat" where
  "code_num OK = 0"
| "code_num Unknown = 2"
| "code_num InvalidArgument = 3"
| "code_num NotFound = 5"
| "code_num AlreadyExists = 6"
| "code_num PermissionDenied = 7"
| "code_num Unimplemented = 12"
| "code_num Internal = 13"
| "code_num Unauthenticated = 16"

fun status_FromError :: "rpc_error option \<Rightarrow> code option" where
  "status_FromError None = Some OK"
| "status_FromError (Some (StatusError st)) = Some (st_Code st)"
| "status_FromError (Some (OtherError err)) = None"

record grpc_log =
  gl_level :: log_level
  gl_err :: "rpc_error option"
  gl_duration :: int
  gl_status_code :: nat
  gl_method :: string

type_synonym ('s, 'req, 'resp) rpc_handler = "grpc_ctx \<Rightarrow> 'req \<Rightarrow> 's \<Rightarrow> (rpc_error + 'resp) \<times> 's"

definition error_of :: "'e + 'a \<Rightarrow> 'e option" where
  "error_of r = (case r of Inl e \<Rightarrow> Some e | Inr _ \<Rightarrow> None)"

definition GRPCLogger ::
  "instant \<Rightarrow> instant \<Rightarrow> string \<Rightarrow> ('s, 'req, 'resp) rpc_handler \<Rightarrow> ('s \<times> grpc_log list, 'req, 'resp) rpc_handler"
where
  "GRPCLogger startTime now fullMethod handler ctx req sl =
     (case handler ctx req (fst sl) of
        (result, s') \<Rightarrow>
          (let err = error_of result;
               statusCode = (case status_FromError err of Some c \<Rightarrow> c | None \<Rightarrow> Unknown)
           in (result, s', snd sl @ [\<lparr>gl_level = (if err \<noteq> None then ErrorLevel else InfoLevel), gl_err = err,
                 gl_duration = now - startTime, gl_status_code = code_num statusCode, gl_method = fullMethod\<rparr>])))"

lemma GRPCLogger_result:
  "fst (GRPCLogger t u m h ctx req (s, l)) = fst (h ctx req s)"
  "fst (snd (GRPCLogger t u m h ctx req (s, l))) = snd (h ctx req s)"
  by (simp_all add: GRPCLogger_def Let_def split: prod.splits)

text \<open>The status net/http sends for a sequence of calls.\<close>

fun sent_status :: "write_call list \<Rightarrow> nat" where
  "sent_status [] = 200"
| "sent_status (WriteHeader code # cs) = code"
| "sent_status (Write body # cs) = 200"

fun header_once :: "write_call list \<Rightarrow> bool" where
  "header_once [] \<longleftrightarrow> True"
| "header_once (c # cs) \<longleftrightarrow> list_all (\<lambda>c. case c of WriteHeader _ \<Rightarrow> False | Write _ \<Rightarrow> True) cs"

lemma record_calls_forwards: "rec_calls (record_calls cs r) = rec_calls r @ cs"
  by (induction cs r rule: record_calls.induct) (simp_all add: recorder_WriteHeader_def recorder_Write_def)

lemma record_calls_body_only:
  "list_all (\<lambda>c. case c of WriteHeader _ \<Rightarrow> False | Write _ \<Rightarrow> True) cs \<Longrightarrow>
   rec_statusCode (record_calls cs r) = rec_statusCode r"
  by (induction cs r rule: record_calls.induct) (simp_all add: recorder_Write_def)

text \<open>
  Logging is transparent: the calls of the handler reach the connection unchanged and in order.
  The logged status is the one the client got whenever the handler sets the status at most once,
  before the body; only then (a second \<open>WriteHeader\<close> is logged but never sent).
\<close>

theorem HttpLogger_transparent:
  "fst (HttpLogger t u m uri handler) = handler \<and>
   (header_once handler \<longrightarrow> hl_status_code (snd (HttpLogger t u m uri handler)) = sent_status handler) \<and>
   hl_status_code (snd (HttpLogger t u m uri [WriteHeader a, WriteHeader b])) = b \<and> sent_status [WriteHeader a, WriteHeader b] = a"
proof -
  have "hl_status_code (snd (HttpLogger t u m uri handler)) = sent_status handler" if "header_once handler"
    using that by (cases handler rule: sent_status.cases)
      (simp_all add: HttpLogger_def Let_def record_calls_body_only recorder_WriteHeader_def recorder_Write_def)
  then show ?thesis
    by (simp add: HttpLogger_def Let_def record_calls_forwards recorder_WriteHeader_def)
qed

theorem HttpLogger_witness:
  "hl_status_code (snd (HttpLogger 0 5 ''GET'' ''/'' [WriteHeader 404, Write ''no'', Write ''thing''])) = 404"
  using HttpLogger_transparent [of 0 5 "''GET''" "''/''" "[WriteHeader 404, Write ''no'', Write ''thing'']" 0 0] by simp

end
