(* ===== verification/Service.thy ===== *)
theory Service
  imports Gapi_Logger
begin

text \<open>
  The generated service glue (pb/service_bank_grpc.pb.go): the interfaces \<open>BankServer\<close> and
  \<open>BankClient\<close>, the client stub, and the handlers by which the gRPC library calls the server,
  with the interceptor in between. A Go interface is a record of its methods, over a state \<open>'s\<close>;
  the gRPC transport (\<open>cc.Invoke\<close>, at each message type it is used at) is a parameter.
\<close>

subsection \<open>Servers\<close>

record 's BankServer =
  bs_CreateUser :: "('s, CreateUserRequest, pb_User) rpc_handler"
  bs_LoginUser :: "('s, LoginUserRequest, LoginUserResponse) rpc_handler"
  bs_UpdateUser :: "('s, UpdateUserRequest, pb_User) rpc_handler"

definition unimplemented :: "string \<Rightarrow> 's \<Rightarrow> (rpc_error + 'a) \<times> 's" where
  "unimplemented msg s = (Inl (StatusError (status_Errorf Unimplemented msg [])), s)"

definition UnimplementedBankServer :: "'s BankServer" where
  "UnimplementedBankServer =
     \<lparr>bs_CreateUser = (\<lambda>ctx req. unimplemented ''method CreateUser not implemented''),
      bs_LoginUser = (\<lambda>ctx req. unimplemented ''method LoginUser not implemented''),
      bs_UpdateUser = (\<lambda>ctx req. unimplemented ''method UpdateUser not implemented'')\<rparr>"

text \<open>
  package gapi's \<open>Server\<close> embeds \<open>UnimplementedBankServer\<close> and overrides all three methods; its
  state is the task queue and the database connection.
\<close>

definition returns_status :: "grpc_status + 'a \<Rightarrow> rpc_error + 'a" where
  "returns_status r = (case r of Inl st \<Rightarrow> Inl (StatusError st) | Inr x \<Rightarrow> Inr x)"

definition gapi_server :: "glibs \<Rightarrow> 'w gServer \<Rightarrow> env \<Rightarrow> req_env \<Rightarrow> ('w \<times> conn) BankServer" where
  "gapi_server G server E rv =
     UnimplementedBankServer
       \<lparr>bs_CreateUser := (\<lambda>ctx req (w, c). case gapi_CreateUser G server E rv req w c of
           (r, w', c') \<Rightarrow> (returns_status r, w', c')),
        bs_LoginUser := (\<lambda>ctx req (w, c). case gapi_LoginUser G server E rv ctx req c of
           (r, c') \<Rightarrow> (returns_status r, w, c')),
        bs_UpdateUser := (\<lambda>ctx req (w, c). case gapi_UpdateUser G server E rv ctx req c of
           (r, c') \<Rightarrow> (returns_status r, w, c'))\<rparr>"

subsection \<open>Method handlers and the service description\<close>

definition Bank_CreateUser_FullMethodName :: string where
  "Bank_CreateUser_FullMethodName = ''/pb.Bank/CreateUser''"

definition Bank_LoginUser_FullMethodName :: string where
  "Bank_LoginUser_FullMethodName = ''/pb.Bank/LoginUser''"

definition Bank_UpdateUser_FullMethodName :: string where
  "Bank_UpdateUser_FullMethodName = ''/pb.Bank/UpdateUser''"

text \<open>
  An interceptor gets the method's full name and the handler; it runs on the state with the log.
  \<open>dec\<close> is the decoded request, or the error of decoding it.
\<close>

type_synonym ('s, 'req, 'resp) interceptor =
  "string \<Rightarrow> ('s, 'req, 'resp) rpc_handler \<Rightarrow> ('s \<times> grpc_log list, 'req, 'resp) rpc_handler"

definition unlogged :: "('s, 'req, 'resp) rpc_handler \<Rightarrow> ('s \<times> grpc_log list, 'req, 'resp) rpc_handler" where
  "unlogged handler ctx req sl = (case handler ctx req (fst sl) of (r, s') \<Rightarrow> (r, s', snd sl))"

definition Bank_CreateUser_Handler ::
  "'s BankServer \<Rightarrow> grpc_ctx \<Rightarrow> rpc_error + CreateUserRequest \<Rightarrow> ('s, CreateUserRequest, pb_User) interceptor option
   \<Rightarrow> 's \<times> grpc_log list \<Rightarrow> (rpc_error + pb_User) \<times> 's \<times> grpc_log list"
where
  "Bank_CreateUser_Handler srv ctx dec icpt sl =
     (case dec of
        Inl err \<Rightarrow> (Inl err, sl)
      | Inr req \<Rightarrow>
     (case icpt of
        None \<Rightarrow> unlogged (bs_CreateUser srv) ctx req sl
      | Some interceptor \<Rightarrow> interceptor Bank_CreateUser_FullMethodName (bs_CreateUser srv) ctx req sl))"

definition Bank_LoginUser_Handler ::
  "'s BankServer \<Rightarrow> grpc_ctx \<Rightarrow> rpc_error + LoginUserRequest \<Rightarrow> ('s, LoginUserRequest, LoginUserResponse) interceptor option
   \<Rightarrow> 's \<times> grpc_log list \<Rightarrow> (rpc_error + LoginUserResponse) \<times> 's \<times> grpc_log list"
where
  "Bank_LoginUser_Handler srv ctx dec icpt sl =
     (case dec of
        Inl err \<Rightarrow> (Inl err, sl)
      | Inr req \<Rightarrow>
     (case icpt of
        None \<Rightarrow> unlogged (bs_LoginUser srv) ctx req sl
      | Some interceptor \<Rightarrow> interceptor Bank_LoginUser_FullMethodName (bs_LoginUser srv) ctx req sl))"

definition Bank_UpdateUser_Handler ::
  "'s BankServer \<Rightarrow> grpc_ctx \<Rightarrow> rpc_error + UpdateUserRequest \<Rightarrow> ('s, UpdateUserRequest, pb_User) interceptor option
   \<Rightarrow> 's \<times> grpc_log list \<Rightarrow> (rpc_error + pb_User) \<times> 's \<times> grpc_log list"
where
  "Bank_UpdateUser_Handler srv ctx dec icpt sl =
     (case dec of
        Inl err \<Rightarrow> (Inl err, sl)
      | Inr req \<Rightarrow>
     (case icpt of
        None \<Rightarrow> unlogged (bs_UpdateUser srv) ctx req sl
      | Some interceptor \<Rightarrow> interceptor Bank_UpdateUser_FullMethodName (bs_UpdateUser srv) ctx req sl))"

datatype rpc_method = CreateUserMethod | LoginUserMethod | UpdateUserMethod

definition Bank_ServiceDesc :: "string \<times> (string \<times> rpc_method) list" where
  "Bank_ServiceDesc = (''pb.Bank'',
     [(''CreateUser'', CreateUserMethod), (''LoginUser'', LoginUserMethod), (''UpdateUser'', UpdateUserMethod)])"

text \<open>The full names the client stubs and the log use are those the service description registers.\<close>

lemma full_method_names:
  "map (\<lambda>(m, h). ''/'' @ fst Bank_ServiceDesc @ ''/'' @ m) (snd Bank_ServiceDesc) =
   [Bank_CreateUser_FullMethodName, Bank_LoginUser_FullMethodName, Bank_UpdateUser_FullMethodName]"
  by (simp add: Bank_ServiceDesc_def Bank_CreateUser_FullMethodName_def Bank_LoginUser_FullMethodName_def
      Bank_UpdateUser_FullMethodName_def)

subsection \<open>Clients\<close>

text \<open>\<open>Invoke\<close> fills the message \<open>out\<close> and returns an error; the stub drops the message on an error.\<close>

type_synonym ('s, 'req, 'resp) invoke =
  "grpc_ctx \<Rightarrow> string \<Rightarrow> 'req \<Rightarrow> 's \<Rightarrow> (rpc_error option \<times> 'resp) \<times> 's"

record 's ClientConn =
  cc_CreateUser :: "('s, CreateUserRequest, pb_User) invoke"
  cc_LoginUser :: "('s, LoginUserRequest, LoginUserResponse) invoke"
  cc_UpdateUser :: "('s, UpdateUserRequest, pb_User) invoke"

type_synonym 's BankClient = "'s BankServer"

definition client_CreateUser :: "'s ClientConn \<Rightarrow> ('s, CreateUserRequest, pb_User) rpc_handler" where
  "client_CreateUser cc ctx req s =
     (case cc_CreateUser cc ctx Bank_CreateUser_FullMethodName req s of
        ((Some err, out), s') \<Rightarrow> (Inl err, s')
      | ((None, out), s') \<Rightarrow> (Inr out, s'))"

definition client_LoginUser :: "'s ClientConn \<Rightarrow> ('s, LoginUserRequest, LoginUserResponse) rpc_handler" where
  "client_LoginUser cc ctx req s =
     (case cc_LoginUser cc ctx Bank_LoginUser_FullMethodName req s of
        ((Some err, out), s') \<Rightarrow> (Inl err, s')
      | ((None, out), s') \<Rightarrow> (Inr out, s'))"

definition client_UpdateUser :: "'s ClientConn \<Rightarrow> ('s, UpdateUserRequest, pb_User) rpc_handler" where
  "client_UpdateUser cc ctx req s =
     (case cc_UpdateUser cc ctx Bank_UpdateUser_FullMethodName req s of
        ((Some err, out), s') \<Rightarrow> (Inl err, s')
      | ((None, out), s') \<Rightarrow> (Inr out, s'))"

definition NewBankClient :: "'s ClientConn \<Rightarrow> 's BankClient" where
  "NewBankClient cc =
     \<lparr>bs_CreateUser = client_CreateUser cc, bs_LoginUser = client_LoginUser cc, bs_UpdateUser = client_UpdateUser cc\<rparr>"

end
