(* ===== verification/Gateway.thy ===== *)
theory Gateway
  imports Service
begin

text \<open>
  The generated HTTP gateway (pb/service_bank.pb.gw.go): it decodes the body of a request, calls the
  server directly (\<open>RegisterBankHandlerServer\<close>, which main.go uses) or over a client stub
  (\<open>RegisterBankHandlerClient\<close>), and forwards the message or the error. The runtime of grpc-gateway
  (reading and decoding a body, annotating the context, matching a pattern, writing the reply) is a
  parameter; a raw request is of type \<open>'r\<close>.
\<close>

subsection \<open>The runtime\<close>

record Pattern =
  pt_version :: nat
  pt_ops :: "nat list"
  pt_pool :: "string list"
  pt_verb :: string

record 'r gw_runtime =
  gw_IOReaderFactory :: "'r \<Rightarrow> string result"
  gw_decode_CreateUser :: "string \<Rightarrow> go_error option \<times> CreateUserRequest"
  gw_decode_LoginUser :: "string \<Rightarrow> go_error option \<times> LoginUserRequest"
  gw_decode_UpdateUser :: "string \<Rightarrow> go_error option \<times> UpdateUserRequest"
  gw_AnnotateIncomingContext :: "'r \<Rightarrow> string \<Rightarrow> string \<Rightarrow> grpc_ctx result"
  gw_AnnotateContext :: "'r \<Rightarrow> string \<Rightarrow> string \<Rightarrow> grpc_ctx result"
  gw_match :: "Pattern \<Rightarrow> string \<Rightarrow> bool"

text \<open>
  Opcode 2 pushes a literal of the pool: a pattern of two such opcodes is a path of two literals, if these
  hold no separator (the runtime splits a path at slashes and its last part at a colon).
\<close>

definition plain_literal :: "string \<Rightarrow> bool" where
  "plain_literal a \<longleftrightarrow> CHR ''/'' \<notin> set a \<and> CHR '':'' \<notin> set a"

definition literal_patterns :: "'r gw_runtime \<Rightarrow> bool" where
  "literal_patterns L \<longleftrightarrow> (\<forall>a b path. plain_literal a \<longrightarrow> plain_literal b \<longrightarrow>
     (gw_match L \<lparr>pt_version = 1, pt_ops = [2, 0, 2, 1], pt_pool = [a, b], pt_verb = ''''\<rparr> path \<longleftrightarrow>
      path = ''/'' @ a @ ''/'' @ b))"

datatype gw_message = CreateUserOut pb_User | LoginUserOut LoginUserResponse | UpdateUserOut pb_User

datatype gw_reply = HTTPError rpc_error | ForwardResponseMessage gw_message | NoRoute

text \<open>The first half of the request functions: decode the body; an empty body is the zero message.\<close>

definition gw_decoded :: "'r gw_runtime \<Rightarrow> (string \<Rightarrow> go_error option \<times> 'req) \<Rightarrow> 'r \<Rightarrow> rpc_error + 'req" where
  "gw_decoded L decode req =
     (case gw_IOReaderFactory L req of
        Inl berr \<Rightarrow> Inl (StatusError (status_Errorf InvalidArgument ''%v'' [FErr berr]))
      | Inr body \<Rightarrow>
     (case decode body of
        (Some err, protoReq) \<Rightarrow>
          if err \<noteq> ErrEOF then Inl (StatusError (status_Errorf InvalidArgument ''%v'' [FErr err])) else Inr protoReq
      | (None, protoReq) \<Rightarrow> Inr protoReq))"

subsection \<open>Request functions\<close>

definition local_request_Bank_CreateUser_0 ::
  "'r gw_runtime \<Rightarrow> grpc_ctx \<Rightarrow> 's BankServer \<Rightarrow> 'r \<Rightarrow> 's \<Rightarrow> (rpc_error + pb_User) \<times> 's"
where
  "local_request_Bank_CreateUser_0 L ctx server req s =
     (case gw_decoded L (gw_decode_CreateUser L) req of
        Inl err \<Rightarrow> (Inl err, s)
      | Inr protoReq \<Rightarrow> bs_CreateUser server ctx protoReq s)"

definition local_request_Bank_LoginUser_0 ::
  "'r gw_runtime \<Rightarrow> grpc_ctx \<Rightarrow> 's BankServer \<Rightarrow> 'r \<Rightarrow> 's \<Rightarrow> (rpc_error + LoginUserResponse) \<times> 's"
where
  "local_request_Bank_LoginUser_0 L ctx server req s =
     (case gw_decoded L (gw_decode_LoginUser L) req of
        Inl err \<Rightarrow> (Inl err, s)
      | Inr protoReq \<Rightarrow> bs_LoginUser server ctx protoReq s)"

definition local_request_Bank_UpdateUser_0 ::
  "'r gw_runtime \<Rightarrow> grpc_ctx \<Rightarrow> 's BankServer \<Rightarrow> 'r \<Rightarrow> 's \<Rightarrow> (rpc_error + pb_User) \<times> 's"
where
  "local_request_Bank_UpdateUser_0 L ctx server req s =
     (case gw_decoded L (gw_decode_UpdateUser L) req of
        Inl err \<Rightarrow> (Inl err, s)
      | Inr protoReq \<Rightarrow> bs_UpdateUser server ctx protoReq s)"

definition request_Bank_CreateUser_0 ::
  "'r gw_runtime \<Rightarrow> grpc_ctx \<Rightarrow> 's BankClient \<Rightarrow> 'r \<Rightarrow> 's \<Rightarrow> (rpc_error + pb_User) \<times> 's"
where
  "request_Bank_CreateUser_0 L ctx client req s =
     (case gw_decoded L (gw_decode_CreateUser L) req of
        Inl err \<Rightarrow> (Inl err, s)
      | Inr protoReq \<Rightarrow> bs_CreateUser client ctx protoReq s)"

definition request_Bank_LoginUser_0 ::
  "'r gw_runtime \<Rightarrow> grpc_ctx \<Rightarrow> 's BankClient \<Rightarrow> 'r \<Rightarrow> 's \<Rightarrow> (rpc_error + LoginUserResponse) \<times> 's"
where
  "request_Bank_LoginUser_0 L ctx client req s =
     (case gw_decoded L (gw_decode_LoginUser L) req of
        Inl err \<Rightarrow> (Inl err, s)
      | Inr protoReq \<Rightarrow> bs_LoginUser client ctx protoReq s)"

definition request_Bank_UpdateUser_0 ::
  "'r gw_runtime \<Rightarrow> grpc_ctx \<Rightarrow> 's BankClient \<Rightarrow> 'r \<Rightarrow> 's \<Rightarrow> (rpc_error + pb_User) \<times> 's"
where
  "request_Bank_UpdateUser_0 L ctx client req s =
     (case gw_decoded L (gw_decode_UpdateUser L) req of
        Inl err \<Rightarrow> (Inl err, s)
      | Inr protoReq \<Rightarrow> bs_UpdateUser client ctx protoReq s)"

subsection \<open>Registered handlers\<close>

type_synonym ('r, 's) gw_handler = "'r \<Rightarrow> 's \<Rightarrow> gw_reply \<times> 's"

text \<open>The end of every handler: an error becomes \<open>HTTPError\<close>, a message is forwarded.\<close>

definition gw_reply_of :: "('a \<Rightarrow> gw_message) \<Rightarrow> (rpc_error + 'a) \<times> 's \<Rightarrow> gw_reply \<times> 's" where
  "gw_reply_of msg rs =
     (case rs of (Inl err, s) \<Rightarrow> (HTTPError err, s) | (Inr resp, s) \<Rightarrow> (ForwardResponseMessage (msg resp), s))"

definition server_CreateUser_0 :: "'r gw_runtime \<Rightarrow> 's BankServer \<Rightarrow> ('r, 's) gw_handler" where
  "server_CreateUser_0 L server req s =
     (case gw_AnnotateIncomingContext L req ''/pb.Bank/CreateUser'' ''/v1/create_user'' of
        Inl err \<Rightarrow> (HTTPError (OtherError err), s)
      | Inr annotatedContext \<Rightarrow>
          gw_reply_of CreateUserOut (local_request_Bank_CreateUser_0 L annotatedContext server req s))"

definition server_LoginUser_0 :: "'r gw_runtime \<Rightarrow> 's BankServer \<Rightarrow> ('r, 's) gw_handler" where
  "server_LoginUser_0 L server req s =
     (case gw_AnnotateIncomingContext L req ''/pb.Bank/LoginUser'' ''/v1/login_user'' of
        Inl err \<Rightarrow> (HTTPError (OtherError err), s)
      | Inr annotatedContext \<Rightarrow>
          gw_reply_of LoginUserOut (local_request_Bank_LoginUser_0 L annotatedContext server req s))"

definition server_UpdateUser_0 :: "'r gw_runtime \<Rightarrow> 's BankServer \<Rightarrow> ('r, 's) gw_handler" where
  "server_UpdateUser_0 L server req s =
     (case gw_AnnotateIncomingContext L req ''/pb.Bank/UpdateUser'' ''/v1/update_user'' of
        Inl err \<Rightarrow> (HTTPError (OtherError err), s)
      | Inr annotatedContext \<Rightarrow>
          gw_reply_of UpdateUserOut (local_request_Bank_UpdateUser_0 L annotatedContext server req s))"

definition client_CreateUser_0 :: "'r gw_runtime \<Rightarrow> 's BankClient \<Rightarrow> ('r, 's) gw_handler" where
  "client_CreateUser_0 L client req s =
     (case gw_AnnotateContext L req ''/pb.Bank/CreateUser'' ''/v1/create_user'' of
        Inl err \<Rightarrow> (HTTPError (OtherError err), s)
      | Inr annotatedContext \<Rightarrow>
          gw_reply_of CreateUserOut (request_Bank_CreateUser_0 L annotatedContext client req s))"

definition client_LoginUser_0 :: "'r gw_runtime \<Rightarrow> 's BankClient \<Rightarrow> ('r, 's) gw_handler" where
  "client_LoginUser_0 L client req s =
     (case gw_AnnotateContext L req ''/pb.Bank/LoginUser'' ''/v1/login_user'' of
        Inl err \<Rightarrow> (HTTPError (OtherError err), s)
      | Inr annotatedContext \<Rightarrow>
          gw_reply_of LoginUserOut (request_Bank_LoginUser_0 L annotatedContext client req s))"

definition client_UpdateUser_0 :: "'r gw_runtime \<Rightarrow> 's BankClient \<Rightarrow> ('r, 's) gw_handler" where
  "client_UpdateUser_0 L client req s =
     (case gw_AnnotateContext L req ''/pb.Bank/UpdateUser'' ''/v1/update_user'' of
        Inl err \<Rightarrow> (HTTPError (OtherError err), s)
      | Inr annotatedContext \<Rightarrow>
          gw_reply_of UpdateUserOut (request_Bank_UpdateUser_0 L annotatedContext client req s))"

definition pattern_Bank_CreateUser_0 :: Pattern where
  "pattern_Bank_CreateUser_0 = \<lparr>pt_version = 1, pt_ops = [2, 0, 2, 1], pt_pool = [''v1'', ''create_user''], pt_verb = ''''\<rparr>"

definition pattern_Bank_LoginUser_0 :: Pattern where
  "pattern_Bank_LoginUser_0 = \<lparr>pt_version = 1, pt_ops = [2, 0, 2, 1], pt_pool = [''v1'', ''login_user''], pt_verb = ''''\<rparr>"

definition pattern_Bank_UpdateUser_0 :: Pattern where
  "pattern_Bank_UpdateUser_0 = \<lparr>pt_version = 1, pt_ops = [2, 0, 2, 1], pt_pool = [''v1'', ''update_user''], pt_verb = ''''\<rparr>"

type_synonym ('r, 's) gw_mux = "(string \<times> Pattern \<times> ('r, 's) gw_handler) list"

definition RegisterBankHandlerServer :: "'r gw_runtime \<Rightarrow> 's BankServer \<Rightarrow> ('r, 's) gw_mux \<Rightarrow> ('r, 's) gw_mux" where
  "RegisterBankHandlerServer L server mux =
     mux @ [(''POST'', pattern_Bank_CreateUser_0, server_CreateUser_0 L server),
            (''POST'', pattern_Bank_LoginUser_0, server_LoginUser_0 L server),
            (''PATCH'', pattern_Bank_UpdateUser_0, server_UpdateUser_0 L server)]"

definition RegisterBankHandlerClient :: "'r gw_runtime \<Rightarrow> 's BankClient \<Rightarrow> ('r, 's) gw_mux \<Rightarrow> ('r, 's) gw_mux" where
  "RegisterBankHandlerClient L client mux =
     mux @ [(''POST'', pattern_Bank_CreateUser_0, client_CreateUser_0 L client),
            (''POST'', pattern_Bank_LoginUser_0, client_LoginUser_0 L client),
            (''PATCH'', pattern_Bank_UpdateUser_0, client_UpdateUser_0 L client)]"

definition RegisterBankHandler :: "'r gw_runtime \<Rightarrow> 's ClientConn \<Rightarrow> ('r, 's) gw_mux \<Rightarrow> ('r, 's) gw_mux" where
  "RegisterBankHandler L conn mux = RegisterBankHandlerClient L (NewBankClient conn) mux"

text \<open>
  \<open>RegisterBankHandlerFromEndpoint\<close> dials first. Registration itself never fails, so the deferred function
  leaves the new connection open until the context is done: it is the third component.
\<close>

definition RegisterBankHandlerFromEndpoint ::
  "'r gw_runtime \<Rightarrow> (string \<Rightarrow> 's ClientConn result) \<Rightarrow> string \<Rightarrow> ('r, 's) gw_mux
   \<Rightarrow> go_error option \<times> ('r, 's) gw_mux \<times> 's ClientConn option"
where
  "RegisterBankHandlerFromEndpoint L DialContext endpoint mux =
     (case DialContext endpoint of
        Inl err \<Rightarrow> (Some err, mux, None)
      | Inr conn \<Rightarrow> (None, RegisterBankHandler L conn mux, Some conn))"

text \<open>The mux runs the handler of the route with the request's method whose pattern matches the path.\<close>

definition gw_ServeHTTP :: "'r gw_runtime \<Rightarrow> ('r, 's) gw_mux \<Rightarrow> string \<Rightarrow> string \<Rightarrow> ('r, 's) gw_handler" where
  "gw_ServeHTTP L mux method path req s =
     (case find (\<lambda>(m, p, h). m = method \<and> gw_match L p path) mux of
        None \<Rightarrow> (NoRoute, s)
      | Some (m, p, h) \<Rightarrow> h req s)"

lemmas gw_patterns = pattern_Bank_CreateUser_0_def pattern_Bank_LoginUser_0_def pattern_Bank_UpdateUser_0_def

lemmas local_requests = local_request_Bank_CreateUser_0_def local_request_Bank_LoginUser_0_def
  local_request_Bank_UpdateUser_0_def

lemmas client_requests = request_Bank_CreateUser_0_def request_Bank_LoginUser_0_def request_Bank_UpdateUser_0_def

lemma gw_matches:
  assumes "literal_patterns L"
  shows "gw_match L pattern_Bank_CreateUser_0 path \<longleftrightarrow> path = ''/v1/create_user''"
    and "gw_match L pattern_Bank_LoginUser_0 path \<longleftrightarrow> path = ''/v1/login_user''"
    and "gw_match L pattern_Bank_UpdateUser_0 path \<longleftrightarrow> path = ''/v1/update_user''"
proof -
  have "plain_literal ''v1''" "plain_literal ''create_user''" "plain_literal ''login_user''" "plain_literal ''update_user''"
    by (simp_all add: plain_literal_def)
  with assms show "gw_match L pattern_Bank_CreateUser_0 path \<longleftrightarrow> path = ''/v1/create_user''"
    "gw_match L pattern_Bank_LoginUser_0 path \<longleftrightarrow> path = ''/v1/login_user''"
    "gw_match L pattern_Bank_UpdateUser_0 path \<longleftrightarrow> path = ''/v1/update_user''"
    by (simp_all add: literal_patterns_def gw_patterns)
qed

lemma gw_routes:
  assumes "literal_patterns L"
  shows "gw_ServeHTTP L (RegisterBankHandlerServer L server []) method path =
    (if method = ''POST'' \<and> path = ''/v1/create_user'' then server_CreateUser_0 L server
     else if method = ''POST'' \<and> path = ''/v1/login_user'' then server_LoginUser_0 L server
     else if method = ''PATCH'' \<and> path = ''/v1/update_user'' then server_UpdateUser_0 L server
     else (\<lambda>req s. (NoRoute, s)))"
  by (auto simp: fun_eq_iff gw_ServeHTTP_def RegisterBankHandlerServer_def gw_matches [OF assms])

text \<open>A request changes the state only as one call of the server does, whatever the route and the body.\<close>

lemma gateway_runs_one_call:
  assumes "gw_ServeHTTP L (RegisterBankHandlerServer L server []) method path req s = (resp, s')"
  shows "s' = s \<or> (\<exists>ctx m r. bs_CreateUser server ctx m s = (r, s')) \<or>
    (\<exists>ctx m r. bs_LoginUser server ctx m s = (r, s')) \<or> (\<exists>ctx m r. bs_UpdateUser server ctx m s = (r, s'))"
  using assms
  by (auto simp: gw_ServeHTTP_def RegisterBankHandlerServer_def server_CreateUser_0_def server_LoginUser_0_def
      server_UpdateUser_0_def gw_reply_of_def local_requests split: option.splits sum.splits prod.splits if_splits)

end
