(* ===== verification/Http_Keeps.thy ===== *)
theory Http_Keeps
  imports Http_Api
begin

text \<open>
  What every handler of the HTTP server does to the connection: the pool is left outside a
  transaction and the bank invariant holds again. One lemma per handler, then the dispatcher.
\<close>

lemmas http_splits = sum.splits prod.splits option.splits if_splits

lemma bind_currency:
  "should_bind email createAccountRequest_tags decoded = Inr req \<Longrightarrow> IsSupportCurrency (car_Currency req)"
  by (simp add: should_bind_Inr tags_ok_def createAccountRequest_tags_def validCurrency_def)

lemma bind_amount: "should_bind email transferRequest_tags decoded = Inr req \<Longrightarrow> 0 < sint (trq_Amount req)"
  by (simp add: should_bind_Inr tags_ok_def transferRequest_tags_def)

lemma CreateAccount_serves_bank:
  "cap_Balance p = 0 \<Longrightarrow> IsSupportCurrency (cap_Currency p) \<Longrightarrow> serves bank_inv (CreateAccount E p)"
  unfolding CreateAccount_def by (intro bank.query_row_serves bank_sql_create_account)

lemma createAccount_serves: "serves bank_inv (api_createAccount L E p decoded)"
proof (rule servesI)
  fix c x c'
  assume run: "api_createAccount L E p decoded c = (x, c')" and c: "c_tx c = Autocommit" "bank_inv (c_db c)"
  show "c_tx c' = Autocommit \<and> bank_inv (c_db c')"
  proof (cases "should_bind (lib_email_tag L) createAccountRequest_tags decoded")
    case (Inr req)
    have "serves bank_inv (CreateAccount E \<lparr>cap_Owner = n, cap_Balance = 0, cap_Currency = car_Currency req\<rparr>)" for n
      by (rule CreateAccount_serves_bank) (simp_all add: bind_currency [OF Inr])
    from servesD [OF this] run Inr c show ?thesis
      by (auto simp: api_createAccount_def split: http_splits)
  qed (use run c in \<open>simp add: api_createAccount_def\<close>)
qed

lemma getAccount_conn:
  "api_getAccount L E p decoded c = (x, c') \<Longrightarrow> c_tx c = Autocommit \<Longrightarrow> c' = c \<or> c' = ticked c"
  by (auto simp: api_getAccount_def split: http_splits dest: GetAccount_read(1))

lemma listAccount_conn:
  "api_listAccount L E p decoded c = (x, c') \<Longrightarrow> c_tx c = Autocommit \<Longrightarrow> c' = c \<or> c' = ticked c"
  by (auto simp: api_listAccount_def split: http_splits dest: ListAccounts_read(1))

lemma reNewAccessToken_conn:
  "api_reNewAccessToken L srv E rv decoded c = (x, c') \<Longrightarrow> c_tx c = Autocommit \<Longrightarrow> c' = c \<or> c' = ticked c"
  by (auto simp: api_reNewAccessToken_def split: http_splits dest: GetSession_read(1))

lemma conn_serves:
  "(\<And>c x c'. f c = (x, c') \<Longrightarrow> c_tx c = Autocommit \<Longrightarrow> c' = c \<or> c' = ticked c) \<Longrightarrow> serves I f"
  by (rule servesI) force

lemma getAccount_serves: "serves bank_inv (api_getAccount L E p decoded)"
  by (rule conn_serves) (rule getAccount_conn)

lemma listAccount_serves: "serves bank_inv (api_listAccount L E p decoded)"
  by (rule conn_serves) (rule listAccount_conn)

lemma reNewAccessToken_serves: "serves bank_inv (api_reNewAccessToken L srv E rv decoded)"
  by (rule conn_serves) (rule reNewAccessToken_conn)

lemma createUser_serves: "serves bank_inv (api_createUser L E rv decoded)"
proof (rule servesI)
  fix c x c'
  assume "api_createUser L E rv decoded c = (x, c')" and c: "c_tx c = Autocommit" "bank_inv (c_db c)"
  then consider "c' = c" | arg r where "CreateUser E arg c = (r, c')"
    by (auto simp: api_createUser_def split: http_splits)
  then show "c_tx c' = Autocommit \<and> bank_inv (c_db c')"
    using c servesD [OF bank_serves(1)] by cases auto
qed

lemma loginUser_serves: "serves bank_inv (api_loginUser L srv E rv ua ip decoded)"
proof (rule servesI)
  fix c x c'
  assume "api_loginUser L srv E rv ua ip decoded c = (x, c')" and c: "c_tx c = Autocommit" "bank_inv (c_db c)"
  then consider "c' = c" | n r where "GetUser E n c = (r, c')"
    | n r c1 arg r' where "GetUser E n c = (r, c1)" "CreateSession E arg c1 = (r', c')"
    by (auto simp: api_loginUser_def split: http_splits)
  then show "c_tx c' = Autocommit \<and> bank_inv (c_db c')"
    using c servesD [OF bank_serves(7)] servesD [OF bank_serves(3)] by cases (blast | simp)+
qed

subsection \<open>Creating a transfer\<close>

lemma validAccount_read:
  assumes "c_tx c = Autocommit" and "api_validAccount E i currency c = (r, c')"
  shows "c' = ticked c"
    and "r = Inr a \<Longrightarrow> row_of acc_ID i (accounts (c_db c)) = Some a \<and> acc_Currency a = currency"
  using assms by (auto simp: api_validAccount_def split: http_splits dest: GetAccount_read)

text \<open>Either the transfer was checked and handed to the store, or the tables were only read.\<close>

lemma validAccount_status:
  "api_validAccount E i currency c = (Inl resp, c') \<Longrightarrow> fst resp \<noteq> StatusOK"
  by (auto simp: api_validAccount_def errResponse_def split: http_splits)

lemma createTransfer_cases:
  assumes run: "api_createTransfer L E p decoded c = (resp, c')" and auto: "c_tx c = Autocommit"
  obtains (rejected) "fst resp \<noteq> StatusOK" "c' = c \<or> c' = ticked c \<or> c' = ticked (ticked c)"
  | (transfer) req payload a b result err where
      "should_bind (lib_email_tag L) transferRequest_tags decoded = Inr req" "p = Some payload"
      "row_of acc_ID (trq_FromAccountID req) (accounts (c_db c)) = Some a"
      "row_of acc_ID (trq_ToAccountID req) (accounts (c_db c)) = Some b"
      "acc_Currency a = trq_Currency req" "acc_Currency b = trq_Currency req"
      "acc_Owner a = pl_Username payload"
      "TransferTx E \<lparr>ttp_FromAccountID = trq_FromAccountID req,
         ttp_ToAccountID = trq_ToAccountID req, ttp_Amount = trq_Amount req\<rparr> (ticked (ticked c))
       = ((result, err), c')"
      "resp = (case err of None \<Rightarrow> (StatusOK, TransferBody result)
                         | Some e \<Rightarrow> errResponse StatusInternalServerError e)"
proof (cases "should_bind (lib_email_tag L) transferRequest_tags decoded")
  case Inl
  with run show ?thesis by (intro rejected) (auto simp: api_createTransfer_def errResponse_def)
next
  case bound: (Inr req)
  obtain r1 c1 where v1: "api_validAccount E (trq_FromAccountID req) (trq_Currency req) c = (r1, c1)"
    by fastforce
  note c1 = validAccount_read(1) [OF auto v1]
  obtain r2 c2 where v2: "api_validAccount E (trq_ToAccountID req) (trq_Currency req) c1 = (r2, c2)"
    by fastforce
  have c2: "c2 = ticked (ticked c)"
    using validAccount_read(1) [OF _ v2] c1 auto by simp
  show ?thesis
  proof (cases "\<exists>a b payload. r1 = Inr a \<and> r2 = Inr b \<and> p = Some payload \<and> acc_Owner a = pl_Username payload")
    case True
    then obtain a b payload where r: "r1 = Inr a" "r2 = Inr b" "p = Some payload"
      and owner: "acc_Owner a = pl_Username payload" by blast
    obtain result err c3 where tx: "TransferTx E \<lparr>ttp_FromAccountID = trq_FromAccountID req,
         ttp_ToAccountID = trq_ToAccountID req, ttp_Amount = trq_Amount req\<rparr> c2 = ((result, err), c3)"
      by (metis prod.exhaust)
    have "resp = (case err of None \<Rightarrow> (StatusOK, TransferBody result)
                   | Some e \<Rightarrow> errResponse StatusInternalServerError e) \<and> c' = c3"
      using run bound v1 v2 r owner tx by (auto simp: api_createTransfer_def split: option.splits)
    then show ?thesis
      using validAccount_read(2) [OF auto v1 r(1)] validAccount_read(2) [OF _ v2 r(2)] bound tx owner r(3) c1 c2 auto
      by (intro transfer) auto
  next
    case False
    with run bound v1 v2 c1 c2 show ?thesis
      by (intro rejected) (auto simp: api_createTransfer_def errResponse_def panic_response_def
          split: http_splits dest: validAccount_status)
  qed
qed

lemma createTransfer_serves: "serves bank_inv (api_createTransfer L E p decoded)"
proof (rule servesI)
  fix c x c'
  assume run: "api_createTransfer L E p decoded c = (x, c')" and c: "c_tx c = Autocommit" "bank_inv (c_db c)"
  show "c_tx c' = Autocommit \<and> bank_inv (c_db c')"
    using run c(1)
  proof (cases rule: createTransfer_cases)
    case rejected
    with c show ?thesis by auto
  next
    case (transfer req payload a b result err)
    show ?thesis
      by (rule TransferTx_keeps_bank [OF _ _ transfer(8)])
        (use c transfer bind_amount [OF transfer(1)] in \<open>auto simp: same_currency_def currency_of_def\<close>)
  qed
qed

subsection \<open>The dispatcher\<close>

lemma dispatch_serves: "serves bank_inv (dispatch L srv E rv p req)"
proof (cases req)
  case (LoginUserReq ua ip r)
  then show ?thesis using loginUser_serves by (simp add: serves_def)
qed (use createUser_serves reNewAccessToken_serves createAccount_serves getAccount_serves
    listAccount_serves createTransfer_serves in \<open>simp_all add: serves_def\<close>)

lemma serve_serves: "serves bank_inv (serve L srv E rv h req)"
  by (rule servesI)
    (auto simp: serve_def split: http_splits dest: servesD [OF dispatch_serves])

end
