(* ===== verification/Sample_Libs.thy ===== *)
theory Sample_Libs
  imports Token Util
begin

text \<open>
  Concrete libraries that have the documented behaviour the development relies on, so that the
  hypotheses on libraries are known to be satisfiable and the properties can be evaluated: token
  libraries that know finitely many signed tokens, and a hash function for bcrypt.
\<close>

subsection \<open>Token libraries\<close>

type_synonym token_table = "(string \<times> Payload \<times> string) list"

definition token_for :: "token_table \<Rightarrow> string \<Rightarrow> Payload \<Rightarrow> string result" where
  "token_for tbl key p =
     (case find (\<lambda>(k, q, t). k = key \<and> q = p) tbl of
        None \<Rightarrow> Inl (ExtError ''no token'')
      | Some (k, q, t) \<Rightarrow> Inr t)"

definition token_entry :: "token_table \<Rightarrow> string \<Rightarrow> (string \<times> Payload) option" where
  "token_entry tbl t = map_option (\<lambda>(k, q, u). (k, q)) (find (\<lambda>(k, q, u). u = t) tbl)"

definition table_jwt :: "token_table \<Rightarrow> jwt_lib" where
  "table_jwt tbl =
     \<lparr>jwt_sign = token_for tbl,
      jwt_method = (\<lambda>t. if token_entry tbl t = None then SigningMethodNone else SigningMethodHMAC ''HS256''),
      jwt_parse = (\<lambda>f valid t.
        case token_entry tbl t of
          None \<Rightarrow> Inl (ValidationError None)
        | Some (k, q) \<Rightarrow>
            (case f (SigningMethodHMAC ''HS256'') of
               Inl e \<Rightarrow> Inl (ValidationError (Some e))
             | Inr key \<Rightarrow>
                 if key \<noteq> k then Inl (ValidationError (Some (ExtError ''signature is invalid'')))
                 else (case valid q of None \<Rightarrow> Inr (PayloadClaims q) | Some e \<Rightarrow> Inl (ValidationError (Some e)))))\<rparr>"

definition table_paseto :: "token_table \<Rightarrow> paseto_lib" where
  "table_paseto tbl =
     \<lparr>paseto_encrypt = token_for tbl,
      paseto_decrypt = (\<lambda>t key.
        case token_entry tbl t of
          None \<Rightarrow> Inl (ExtError ''invalid token'')
        | Some (k, q) \<Rightarrow> if key = k then Inr q else Inl (ExtError ''invalid token authentication''))\<rparr>"

lemma token_entry_for:
  "distinct (map (\<lambda>e. snd (snd e)) tbl) \<Longrightarrow> token_for tbl key p = Inr t \<Longrightarrow> token_entry tbl t = Some (key, p)"
proof (induction tbl)
  case (Cons x tbl)
  obtain k q u where x: "x = (k, q, u)" by (cases x) auto
  show ?case
  proof (cases "k = key \<and> q = p")
    case False
    with Cons.prems x have rest: "token_for tbl key p = Inr t" "distinct (map (\<lambda>e. snd (snd e)) tbl)"
      by (auto simp: token_for_def)
    then have entry: "token_entry tbl t = Some (key, p)" using Cons.IH by blast
    then have "t \<in> set (map (\<lambda>e. snd (snd e)) tbl)"
      by (auto simp: token_entry_def find_Some_iff) (metis image_eqI nth_mem snd_conv)
    with Cons.prems x have "u \<noteq> t" by auto
    with entry x show ?thesis by (simp add: token_entry_def)
  qed (use Cons.prems x in \<open>auto simp: token_for_def token_entry_def\<close>)
qed (simp add: token_for_def)

lemma table_jwt_ok: "distinct (map (\<lambda>e. snd (snd e)) tbl) \<Longrightarrow> jwt_lib_ok (table_jwt tbl)"
  by (auto simp: jwt_lib_ok_def table_jwt_def token_entry_for
      split: option.splits prod.splits sum.splits if_splits)

lemma table_paseto_ok: "distinct (map (\<lambda>e. snd (snd e)) tbl) \<Longrightarrow> paseto_lib_ok (table_paseto tbl)"
  by (auto simp: paseto_lib_ok_def table_paseto_def token_entry_for)

subsection \<open>bcrypt\<close>

definition sample_bcrypt :: bcrypt_lib where
  "sample_bcrypt =
     \<lparr>bcrypt_generate = (\<lambda>salt p. if 72 < length p then Inl (ExtError ''password length exceeds 72 bytes'')
                                  else Inr (''$2a$'' @ p)),
      bcrypt_compare = (\<lambda>h p. if h = ''$2a$'' @ p then None
                              else Some (ExtError ''hashedPassword is not the hash of the given password''))\<rparr>"

lemma sample_bcrypt_ok: "bcrypt_ok sample_bcrypt"
  by (auto simp: bcrypt_ok_def sample_bcrypt_def split: if_splits)

subsection \<open>Tokens of one user\<close>

definition sample_key :: string where
  "sample_key = ''0123456789abcdef0123456789abcdef''"

definition access_payload :: Payload where
  "access_payload = \<lparr>pl_ID = ''a-1'', pl_Username = ''ann'', pl_IssuedAt = 1000, pl_ExpiredAt = 1900\<rparr>"

definition refresh_payload :: Payload where
  "refresh_payload = \<lparr>pl_ID = ''r-1'', pl_Username = ''ann'', pl_IssuedAt = 1000, pl_ExpiredAt = 9000\<rparr>"

definition renewed_payload :: Payload where
  "renewed_payload = \<lparr>pl_ID = ''a-2'', pl_Username = ''ann'', pl_IssuedAt = 3000, pl_ExpiredAt = 3900\<rparr>"

definition sample_tokens :: token_table where
  "sample_tokens = [(sample_key, access_payload, ''access.ann''), (sample_key, refresh_payload, ''refresh.ann''),
     (sample_key, renewed_payload, ''renewed.ann'')]"

definition sample_jwt :: jwt_lib where
  "sample_jwt = table_jwt sample_tokens"

definition sample_paseto :: paseto_lib where
  "sample_paseto = table_paseto sample_tokens"

definition sample_access :: token_env where
  "sample_access = \<lparr>te_uuid = Inr ''a-1'', te_issued = 1000, te_now = 1000\<rparr>"

definition sample_refresh :: token_env where
  "sample_refresh = \<lparr>te_uuid = Inr ''r-1'', te_issued = 1000, te_now = 1000\<rparr>"

definition sample_renewed :: token_env where
  "sample_renewed = \<lparr>te_uuid = Inr ''a-2'', te_issued = 3000, te_now = 3000\<rparr>"

lemma sample_jwt_ok: "jwt_lib_ok sample_jwt"
  unfolding sample_jwt_def by (rule table_jwt_ok) (simp add: sample_tokens_def)

lemma sample_paseto_ok: "paseto_lib_ok sample_paseto"
  unfolding sample_paseto_def by (rule table_paseto_ok) (simp add: sample_tokens_def)

lemmas sample_token_defs = sample_tokens_def sample_key_def access_payload_def refresh_payload_def
  renewed_payload_def sample_access_def sample_refresh_def sample_renewed_def

lemma sample_jwt_created:
  "jwt_CreateToken sample_jwt \<lparr>secretKey = sample_key\<rparr> sample_access ''ann'' 900 = Inr (''access.ann'', access_payload)"
  "jwt_CreateToken sample_jwt \<lparr>secretKey = sample_key\<rparr> sample_refresh ''ann'' 8000 = Inr (''refresh.ann'', refresh_payload)"
  "jwt_CreateToken sample_jwt \<lparr>secretKey = sample_key\<rparr> sample_renewed ''ann'' 900 = Inr (''renewed.ann'', renewed_payload)"
  by (simp_all add: jwt_CreateToken_def NewPayload_def sample_jwt_def table_jwt_def token_for_def sample_token_defs)

end
