(* ===== verification/Http_Accounts.thy ===== *)
theory Http_Accounts
  imports Http_Keeps Sample_Libs
begin

text \<open>
  Properties of the account and transfer routes of the HTTP server: who gets in, whose data a
  response shows, what a listing's pages are, and when a transfer is made.
\<close>

lemmas tags_simps = should_bind_def tags_ok_def createAccountRequest_tags_def getAccountRequest_tags_def
  listAccountRequest_tags_def transferRequest_tags_def

text \<open>A server of the sample bank, and a request header with a token of ann's.\<close>

definition sample_libs :: libs where
  "sample_libs = \<lparr>lib_email_tag = (\<lambda>s. CHR ''@'' \<in> set s), lib_bcrypt = sample_bcrypt\<rparr>"

definition sample_server :: Server where
  "sample_server = \<lparr>srv_config = zero_config\<lparr>TokenSymmetricKey := sample_key, AccessTokenDuration := 900,
     RefreshTokenDuration := 8000\<rparr>, srv_tokenMaker = jwt_maker (sample_jwt, \<lparr>secretKey = sample_key\<rparr>)\<rparr>"

definition sample_rv :: req_env where
  "sample_rv = \<lparr>rv_auth_now = 1500, rv_verify_now = 3000, rv_now = 3000, rv_salt = 0,
     rv_access = sample_access, rv_refresh = sample_refresh\<rparr>"

definition bearer_ann :: string where
  "bearer_ann = ''Bearer access.ann''"

lemma sample_auth: "authMiddleware (srv_tokenMaker sample_server) (rv_auth_now sample_rv) bearer_ann = Inr access_payload"
proof -
  have "mk_VerifyToken (srv_tokenMaker sample_server) 1500 ''access.ann'' = Inr access_payload"
    using jwt.accepted_until_expiry [of "(sample_jwt, \<lparr>secretKey = sample_key\<rparr>)", unfolded jwt_maker_def, simplified,
        OF sample_jwt_ok sample_jwt_created(1), of 1500]
    by (simp add: sample_server_def jwt_maker_def sample_access_def)
  moreover have "list_all graphic ''access.ann''" by code_simp
  ultimately show ?thesis
    using authMiddleware_bearer [of "''access.ann''"] by (simp add: bearer_ann_def sample_rv_def)
qed

lemma serve_sample:
  assumes "needs_auth (endpoint_of req)"
  shows "serve sample_libs sample_server E sample_rv bearer_ann req c =
    dispatch sample_libs sample_server E sample_rv (Some access_payload) req c"
  using assms by (simp add: serve_def sample_auth)

text \<open>The accounts a response shows.\<close>

fun shown :: "http_body \<Rightarrow> Account list" where
  "shown (AccountBody a) = [a]"
| "shown (AccountsBody as) = as"
| "shown _ = []"

subsection \<open>Authentication\<close>

text \<open>
  C13: a request to a route behind the middleware whose header does not carry a verified bearer
  token is answered with 401 and reaches neither its handler nor the database.
\<close>

theorem protected_route_needs_token:
  assumes "needs_auth (endpoint_of req)"
    and "\<not> (\<exists>scheme tok rest p. Fields h = scheme # tok # rest \<and> to_lower scheme = ''bearer'' \<and>
           mk_VerifyToken (srv_tokenMaker srv) (rv_auth_now rv) tok = Inr p)"
  shows "\<exists>err. serve L srv E rv h req c = (errResponse StatusUnauthorized err, c)"
proof (cases "authMiddleware (srv_tokenMaker srv) (rv_auth_now rv) h")
  case (Inl resp)
  obtain st b where "resp = (st, b)" by (cases resp)
  with Inl show ?thesis
    using assms(1) by (auto simp: serve_def authMiddleware_def errResponse_def Let_def split: http_splits)
next
  case (Inr p)
  from authMiddleware_accept [OF Inr] have "2 \<le> length (Fields h)" and scheme: "to_lower (Fields h ! 0) = ''bearer''"
    and tok: "mk_VerifyToken (srv_tokenMaker srv) (rv_auth_now rv) (Fields h ! 1) = Inr p" by auto
  then obtain scheme tok rest where "Fields h = scheme # tok # rest"
    by (cases "Fields h" rule: list.exhaust [case_product list.exhaust]; cases "tl (Fields h)") auto
  with scheme tok assms(2) show ?thesis by auto
qed

theorem protected_route_witness:
  "\<exists>err. serve sample_libs sample_server good_env sample_rv ''Bearer forged'' (GetAccountReq (Inr \<lparr>gar_ID = 1\<rparr>))
     (sample_conn 100 5) = (errResponse StatusUnauthorized err, sample_conn 100 5)"
proof (rule protected_route_needs_token)
  have "list_all graphic ''forged''" by code_simp
  then have "Fields (''Bearer'' @ '' '' @ ''forged'') = [''Bearer'', ''forged'']"
    by (intro fields_two bearer_graphic) simp_all
  moreover have "mk_VerifyToken (srv_tokenMaker sample_server) (rv_auth_now sample_rv) ''forged'' = Inl ErrInvalidToken"
    by (simp add: sample_server_def jwt_maker_def jwt_VerifyToken_def sample_jwt_def table_jwt_def
        token_entry_def sample_tokens_def)
  ultimately show "\<not> (\<exists>scheme tok rest p. Fields ''Bearer forged'' = scheme # tok # rest \<and> to_lower scheme = ''bearer'' \<and>
      mk_VerifyToken (srv_tokenMaker sample_server) (rv_auth_now sample_rv) tok = Inr p)"
    by simp
qed simp

lemma serve_protected:
  assumes "needs_auth (endpoint_of req)" and "serve L srv E rv h req c = (resp, c')"
    and "fst resp \<noteq> StatusUnauthorized"
  obtains p where "authMiddleware (srv_tokenMaker srv) (rv_auth_now rv) h = Inr p"
    "dispatch L srv E rv (Some p) req c = (resp, c')"
  using assms authMiddleware_reject [of _ _ h "fst resp" "snd resp"]
  by (auto simp: serve_def split: sum.splits)

subsection \<open>Reading accounts\<close>

lemma getAccount_ok:
  assumes "api_getAccount L E (Some p) decoded c = ((StatusOK, body), c')" and "c_tx c = Autocommit"
  shows "\<exists>a. body = AccountBody a \<and> a \<in> set (accounts (c_db c)) \<and> acc_Owner a = pl_Username p \<and> c' = ticked c"
proof -
  obtain i a where get: "GetAccount E i c = (Inr a, c')" and body: "body = AccountBody a"
    "acc_Owner a = pl_Username p"
    using assms(1) by (auto simp: api_getAccount_def errResponse_def split: http_splits)
  from GetAccount_read(2) [OF assms(2) get refl] have "a \<in> set (accounts (c_db c))"
    by (auto dest: row_of_SomeD)
  with GetAccount_read(1) [OF assms(2) get] body show ?thesis by auto
qed

lemma listAccount_ok:
  assumes run: "api_listAccount L E (Some p) decoded c = ((StatusOK, body), c')" and c: "c_tx c = Autocommit"
  shows "\<exists>as. body = AccountsBody as \<and> set as \<subseteq> set (owned (pl_Username p) (c_db c)) \<and> length as \<le> 10 \<and>
    sorted (map (\<lambda>a. sint (acc_ID a)) as) \<and> c' = ticked c"
proof -
  obtain req as where bound: "should_bind (lib_email_tag L) listAccountRequest_tags decoded = Inr req"
    and list: "ListAccounts E (list_params p req) c = (Inr as, c')" and body: "body = AccountsBody as"
    using run by (auto simp: api_listAccount_def errResponse_def split: http_splits)
  have size: "sint (lar_PageSize req) \<le> 10"
    using bound by (auto simp: should_bind_Inr tags_ok_def listAccountRequest_tags_def)
  have page: "limit_offset (lar_PageSize req) ((lar_PageID req - 1) * lar_PageSize req)
      (owned (pl_Username p) (c_db c)) = Inr as"
    using ListAccounts_read(2) [OF c list] by (simp add: sql_list_accounts_owned list_params_def)
  show ?thesis
    using limit_offset_page [OF page] sorted_owned_page [OF page] size body ListAccounts_read(1) [OF c list]
    by auto
qed

text \<open>
  C12: whatever the database does, a response of status 200 to a request for an account or for a
  listing shows only accounts that exist and belong to the user of the verified token, at most ten
  of them in the order of their ids, and the request changes nothing.
\<close>

theorem account_reads_are_private:
  assumes "c_tx c = Autocommit" and "endpoint_of req \<in> {GetAccountEP, ListAccountEP}"
    and "serve L srv E rv h req c = ((StatusOK, body), c')"
  shows "\<exists>p. authMiddleware (srv_tokenMaker srv) (rv_auth_now rv) h = Inr p \<and>
    (\<forall>a \<in> set (shown body). a \<in> set (accounts (c_db c)) \<and> acc_Owner a = pl_Username p) \<and>
    length (shown body) \<le> 10 \<and> sorted (map (\<lambda>a. sint (acc_ID a)) (shown body)) \<and> c_db c' = c_db c"
proof -
  have "needs_auth (endpoint_of req)"
    using assms(2) by auto
  then obtain p where p: "authMiddleware (srv_tokenMaker srv) (rv_auth_now rv) h = Inr p"
    and run: "dispatch L srv E rv (Some p) req c = ((StatusOK, body), c')"
    using assms(3) by (rule serve_protected) simp
  from assms(2) run show ?thesis
    using getAccount_ok [OF _ assms(1)] listAccount_ok [OF _ assms(1)] p
    by (cases req) (fastforce simp: set_owned)+
qed

theorem account_reads_witness:
  "\<exists>a. serve sample_libs sample_server good_env sample_rv bearer_ann (GetAccountReq (Inr \<lparr>gar_ID = 1\<rparr>))
       (sample_conn 100 5) = ((StatusOK, AccountBody a), ticked (sample_conn 100 5)) \<and>
     acc_Owner a = ''ann''"
proof -
  let ?a = "\<lparr>acc_ID = 1, acc_Owner = ''ann'', acc_Balance = 100, acc_Currency = ''USD'', acc_CreatedAt = 0\<rparr>"
  have run: "serve sample_libs sample_server good_env sample_rv bearer_ann (GetAccountReq (Inr \<lparr>gar_ID = 1\<rparr>))
      (sample_conn 100 5) = ((StatusOK, AccountBody ?a), ticked (sample_conn 100 5))"
    by (simp add: serve_sample api_getAccount_def tags_simps reads_no_faults row_of_Cons sample_db_def access_payload_def)
  show ?thesis
    using account_reads_are_private [OF sample_conn_simps(2) _ run] run
    by (simp add: sample_auth access_payload_def)
qed

lemma listAccount_page:
  assumes "no_faults E" and "c_tx c = Autocommit" and req: "listAccountRequest_tags req = fs" "tags_ok (lib_email_tag L) fs"
  shows "api_listAccount L E (Some p) (Inr req) c =
    ((case limit_offset (lar_PageSize req) ((lar_PageID req - 1) * lar_PageSize req)
             (owned (pl_Username p) (c_db c)) of
        Inl err \<Rightarrow> errResponse StatusInternalServerError err
      | Inr as \<Rightarrow> (StatusOK, AccountsBody as)), ticked c)"
  using assms
  by (auto simp: api_listAccount_def should_bind_def ListAccounts_no_faults sql_list_accounts_owned list_params_def
      split: sum.splits)

lemma page_offset:
  fixes sz :: int32
  assumes "5 \<le> sint sz" and "int (Suc k) * sint sz \<le> max_int32"
  shows "sint (word_of_int (int k + 1) :: int32) = int k + 1"
    and "sint ((word_of_int (int k + 1) - 1) * sz) = int k * sint sz"
proof -
  have k: "int k * sint sz \<le> max_int32" "0 \<le> int k * sint sz" "int k + 1 \<le> max_int32"
    using assms mult_mono [of 5 "sint sz" "int k" "int k"] by (auto simp: algebra_simps)
  then show "sint (word_of_int (int k + 1) :: int32) = int k + 1"
    by (intro sint32_of_int) simp_all
  have "sint (word_of_int (int k) :: int32) = int k"
    by (rule sint32_of_int) (use k in simp_all)
  then show "sint ((word_of_int (int k + 1) - 1) * sz) = int k * sint sz"
    using k sint32_mult [of "word_of_int (int k)" sz] by simp
qed

definition account_page :: "libs \<Rightarrow> env \<Rightarrow> Payload \<Rightarrow> int \<Rightarrow> int32 \<Rightarrow> conn \<Rightarrow> response" where
  "account_page L E p k sz c =
     fst (api_listAccount L E (Some p) (Inr \<lparr>lar_PageID = word_of_int k, lar_PageSize = sz\<rparr>) c)"

lemma account_page_slice:
  assumes "no_faults E" and "c_tx c = Autocommit" and "5 \<le> sint sz" "sint sz \<le> 10"
    and "int (Suc k) * sint sz \<le> max_int32"
  shows "account_page L E p (int k + 1) sz c =
    (StatusOK, AccountsBody (take (nat (sint sz)) (drop (k * nat (sint sz)) (owned (pl_Username p) (c_db c)))))"
proof -
  have tags: "tags_ok (lib_email_tag L) (listAccountRequest_tags \<lparr>lar_PageID = word_of_int (int k + 1), lar_PageSize = sz\<rparr>)"
    using assms(3,4) page_offset(1) [OF assms(3,5)] by (simp add: tags_ok_def listAccountRequest_tags_def)
  have "nat (int k * sint sz) = k * nat (sint sz)"
    using assms(3) by (simp add: nat_mult_distrib)
  then show ?thesis
    unfolding account_page_def listAccount_page [OF assms(1,2) refl tags]
    using assms(3) page_offset(2) [OF assms(3,5)] by (simp add: limit_offset_def mult_less_0_iff)
qed

lemma slices: "concat (map (\<lambda>k. take m (drop (k * m) xs)) [0..<n]) = take (n * m) xs"
proof (induction n)
  case (Suc n)
  then show ?case using take_add [of "n * m" m xs] by (simp add: add.commute)
qed simp

text \<open>
  C38: without faults, the page \<open>k\<close> of a listing is the \<open>k\<close>-th slice of the user's accounts: the
  pages 1 to \<open>n\<close>, put together, are the first \<open>n * size\<close> accounts, none twice and none left out
  (for as long as the last offset fits in \<open>int32\<close>).
\<close>

theorem account_pages_partition:
  assumes "no_faults E" and "c_tx c = Autocommit" and "5 \<le> sint sz" and "sint sz \<le> 10"
    and "int n * sint sz \<le> max_int32"
  shows "concat (map (\<lambda>k. shown (snd (account_page L E p (int k + 1) sz c))) [0..<n]) =
    take (n * nat (sint sz)) (owned (pl_Username p) (c_db c))"
proof -
  have "int (Suc k) * sint sz \<le> max_int32" if "k < n" for k
  proof -
    have "int (Suc k) * sint sz \<le> int n * sint sz"
      by (rule mult_right_mono) (use that assms(3) in simp_all)
    with assms(5) show ?thesis by linarith
  qed
  then have "map (\<lambda>k. shown (snd (account_page L E p (int k + 1) sz c))) [0..<n] =
      map (\<lambda>k. take (nat (sint sz)) (drop (k * nat (sint sz)) (owned (pl_Username p) (c_db c)))) [0..<n]"
    using assms(1-4) by (simp add: account_page_slice)
  then show ?thesis by (simp only: slices)
qed

theorem account_pages_witness:
  "concat (map (\<lambda>k. shown (snd (account_page sample_libs good_env access_payload (int k + 1) 5 (sample_conn 100 5)))) [0..<3]) =
   owned ''ann'' (sample_db 100 5)"
proof -
  have "length (owned ''ann'' (sample_db 100 5)) = 1" by (simp add: owned_def sample_db_def)
  with account_pages_partition [OF good_env_simps(1) sample_conn_simps(2) [of 100 5], of 5 3 sample_libs access_payload]
  show ?thesis by (simp add: access_payload_def)
qed

text \<open>
  C40: beyond that the offset wraps around: a request for page 429496731 of size 10, which passes
  validation, is answered with status 200 and the accounts from the fifth on, not with an empty
  page; and a request for page 214748366 fails with 500.
\<close>

theorem account_page_offset_wraps:
  assumes "no_faults E" and "c_tx c = Autocommit"
  shows "account_page L E p 429496731 10 c =
      (StatusOK, AccountsBody (take 10 (drop 4 (owned (pl_Username p) (c_db c))))) \<and>
    fst (account_page L E p 214748366 10 c) = StatusInternalServerError"
  unfolding account_page_def
  by (simp add: listAccount_page [OF assms refl] tags_ok_def listAccountRequest_tags_def limit_offset_def errResponse_def)

theorem account_page_offset_witness:
  "account_page sample_libs good_env access_payload 429496731 10 (sample_conn 100 5) = (StatusOK, AccountsBody [])"
proof -
  have "length (owned ''ann'' (sample_db 100 5)) = 1" by (simp add: owned_def sample_db_def)
  with account_page_offset_wraps [OF good_env_simps(1) sample_conn_simps(2) [of 100 5], of sample_libs access_payload]
  show ?thesis by (simp add: access_payload_def)
qed

subsection \<open>Transfers\<close>

text \<open>
  C10: status 200 means the transfer was made and was allowed: the token's user owns the account
  debited, both accounts exist and hold the currency of the request, the amount is positive, and
  the tables are those of the abstract transfer, whose rows the response shows.
\<close>

theorem createTransfer_ok:
  assumes "c_tx c = Autocommit" and "wf_db (c_db c)" and "reports_failed_commit E"
    and "serve L srv E rv h (CreateTransferReq decoded) c = ((StatusOK, body), c')"
  shows "\<exists>p req a b arg now. authMiddleware (srv_tokenMaker srv) (rv_auth_now rv) h = Inr p \<and> decoded = Inr req \<and>
    arg = \<lparr>ttp_FromAccountID = trq_FromAccountID req, ttp_ToAccountID = trq_ToAccountID req,
           ttp_Amount = trq_Amount req\<rparr> \<and>
    row_of acc_ID (trq_FromAccountID req) (accounts (c_db c)) = Some a \<and>
    row_of acc_ID (trq_ToAccountID req) (accounts (c_db c)) = Some b \<and>
    acc_Owner a = pl_Username p \<and> acc_Currency a = trq_Currency req \<and> acc_Currency b = trq_Currency req \<and>
    0 < sint (trq_Amount req) \<and> c_db c' = transfer_db now arg (c_db c) \<and>
    body = TransferBody (transfer_result now arg (c_db c))"
proof -
  obtain p where p: "authMiddleware (srv_tokenMaker srv) (rv_auth_now rv) h = Inr p"
    and run: "api_createTransfer L E (Some p) decoded c = ((StatusOK, body), c')"
    by (rule serve_protected [OF _ assms(4)]) simp_all
  from run assms(1) show ?thesis
  proof (cases rule: createTransfer_cases)
    case (transfer req payload a b result err)
    then have "err = None" "body = TransferBody result"
      by (auto simp: errResponse_def split: option.splits)
    with transfer TransferTx_outcome [OF _ _ transfer(8)] assms(3) show ?thesis
      using p bind_amount [OF transfer(1)] assms(1,2) by (auto simp: should_bind_Inr)
  qed simp
qed

definition sample_transfer :: "int64 \<Rightarrow> int64 \<Rightarrow> int64 \<Rightarrow> request" where
  "sample_transfer i j a = CreateTransferReq (Inr \<lparr>trq_FromAccountID = i, trq_ToAccountID = j, trq_Amount = a,
     trq_Currency = ''USD''\<rparr>)"

lemma sample_validAccount:
  "api_validAccount good_env 1 ''USD'' (sample_conn 100 5) =
     (Inr \<lparr>acc_ID = 1, acc_Owner = ''ann'', acc_Balance = 100, acc_Currency = ''USD'', acc_CreatedAt = 0\<rparr>,
      ticked (sample_conn 100 5))"
  "api_validAccount good_env 2 ''USD'' (sample_conn 100 5) =
     (Inr \<lparr>acc_ID = 2, acc_Owner = ''bob'', acc_Balance = 5, acc_Currency = ''USD'', acc_CreatedAt = 0\<rparr>,
      ticked (sample_conn 100 5))"
  "api_validAccount good_env 2 ''USD'' (ticked (sample_conn 100 5)) =
     (Inr \<lparr>acc_ID = 2, acc_Owner = ''bob'', acc_Balance = 5, acc_Currency = ''USD'', acc_CreatedAt = 0\<rparr>,
      ticked (ticked (sample_conn 100 5)))"
  by (simp_all add: api_validAccount_def reads_no_faults row_of_Cons sample_db_def)

theorem createTransfer_witness:
  "\<exists>body c'. serve sample_libs sample_server good_env sample_rv bearer_ann (sample_transfer 1 2 30) (sample_conn 100 5)
      = ((StatusOK, body), c') \<and> (\<exists>now. c_db c' = transfer_db now (transfer_1_2 30) (sample_db 100 5))"
proof -
  have p: "transfer_possible (transfer_1_2 30) (c_db (ticked (ticked (sample_conn 100 5))))"
    by (simp add: transfer_possible_def sample_defs row_of_Cons pg_add_def ticked_def)
  note tx = TransferTx_no_faults [OF good_env_simps(1) _ _ p, unfolded transfer_1_2_def]
  have "IsSupportCurrency ''USD''" by (simp add: IsSupportCurrency_def USD_def)
  then obtain body c' where run: "serve sample_libs sample_server good_env sample_rv bearer_ann (sample_transfer 1 2 30)
      (sample_conn 100 5) = ((StatusOK, body), c')"
    by (simp add: serve_sample sample_transfer_def api_createTransfer_def tags_simps validCurrency_def
        sample_validAccount access_payload_def tx wf_sample)
  show ?thesis
    using createTransfer_ok [OF sample_conn_simps(2) _ good_env_simps(2) run [unfolded sample_transfer_def]] run wf_sample
    by (auto simp: transfer_1_2_def)
qed

text \<open>
  C11: without faults every other status means that nothing was transferred: no account, entry
  or transfer differs from before.
\<close>

theorem createTransfer_rejected_unchanged:
  assumes "c_tx c = Autocommit" and "wf_db (c_db c)" and "reports_failed_commit E" and "no_faults E"
    and "serve L srv E rv h (CreateTransferReq decoded) c = (resp, c')" and "fst resp \<noteq> StatusOK"
  shows "same_tables (c_db c) (c_db c')"
proof (cases "authMiddleware (srv_tokenMaker srv) (rv_auth_now rv) h")
  case (Inl r)
  with assms(5) show ?thesis by (simp add: serve_def)
next
  case (Inr p)
  with assms(5) have "api_createTransfer L E (Some p) decoded c = (resp, c')"
    by (simp add: serve_def)
  from this assms(1) show ?thesis
  proof (cases rule: createTransfer_cases)
    case (transfer req payload a b result err)
    then have "err \<noteq> None" using assms(6) by (cases err) auto
    then show ?thesis
      using TransferTx_outcome [OF _ _ transfer(8)] TransferTx_no_faults [OF assms(4)] transfer(8) assms(1,2)
      by fastforce
  qed auto
qed

theorem createTransfer_rejected_witness:
  "\<exists>err c'. serve sample_libs sample_server good_env sample_rv bearer_ann (sample_transfer 2 1 5) (sample_conn 100 5)
      = (errResponse StatusUnauthorized err, c') \<and> same_tables (sample_db 100 5) (c_db c')"
proof -
  have "IsSupportCurrency ''USD''" by (simp add: IsSupportCurrency_def USD_def)
  then obtain err c' where run: "serve sample_libs sample_server good_env sample_rv bearer_ann (sample_transfer 2 1 5)
      (sample_conn 100 5) = (errResponse StatusUnauthorized err, c')"
    by (simp add: serve_sample sample_transfer_def api_createTransfer_def tags_simps validCurrency_def
        sample_validAccount access_payload_def)
  show ?thesis
    using createTransfer_rejected_unchanged [OF sample_conn_simps(2) _ good_env_simps(2,1) run [unfolded sample_transfer_def]]
      run wf_sample by (simp add: errResponse_def)
qed

text \<open>
  A transfer request that passes these checks is carried out whatever the balance of the account
  debited is: there is no overdraft check, and the balance goes below zero when the amount exceeds
  it (only the range of \<open>bigint\<close> limits it).
\<close>

theorem createTransfer_needs_no_funds:
  assumes "no_faults E" and "c_tx c = Autocommit" and "wf_db (c_db c)" and "IsSupportCurrency cur"
    and "transfers_seq (c_db c) \<le> max_int64" and "entries_seq (c_db c) < max_int64"
    and "row_of acc_ID i (accounts (c_db c)) = Some a" and "row_of acc_ID j (accounts (c_db c)) = Some b" and "i \<noteq> j"
    and "acc_Owner a = pl_Username p" and "acc_Currency a = cur" and "acc_Currency b = cur"
    and "0 < sint n" and "min_int64 \<le> sint (acc_Balance a) - sint n" and "sint (acc_Balance b) + sint n \<le> max_int64"
  shows "\<exists>result c' a'. api_createTransfer L E (Some p)
      (Inr \<lparr>trq_FromAccountID = i, trq_ToAccountID = j, trq_Amount = n, trq_Currency = cur\<rparr>) c = ((StatusOK, TransferBody result), c') \<and>
    row_of acc_ID i (accounts (c_db c')) = Some a' \<and> sint (acc_Balance a') = sint (acc_Balance a) - sint n"
proof -
  let ?req = "\<lparr>trq_FromAccountID = i, trq_ToAccountID = j, trq_Amount = n, trq_Currency = cur\<rparr>"
  let ?arg = "\<lparr>ttp_FromAccountID = i, ttp_ToAccountID = j, ttp_Amount = n\<rparr>"
  have "below acc_ID (accounts (c_db c)) (accounts_seq (c_db c))"
    using assms(3) by (simp add: wf_db_defs)
  then have ids: "1 \<le> sint i" "1 \<le> sint j"
    using row_of_SomeD [OF assms(7)] row_of_SomeD [OF assms(8)] by (auto simp: below_def)
  have tags: "should_bind (lib_email_tag L) transferRequest_tags (Inr ?req) = Inr ?req"
    using ids assms(4,13) by (auto simp: tags_simps validCurrency_def IsSupportCurrency_def USD_def CAD_def EUR_def)
  have neg: "sint (- n) = - sint n" using assms(13) by (intro sint64_neg) simp
  have valid: "api_validAccount E i cur c = (Inr a, ticked c)" "api_validAccount E j cur (ticked c) = (Inr b, ticked (ticked c))"
    using assms(2,7,8,11,12) by (simp_all add: api_validAccount_def reads_no_faults [OF assms(1)])
  have possible: "transfer_possible ?arg (c_db (ticked (ticked c)))"
    using assms(5-9,13-15) sint64_range [of "acc_Balance a"] sint64_range [of "acc_Balance b"]
    by (simp add: transfer_possible_def pg_add_def neg)
  note tx = TransferTx_no_faults [OF assms(1) _ _ possible]
  have debit: "sint (acc_Balance a + - n) = sint (acc_Balance a) - sint n"
    using assms(13,14) sint64_range [of "acc_Balance a"] sint64_add [of "acc_Balance a" "- n"] by (simp add: neg)
  have "i \<noteq> j" by fact
  then show ?thesis
    unfolding api_createTransfer_def tags
    using assms(2,3,7,10) valid tx debit by (simp add: transfer_lookup transfer_delta_def)
qed

theorem createTransfer_needs_no_funds_witness:
  "\<exists>result c' a'. api_createTransfer sample_libs good_env (Some access_payload)
      (Inr \<lparr>trq_FromAccountID = 1, trq_ToAccountID = 2, trq_Amount = 130, trq_Currency = ''USD''\<rparr>) (sample_conn 100 5)
      = ((StatusOK, TransferBody result), c') \<and>
    row_of acc_ID 1 (accounts (c_db c')) = Some a' \<and> sint (acc_Balance a') = - 30"
proof -
  let ?a = "\<lparr>acc_ID = 1, acc_Owner = ''ann'', acc_Balance = 100, acc_Currency = ''USD'', acc_CreatedAt = 0\<rparr>"
  let ?b = "\<lparr>acc_ID = 2, acc_Owner = ''bob'', acc_Balance = 5, acc_Currency = ''USD'', acc_CreatedAt = 0\<rparr>"
  have rows: "row_of acc_ID 1 (accounts (c_db (sample_conn 100 5))) = Some ?a"
    "row_of acc_ID 2 (accounts (c_db (sample_conn 100 5))) = Some ?b"
    by (simp_all add: sample_db_def row_of_Cons)
  have seqs: "transfers_seq (c_db (sample_conn 100 5)) \<le> max_int64" "entries_seq (c_db (sample_conn 100 5)) < max_int64"
    by (simp_all add: sample_db_def empty_db_def)
  have "IsSupportCurrency ''USD''" "wf_db (c_db (sample_conn 100 5))"
    using wf_sample by (simp_all add: IsSupportCurrency_def USD_def)
  from createTransfer_needs_no_funds [OF good_env_simps(1) sample_conn_simps(2) this(2,1) seqs rows,
      of access_payload 130 sample_libs] show ?thesis
    by (simp add: access_payload_def)
qed

subsection \<open>Opening accounts\<close>

text \<open>
  C37: without faults, opening an account in a supported currency adds exactly one account, empty
  and owned by the user of the token, with the next id, if the user exists and has none in that
  currency; otherwise the answer is 403 and no row changes.
\<close>

theorem createAccount_once_per_currency:
  assumes "no_faults E" and "c_tx c = Autocommit" and "wf_db (c_db c)" and "IsSupportCurrency cur"
    and "accounts_seq (c_db c) \<le> max_int64"
    and "api_createAccount L E (Some p) (Inr \<lparr>car_Currency = cur\<rparr>) c = (resp, c')"
  shows "if has_key usr_Username (pl_Username p) (users (c_db c)) \<and>
            \<not> has_key (\<lambda>a. (acc_Owner a, acc_Currency a)) (pl_Username p, cur) (accounts (c_db c))
         then \<exists>a. resp = (StatusOK, AccountBody a) \<and> accounts (c_db c') = accounts (c_db c) @ [a] \<and>
                acc_Owner a = pl_Username p \<and> acc_Currency a = cur \<and> acc_Balance a = 0 \<and>
                sint (acc_ID a) = accounts_seq (c_db c)
         else (\<exists>err. resp = errResponse StatusForbidden err) \<and> same_tables (c_db c) (c_db c')"
proof -
  let ?d = "c_db c"
  have below: "below acc_ID (accounts ?d) (accounts_seq ?d)"
    using assms(3) by (simp add: wf_db_defs)
  then have next_id: "nextval (accounts_seq ?d) = Some (word_of_int (accounts_seq ?d))"
    "sint (word_of_int (accounts_seq ?d) :: int64) = accounts_seq ?d"
    using assms(5) by (simp_all add: below_def nextval_def sint64_of_int)
  note fresh = below_fresh [OF below next_id(1)]
  have tags: "should_bind (lib_email_tag L) createAccountRequest_tags (Inr \<lparr>car_Currency = cur\<rparr>) = Inr \<lparr>car_Currency = cur\<rparr>"
    using assms(4) by (auto simp: tags_simps validCurrency_def IsSupportCurrency_def USD_def CAD_def EUR_def)
  show ?thesis
    using assms(6) fresh next_id unfolding api_createAccount_def tags CreateAccount_def
    by (auto simp: query_row_no_faults [OF assms(1,2)] sql_create_account_def Let_def same_tables_def errResponse_def
        split: if_splits)
qed

theorem createAccount_witness:
  "\<exists>a c'. api_createAccount sample_libs good_env (Some access_payload) (Inr \<lparr>car_Currency = ''EUR''\<rparr>) (sample_conn 100 5)
     = ((StatusOK, AccountBody a), c') \<and> acc_Balance a = 0 \<and> sint (acc_ID a) = 3"
proof -
  obtain resp c' where run: "api_createAccount sample_libs good_env (Some access_payload) (Inr \<lparr>car_Currency = ''EUR''\<rparr>)
      (sample_conn 100 5) = (resp, c')"
    by fastforce
  have "accounts_seq (c_db (sample_conn 100 5)) \<le> max_int64" "IsSupportCurrency ''EUR''"
    by (simp_all add: sample_db_def IsSupportCurrency_def EUR_def)
  from createAccount_once_per_currency [OF good_env_simps(1) sample_conn_simps(2) _ this(2,1) run] run show ?thesis
    using wf_sample by (auto simp: has_key_iff sample_db_def sample_user_def access_payload_def)
qed

end
