(* ===== verification/Http_Users.thy ===== *)
theory Http_Users
  imports Http_Accounts
begin

text \<open>
  Properties of the user and token routes of the HTTP server, most of them about how requests
  compose: a registered user can log in, a login can be renewed, a token opens the protected routes.
\<close>

lemmas user_tags_simps = should_bind_Inr tags_ok_def createUserRequest_tags_def loginUserRequest_tags_def
  reNewAccessTokenRequest_tags_def

subsection \<open>Registration\<close>

lemma createUser_ok:
  assumes "api_createUser L E rv decoded c = ((StatusOK, body), c')" and "c_tx c = Autocommit"
  shows "\<exists>req user. should_bind (lib_email_tag L) createUserRequest_tags decoded = Inr req \<and>
    HashPassword (lib_bcrypt L) (rv_salt rv) (cur_Password req) = Inr (usr_HashedPassword user) \<and>
    usr_Username user = cur_UserName req \<and> body = UserBody (newUserResponse user) \<and>
    row_of usr_Username (cur_UserName req) (users (c_db c')) = Some user \<and>
    sessions (c_db c') = sessions (c_db c) \<and> c_tx c' = Autocommit"
proof -
  obtain req h user where bound: "should_bind (lib_email_tag L) createUserRequest_tags decoded = Inr req"
    and hash: "HashPassword (lib_bcrypt L) (rv_salt rv) (cur_Password req) = Inr h"
    and create: "CreateUser E \<lparr>cup_Username = cur_UserName req, cup_HashedPassword = h,
        cup_FullName = cur_FullName req, cup_Email = cur_Email req\<rparr> c = (Inr user, c')"
    and body: "body = UserBody (newUserResponse user)"
    using assms(1) by (auto simp: api_createUser_def errResponse_def split: http_splits)
  from query_row_autocommit(4) [OF assms(2) create [unfolded CreateUser_def] refl]
  have "usr_HashedPassword user = h \<and> usr_Username user = cur_UserName req \<and>
      \<not> has_key usr_Username (cur_UserName req) (users (c_db c)) \<and>
      users (c_db c') = users (c_db c) @ [user] \<and> sessions (c_db c') = sessions (c_db c)"
    by (auto simp: sql_create_user_def Let_def split: if_splits dest!: sym [of _ "c_db c'"])
  moreover from this have "row_of usr_Username (cur_UserName req) (users (c_db c')) = Some user"
    using users_tbl.lookup_insert [of user "c_db c" "cur_UserName req"] by simp
  ultimately show ?thesis
    using bound hash body query_row_autocommit(1) [OF assms(2) create [unfolded CreateUser_def]] by auto
qed

text \<open>
  C30: a user registered with status 200 can log in with the same name and password: without
  faults, and if tokens can be made and the session id is new, the login answers 200 for that user.
\<close>

theorem registered_user_can_login:
  assumes "bcrypt_ok (lib_bcrypt L)" and "c_tx c = Autocommit"
    and "api_createUser L E rv (Inr req) c = ((StatusOK, body), c1)"
    and "no_faults E'"
    and "mk_CreateToken (srv_tokenMaker srv) (rv_access rv') (cur_UserName req) (AccessTokenDuration (srv_config srv)) = Inr (at, ap)"
    and "mk_CreateToken (srv_tokenMaker srv) (rv_refresh rv') (cur_UserName req) (RefreshTokenDuration (srv_config srv)) = Inr (rt, rp)"
    and "\<not> has_key ses_ID (pl_ID rp) (sessions (c_db c1))"
  shows "\<exists>resp c2. api_loginUser L srv E' rv' ua ip
      (Inr \<lparr>lur_UserName = cur_UserName req, lur_Password = cur_Password req\<rparr>) c1 = ((StatusOK, LoginBody resp), c2) \<and>
    ur_Username (lr_User resp) = cur_UserName req \<and> lr_AccessToken resp = at \<and> lr_RefreshToken resp = rt"
proof -
  from createUser_ok [OF assms(3,2)] obtain user where
    bound: "should_bind (lib_email_tag L) createUserRequest_tags (Inr req) = Inr req"
    and hash: "HashPassword (lib_bcrypt L) (rv_salt rv) (cur_Password req) = Inr (usr_HashedPassword user)"
    and user: "usr_Username user = cur_UserName req" "row_of usr_Username (cur_UserName req) (users (c_db c1)) = Some user"
    and c1: "c_tx c1 = Autocommit"
    by (auto simp: should_bind_Inr)
  have login: "should_bind (lib_email_tag L) loginUserRequest_tags
      (Inr \<lparr>lur_UserName = cur_UserName req, lur_Password = cur_Password req\<rparr>) =
      Inr \<lparr>lur_UserName = cur_UserName req, lur_Password = cur_Password req\<rparr>"
    using bound by (simp add: user_tags_simps)
  have checked: "CheckPassword (lib_bcrypt L) (cur_Password req) (usr_HashedPassword user) = None"
    by (rule check_hashed_password [OF assms(1) hash])
  have "has_key usr_Username (cur_UserName req) (users (c_db c1))"
    by (rule row_of_Some_has_key [OF user(2)])
  then show ?thesis
    using assms(5-7) user checked c1 unfolding api_loginUser_def login CreateSession_def
    by (simp add: reads_no_faults [OF assms(4) c1] query_row_no_faults [OF assms(4)] sql_create_session_def
        Let_def newUserResponse_def)
qed

definition ann_registers :: createUserRequest where
  "ann_registers = \<lparr>cur_UserName = ''ann'', cur_Password = ''secret'', cur_FullName = ''Ann'', cur_Email = ''ann@x.org''\<rparr>"

definition empty_conn :: conn where
  "empty_conn = \<lparr>c_db = empty_db, c_tx = Autocommit, c_tick = 0\<rparr>"

lemma sample_created:
  "mk_CreateToken (srv_tokenMaker sample_server) sample_access ''ann'' (AccessTokenDuration (srv_config sample_server)) =
     Inr (''access.ann'', access_payload)"
  "mk_CreateToken (srv_tokenMaker sample_server) sample_refresh ''ann'' (RefreshTokenDuration (srv_config sample_server)) =
     Inr (''refresh.ann'', refresh_payload)"
  "mk_CreateToken (srv_tokenMaker sample_server) sample_renewed ''ann'' (AccessTokenDuration (srv_config sample_server)) =
     Inr (''renewed.ann'', renewed_payload)"
  using sample_jwt_created by (simp_all add: sample_server_def jwt_maker_def)

lemma sample_tags:
  "should_bind (lib_email_tag sample_libs) createUserRequest_tags (Inr ann_registers) = Inr ann_registers"
  "should_bind (lib_email_tag sample_libs) loginUserRequest_tags (Inr \<lparr>lur_UserName = ''ann'', lur_Password = ''secret''\<rparr>) =
     Inr \<lparr>lur_UserName = ''ann'', lur_Password = ''secret''\<rparr>"
  unfolding should_bind_def by (simp_all add: tags_ok_def createUserRequest_tags_def loginUserRequest_tags_def
      ann_registers_def sample_libs_def is_lower_def byte_def rune_count_def rune_rest_def)

theorem registered_user_witness:
  "\<exists>c1 resp c2. snd (api_createUser sample_libs good_env sample_rv (Inr ann_registers) empty_conn) = c1 \<and>
     api_loginUser sample_libs sample_server good_env sample_rv ''curl'' ''10.0.0.1''
       (Inr \<lparr>lur_UserName = ''ann'', lur_Password = ''secret''\<rparr>) c1 = ((StatusOK, LoginBody resp), c2) \<and>
     ur_Username (lr_User resp) = ''ann''"
proof -
  have auto: "c_tx empty_conn = Autocommit" by (simp add: empty_conn_def)
  have hash: "HashPassword (lib_bcrypt sample_libs) 0 ''secret'' = Inr ''$2a$secret''"
    by (simp add: HashPassword_def sample_libs_def sample_bcrypt_def)
  obtain body c1 where run: "api_createUser sample_libs good_env sample_rv (Inr ann_registers) empty_conn = ((StatusOK, body), c1)"
    and c1: "sessions (c_db c1) = []"
    unfolding api_createUser_def sample_tags CreateUser_def
    by (simp add: query_row_no_faults [OF good_env_simps(1)] ann_registers_def sample_rv_def hash
        sql_create_user_def Let_def empty_conn_def empty_db_def has_key_def)
  have "bcrypt_ok (lib_bcrypt sample_libs)"
    using sample_bcrypt_ok by (simp add: sample_libs_def)
  from registered_user_can_login [OF this auto run good_env_simps(1), of sample_server sample_rv
      "''access.ann''" access_payload "''refresh.ann''" refresh_payload "''curl''" "''10.0.0.1''"] show ?thesis
    using sample_created c1 run by (auto simp: ann_registers_def sample_rv_def has_key_def)
qed

subsection \<open>Login\<close>

lemma loginUser_ok:
  assumes "api_loginUser L srv E rv ua ip decoded c = ((StatusOK, body), c')" and auto: "c_tx c = Autocommit"
  obtains req user at ap rt rp session where
    "should_bind (lib_email_tag L) loginUserRequest_tags decoded = Inr req"
    "row_of usr_Username (lur_UserName req) (users (c_db c)) = Some user"
    "CheckPassword (lib_bcrypt L) (lur_Password req) (usr_HashedPassword user) = None"
    "mk_CreateToken (srv_tokenMaker srv) (rv_access rv) (usr_Username user) (AccessTokenDuration (srv_config srv)) = Inr (at, ap)"
    "mk_CreateToken (srv_tokenMaker srv) (rv_refresh rv) (usr_Username user) (RefreshTokenDuration (srv_config srv)) = Inr (rt, rp)"
    "body = LoginBody \<lparr>lr_SessionID = ses_ID session, lr_AccessToken = at, lr_AccessTokenExpiredAt = pl_ExpiredAt ap,
       lr_RefreshToken = rt, lr_RefreshTokenExpiredAt = pl_ExpiredAt rp, lr_User = newUserResponse user\<rparr>"
    "ses_ID session = pl_ID rp" "ses_Username session = usr_Username user" "ses_RefreshToken session = rt"
    "\<not> ses_IsBlocked session" "ses_ExpiredAt session = timestamptz (pl_ExpiredAt rp)"
    "sessions (c_db c') = sessions (c_db c) @ [session]" "\<not> has_key ses_ID (pl_ID rp) (sessions (c_db c))"
    "c_tx c' = Autocommit" "row_of ses_ID (ses_ID session) (sessions (c_db c')) = Some session"
proof -
  obtain req user c1 at ap rt rp session where
    1: "should_bind (lib_email_tag L) loginUserRequest_tags decoded = Inr req" and
    2: "GetUser E (lur_UserName req) c = (Inr user, c1)" and
    3: "CheckPassword (lib_bcrypt L) (lur_Password req) (usr_HashedPassword user) = None"
    "mk_CreateToken (srv_tokenMaker srv) (rv_access rv) (usr_Username user) (AccessTokenDuration (srv_config srv)) = Inr (at, ap)"
    "mk_CreateToken (srv_tokenMaker srv) (rv_refresh rv) (usr_Username user) (RefreshTokenDuration (srv_config srv)) = Inr (rt, rp)" and
    4: "CreateSession E \<lparr>csp_ID = pl_ID rp, csp_Username = usr_Username user, csp_RefreshToken = rt,
        csp_UserAgent = ua, csp_ClientIp = ip, csp_IsBlocked = False, csp_ExpiredAt = pl_ExpiredAt rp\<rparr> c1 = (Inr session, c')" and
    5: "body = LoginBody \<lparr>lr_SessionID = ses_ID session, lr_AccessToken = at, lr_AccessTokenExpiredAt = pl_ExpiredAt ap,
       lr_RefreshToken = rt, lr_RefreshTokenExpiredAt = pl_ExpiredAt rp, lr_User = newUserResponse user\<rparr>"
    using assms(1) by (auto simp: api_loginUser_def errResponse_def split: http_splits)
  have c1: "c1 = ticked c" "row_of usr_Username (lur_UserName req) (users (c_db c)) = Some user"
    using GetUser_read(1) [OF auto 2] GetUser_read(2) [OF auto 2 refl] by auto
  with auto have tx: "c_tx c1 = Autocommit" by simp
  have s: "ses_ID session = pl_ID rp" "ses_Username session = usr_Username user" "ses_RefreshToken session = rt"
    "\<not> ses_IsBlocked session" "ses_ExpiredAt session = timestamptz (pl_ExpiredAt rp)"
    "sessions (c_db c') = sessions (c_db c) @ [session]" "\<not> has_key ses_ID (pl_ID rp) (sessions (c_db c))"
    "c_tx c' = Autocommit"
    using query_row_autocommit(1,4) [OF tx 4 [unfolded CreateSession_def]] c1(1)
    by (auto simp: sql_create_session_def Let_def split: if_splits dest!: sym [of _ "c_db c'"])
  moreover have "row_of ses_ID (ses_ID session) (sessions (c_db c')) = Some session"
    using sessions_tbl.lookup_insert [of session "c_db c" "ses_ID session"] s(1,6,7) by simp
  ultimately show ?thesis by (intro that [OF 1 c1(2) 3 5])
qed

text \<open>
  C19: status 200 at the login means that the password is the user's, that the session is stored
  unblocked under the refresh token's id, and that both tokens verify to the user until they expire, the refresh token within half a microsecond
  of the session's expiry.
\<close>

theorem login_ok:
  assumes "c_tx c = Autocommit" and "maker_ok (srv_tokenMaker srv)"
    and "api_loginUser L srv E rv ua ip decoded c = ((StatusOK, LoginBody resp), c')"
  shows "\<exists>req user session. decoded = Inr req \<and>
    row_of usr_Username (lur_UserName req) (users (c_db c)) = Some user \<and>
    CheckPassword (lib_bcrypt L) (lur_Password req) (usr_HashedPassword user) = None \<and>
    row_of ses_ID (lr_SessionID resp) (sessions (c_db c')) = Some session \<and>
    ses_Username session = lur_UserName req \<and> ses_RefreshToken session = lr_RefreshToken resp \<and>
    \<not> ses_IsBlocked session \<and> \<bar>ses_ExpiredAt session - lr_RefreshTokenExpiredAt resp\<bar> \<le> 500 \<and>
    (\<forall>now \<le> lr_AccessTokenExpiredAt resp. \<exists>p. pl_Username p = lur_UserName req \<and>
       mk_VerifyToken (srv_tokenMaker srv) now (lr_AccessToken resp) = Inr p) \<and>
    (\<forall>now \<le> lr_RefreshTokenExpiredAt resp. \<exists>p. pl_Username p = lur_UserName req \<and> pl_ID p = lr_SessionID resp \<and>
       mk_VerifyToken (srv_tokenMaker srv) now (lr_RefreshToken resp) = Inr p)"
  using assms(3,1)
proof (cases rule: loginUser_ok)
  case (1 req user at ap rt rp session)
  have u: "usr_Username user = lur_UserName req" using row_of_SomeD [OF 1(2)] by simp
  note 1(15)
  moreover have "mk_VerifyToken (srv_tokenMaker srv) now at = Inr ap" "pl_Username ap = usr_Username user"
    if "now \<le> pl_ExpiredAt ap" for now
    using that maker_verifies [OF assms(2) 1(4)] by auto
  moreover have "mk_VerifyToken (srv_tokenMaker srv) now rt = Inr rp" "pl_Username rp = usr_Username user"
    if "now \<le> pl_ExpiredAt rp" for now
    using that maker_verifies [OF assms(2) 1(5)] by auto
  ultimately show ?thesis
    using 1 u timestamptz_near by (auto simp: should_bind_Inr)
qed

definition ann_login :: loginUserResponse where
  "ann_login = \<lparr>lr_SessionID = ''r-1'', lr_AccessToken = ''access.ann'', lr_AccessTokenExpiredAt = 1900,
     lr_RefreshToken = ''refresh.ann'', lr_RefreshTokenExpiredAt = 9000,
     lr_User = newUserResponse (sample_user ''ann'' ''ann@x.org'')\<rparr>"

lemma sample_login:
  "\<exists>c'. api_loginUser sample_libs sample_server good_env sample_rv ''curl'' ''10.0.0.1''
     (Inr \<lparr>lur_UserName = ''ann'', lur_Password = ''secret''\<rparr>) (sample_conn 100 5) = ((StatusOK, LoginBody ann_login), c')"
proof -
  have user: "row_of usr_Username ''ann'' (users (sample_db 100 5)) = Some (sample_user ''ann'' ''ann@x.org'')"
    by (simp add: sample_db_def row_of_Cons sample_user_def)
  then have "has_key usr_Username ''ann'' (users (sample_db 100 5))" by (rule row_of_Some_has_key)
  moreover have "CheckPassword (lib_bcrypt sample_libs) ''secret'' (usr_HashedPassword (sample_user ''ann'' ''ann@x.org'')) = None"
    by (simp add: CheckPassword_def sample_libs_def sample_bcrypt_def sample_user_def)
  moreover have "\<not> has_key ses_ID ''r-1'' (sessions (sample_db 100 5))"
    by (simp add: sample_db_def empty_db_def has_key_def)
  moreover have "usr_Username (sample_user ''ann'' ''ann@x.org'') = ''ann''" by (simp add: sample_user_def)
  ultimately show ?thesis
    unfolding api_loginUser_def sample_tags CreateSession_def
    using user sample_created
    by (simp add: reads_no_faults query_row_no_faults sample_rv_def sql_create_session_def Let_def
        refresh_payload_def access_payload_def ann_login_def)
qed

lemma sample_maker_ok: "maker_ok (srv_tokenMaker sample_server)"
  using jwt.meets_contract [of "(sample_jwt, \<lparr>secretKey = sample_key\<rparr>)"] sample_jwt_ok by (simp add: sample_server_def)

theorem login_ok_witness:
  "\<exists>p. mk_VerifyToken (srv_tokenMaker sample_server) 1900 ''access.ann'' = Inr p \<and> pl_Username p = ''ann''"
proof -
  obtain c' where "api_loginUser sample_libs sample_server good_env sample_rv ''curl'' ''10.0.0.1''
     (Inr \<lparr>lur_UserName = ''ann'', lur_Password = ''secret''\<rparr>) (sample_conn 100 5) = ((StatusOK, LoginBody ann_login), c')"
    using sample_login by blast
  from login_ok [OF sample_conn_simps(2) sample_maker_ok this] show ?thesis
    by (auto simp: ann_login_def dest: spec [of _ 1900])
qed

subsection \<open>Renewing\<close>

text \<open>
  A login can be renewed: as long as the session row is in the table and neither clock reading
  is past the expiry (the session's is a \<open>timestamptz\<close>), the refresh token buys a new access token of the same user.
\<close>

theorem login_can_be_renewed:
  assumes "c_tx c = Autocommit" and "maker_ok (srv_tokenMaker srv)"
    and "api_loginUser L srv E rv ua ip decoded c = ((StatusOK, LoginBody resp), c')"
    and "c_tx d = Autocommit" and "no_faults E'" and "lr_RefreshToken resp \<noteq> ''''"
    and "row_of ses_ID (lr_SessionID resp) (sessions (c_db d)) = row_of ses_ID (lr_SessionID resp) (sessions (c_db c'))"
    and "rv_verify_now rv' \<le> lr_RefreshTokenExpiredAt resp" and "rv_now rv' \<le> timestamptz (lr_RefreshTokenExpiredAt resp)"
    and "mk_CreateToken (srv_tokenMaker srv) (rv_access rv') (ur_Username (lr_User resp)) (AccessTokenDuration (srv_config srv))
      = Inr (at, ap)"
  shows "api_reNewAccessToken L srv E' rv' (Inr \<lparr>rnr_RefreshToken = lr_RefreshToken resp\<rparr>) d =
    ((StatusOK, RenewBody \<lparr>rn_AccessToken = at, rn_AccessTokenExpiredAt = pl_ExpiredAt ap\<rparr>), ticked d)"
  using assms(3,1)
proof (cases rule: loginUser_ok)
  case (1 req user at1 ap1 rt rp session)
  have resp: "lr_SessionID resp = ses_ID session" "lr_RefreshToken resp = rt"
    "lr_RefreshTokenExpiredAt resp = pl_ExpiredAt rp" "ur_Username (lr_User resp) = usr_Username user"
    using 1(6) by (simp_all add: newUserResponse_def)
  have bound: "should_bind (lib_email_tag L) reNewAccessTokenRequest_tags (Inr \<lparr>rnr_RefreshToken = rt\<rparr>) = Inr \<lparr>rnr_RefreshToken = rt\<rparr>"
    using assms(6) resp by (simp add: user_tags_simps)
  have session: "row_of ses_ID (pl_ID rp) (sessions (c_db d)) = Some session"
    using 1(7,15) assms(7) resp(1) by simp
  have verified: "mk_VerifyToken (srv_tokenMaker srv) (rv_verify_now rv') rt = Inr rp" "pl_Username rp = usr_Username user"
    using maker_verifies [OF assms(2) 1(5)] assms(8) resp(3) by auto
  show ?thesis
    unfolding api_reNewAccessToken_def resp(2) bound
    using verified session 1(7-11) assms(9,10) resp by (simp add: reads_no_faults [OF assms(5,4)])
qed

theorem login_can_be_renewed_witness:
  "\<exists>c' d. snd (api_loginUser sample_libs sample_server good_env sample_rv ''curl'' ''10.0.0.1''
       (Inr \<lparr>lur_UserName = ''ann'', lur_Password = ''secret''\<rparr>) (sample_conn 100 5)) = c' \<and>
     api_reNewAccessToken sample_libs sample_server good_env (sample_rv\<lparr>rv_access := sample_renewed\<rparr>)
       (Inr \<lparr>rnr_RefreshToken = ''refresh.ann''\<rparr>) c' =
     ((StatusOK, RenewBody \<lparr>rn_AccessToken = ''renewed.ann'', rn_AccessTokenExpiredAt = 3900\<rparr>), d)"
proof -
  obtain c' where run: "api_loginUser sample_libs sample_server good_env sample_rv ''curl'' ''10.0.0.1''
     (Inr \<lparr>lur_UserName = ''ann'', lur_Password = ''secret''\<rparr>) (sample_conn 100 5) = ((StatusOK, LoginBody ann_login), c')"
    using sample_login by blast
  from run sample_conn_simps(2) have "c_tx c' = Autocommit" by (rule loginUser_ok)
  from login_can_be_renewed [OF sample_conn_simps(2) sample_maker_ok run this good_env_simps(1) _ refl,
      of "sample_rv\<lparr>rv_access := sample_renewed\<rparr>"] show ?thesis
    using run sample_created(3)
    by (simp add: ann_login_def sample_rv_def newUserResponse_def sample_user_def renewed_payload_def timestamptz_def)
qed

text \<open>
  C17: an access token is renewed only against a refresh token that verifies and whose session is
  stored, not blocked, not expired, and holds the same user and the same token; nothing is written.
\<close>

theorem renew_ok:
  assumes "c_tx c = Autocommit" and "maker_ok (srv_tokenMaker srv)"
    and "api_reNewAccessToken L srv E rv decoded c = ((StatusOK, RenewBody resp), c')"
  shows "\<exists>req p session p'. decoded = Inr req \<and>
    mk_VerifyToken (srv_tokenMaker srv) (rv_verify_now rv) (rnr_RefreshToken req) = Inr p \<and>
    row_of ses_ID (pl_ID p) (sessions (c_db c)) = Some session \<and> \<not> ses_IsBlocked session \<and>
    ses_Username session = pl_Username p \<and> ses_RefreshToken session = rnr_RefreshToken req \<and>
    rv_now rv \<le> ses_ExpiredAt session \<and> c_db c' = c_db c \<and> pl_Username p' = pl_Username p \<and>
    (\<forall>now \<le> rn_AccessTokenExpiredAt resp. mk_VerifyToken (srv_tokenMaker srv) now (rn_AccessToken resp) = Inr p')"
proof -
  obtain req p session at ap where
    1: "should_bind (lib_email_tag L) reNewAccessTokenRequest_tags decoded = Inr req"
    "mk_VerifyToken (srv_tokenMaker srv) (rv_verify_now rv) (rnr_RefreshToken req) = Inr p" and
    2: "GetSession E (pl_ID p) c = (Inr session, c')" and
    3: "\<not> ses_IsBlocked session" "ses_Username session = pl_Username p"
    "ses_RefreshToken session = rnr_RefreshToken req" "rv_now rv \<le> ses_ExpiredAt session"
    "resp = \<lparr>rn_AccessToken = at, rn_AccessTokenExpiredAt = pl_ExpiredAt ap\<rparr>" and
    4: "mk_CreateToken (srv_tokenMaker srv) (rv_access rv) (pl_Username p) (AccessTokenDuration (srv_config srv)) = Inr (at, ap)"
    using assms(3) by (auto simp: api_reNewAccessToken_def errResponse_def split: http_splits)
  show ?thesis
    using 1 3 GetSession_read(1) [OF assms(1) 2] GetSession_read(2) [OF assms(1) 2 refl]
      maker_verifies [OF assms(2) 4] by (auto simp: should_bind_Inr)
qed

theorem renew_ok_witness:
  "\<exists>c' session. snd (api_loginUser sample_libs sample_server good_env sample_rv ''curl'' ''10.0.0.1''
       (Inr \<lparr>lur_UserName = ''ann'', lur_Password = ''secret''\<rparr>) (sample_conn 100 5)) = c' \<and>
     session \<in> set (sessions (c_db c')) \<and> \<not> ses_IsBlocked session \<and> ses_RefreshToken session = ''refresh.ann''"
proof -
  obtain c' where run: "api_loginUser sample_libs sample_server good_env sample_rv ''curl'' ''10.0.0.1''
     (Inr \<lparr>lur_UserName = ''ann'', lur_Password = ''secret''\<rparr>) (sample_conn 100 5) = ((StatusOK, LoginBody ann_login), c')"
    using sample_login by blast
  from run sample_conn_simps(2) have auto: "c_tx c' = Autocommit" by (rule loginUser_ok)
  have "\<exists>c''. api_reNewAccessToken sample_libs sample_server good_env (sample_rv\<lparr>rv_access := sample_renewed\<rparr>)
       (Inr \<lparr>rnr_RefreshToken = ''refresh.ann''\<rparr>) c' =
     ((StatusOK, RenewBody \<lparr>rn_AccessToken = ''renewed.ann'', rn_AccessTokenExpiredAt = 3900\<rparr>), c'')"
    using run sample_conn_simps(2)
  proof (cases rule: loginUser_ok)
    case (1 req user at ap rt rp session)
    have "ap = access_payload" "rp = refresh_payload" "rt = ''refresh.ann''" "usr_Username user = ''ann''"
      using 1 sample_created by (auto simp: ann_login_def sample_rv_def newUserResponse_def sample_user_def)
    moreover have "row_of ses_ID ''r-1'' (sessions (c_db c')) = Some session"
      using 1(6,7,15) by (simp add: ann_login_def)
    moreover have "mk_VerifyToken (srv_tokenMaker sample_server) 3000 ''refresh.ann'' = Inr refresh_payload"
      using maker_verifies [OF sample_maker_ok sample_created(2)] by (simp add: refresh_payload_def)
    moreover have "should_bind (lib_email_tag sample_libs) reNewAccessTokenRequest_tags (Inr \<lparr>rnr_RefreshToken = ''refresh.ann''\<rparr>)
        = Inr \<lparr>rnr_RefreshToken = ''refresh.ann''\<rparr>"
      by (simp add: user_tags_simps)
    ultimately show ?thesis
      using 1(7-11) sample_created(3) auto unfolding api_reNewAccessToken_def
      by (simp add: reads_no_faults sample_rv_def refresh_payload_def renewed_payload_def timestamptz_def)
  qed
  then obtain c'' where "api_reNewAccessToken sample_libs sample_server good_env (sample_rv\<lparr>rv_access := sample_renewed\<rparr>)
       (Inr \<lparr>rnr_RefreshToken = ''refresh.ann''\<rparr>) c' =
     ((StatusOK, RenewBody \<lparr>rn_AccessToken = ''renewed.ann'', rn_AccessTokenExpiredAt = 3900\<rparr>), c'')" by blast
  from renew_ok [OF auto sample_maker_ok this] run show ?thesis
    by (auto dest: row_of_SomeD)
qed

text \<open>
  The middleware does not tell refresh tokens from access tokens: the refresh token of a login
  opens the protected routes as the user until it expires.
\<close>

theorem refresh_token_opens_protected_routes:
  assumes "c_tx c = Autocommit" and "maker_ok (srv_tokenMaker srv)"
    and "api_loginUser L srv E rv ua ip decoded c = ((StatusOK, LoginBody resp), c')"
    and "list_all graphic (lr_RefreshToken resp)" and "lr_RefreshToken resp \<noteq> ''''"
    and "now \<le> lr_RefreshTokenExpiredAt resp"
  shows "\<exists>p. authMiddleware (srv_tokenMaker srv) now (''Bearer '' @ lr_RefreshToken resp) = Inr p \<and>
    pl_Username p = ur_Username (lr_User resp)"
  using assms(3,1)
proof (cases rule: loginUser_ok)
  case (1 req user at ap rt rp session)
  then have "lr_RefreshToken resp = rt" "lr_RefreshTokenExpiredAt resp = pl_ExpiredAt rp"
    "ur_Username (lr_User resp) = usr_Username user"
    by (simp_all add: newUserResponse_def)
  with assms(4-6) maker_verifies [OF assms(2) 1(5)] show ?thesis
    using authMiddleware_bearer by metis
qed

theorem refresh_token_witness:
  "\<exists>p. authMiddleware (srv_tokenMaker sample_server) 9000 ''Bearer refresh.ann'' = Inr p \<and> pl_Username p = ''ann''"
proof -
  obtain c' where run: "api_loginUser sample_libs sample_server good_env sample_rv ''curl'' ''10.0.0.1''
     (Inr \<lparr>lur_UserName = ''ann'', lur_Password = ''secret''\<rparr>) (sample_conn 100 5) = ((StatusOK, LoginBody ann_login), c')"
    using sample_login by blast
  have "list_all graphic ''refresh.ann''" by code_simp
  with refresh_token_opens_protected_routes [OF sample_conn_simps(2) sample_maker_ok run, of 9000] show ?thesis
    by (simp add: ann_login_def newUserResponse_def sample_user_def)
qed

end
