(* ===== verification/Gapi_Props.thy ===== *)
theory Gapi_Props
  imports Gapi Http_Users
begin

text \<open>Properties of the gRPC server, and how it relates to the HTTP server and to the worker.\<close>

subsection \<open>Authorization\<close>

lemma authMiddleware_iff:
  "authMiddleware m now h = Inr p \<longleftrightarrow>
     2 \<le> length (Fields h) \<and> to_lower (Fields h ! 0) = ''bearer'' \<and> mk_VerifyToken m now (Fields h ! 1) = Inr p"
proof -
  have "Fields [] = []" by (simp add: Fields_def)
  then show ?thesis by (cases "h = []") (auto simp: authMiddleware_def Let_def split: sum.splits)
qed

lemma authorizeUser_iff:
  "authorizeUser m now ctx = Inr p \<longleftrightarrow>
    (\<exists>md h hs. cx_metadata ctx = Some md \<and> md_get md ''authorization'' = h # hs \<and>
       2 \<le> length (Fields h) \<and> to_lower (Fields h ! 0) = ''bearer'' \<and> mk_VerifyToken m now (Fields h ! 1) = Inr p)"
  by (auto simp: authorizeUser_def Let_def split: option.splits list.splits sum.splits if_splits)

text \<open>
  C35: the gRPC server authorizes a call exactly when the HTTP middleware would accept its first
  \<open>authorization\<close> value, and for the same token payload.
\<close>

theorem authorizeUser_agrees_with_middleware:
  "authorizeUser m now ctx = Inr p \<longleftrightarrow>
    (\<exists>md h hs. cx_metadata ctx = Some md \<and> md_get md ''authorization'' = h # hs \<and> authMiddleware m now h = Inr p)"
  by (simp only: authorizeUser_iff authMiddleware_iff)

definition md_values :: "grpc_ctx \<Rightarrow> string \<Rightarrow> string list" where
  "md_values ctx k = (case cx_metadata ctx of None \<Rightarrow> [] | Some md \<Rightarrow> md_get md k)"

definition first_value :: "string list \<Rightarrow> string" where
  "first_value vs = (case vs of [] \<Rightarrow> '''' | v # _ \<Rightarrow> v)"

text \<open>
  A session is recorded with the address of the peer whenever the peer is known, whatever
  \<open>x-forwarded-for\<close> says (a call through a proxy records the proxy), and with the \<open>user-agent\<close> value in
  preference to the gateway's.
\<close>

theorem extractMetaData_sources:
  "md_ClientIp (extractMetaData ctx) =
     (case cx_peer ctx of Some addr \<Rightarrow> addr | None \<Rightarrow> first_value (md_values ctx ''x-forwarded-for'')) \<and>
   md_UserAgent (extractMetaData ctx) =
     first_value (md_values ctx ''user-agent'' @ md_values ctx ''grpcgateway-user-agent'')"
  by (auto simp: extractMetaData_def Let_def md_values_def first_value_def split: option.splits list.splits)

subsection \<open>Validation\<close>

lemma violation_Nil [simp]: "violation f e = [] \<longleftrightarrow> e = None"
  by (simp add: violation_def split: option.split)

lemma violation_fields: "fv_Field ` set (violation f e) = {g. g = f \<and> e \<noteq> None}"
  by (cases e) (simp_all add: violation_def fieldViolation_def)

lemma violation_opt_fields:
  "fv_Field ` set (if x \<noteq> None then violation f (V (get_opt x)) else []) =
     {g. g = f \<and> (\<exists>v. x = Some v \<and> V v \<noteq> None)}"
  by (cases x) (simp_all add: get_opt_def violation_fields)

text \<open>
  The validation of \<open>CreateUser\<close> and \<open>UpdateUser\<close> reports every invalid field and no valid one.
\<close>

theorem violations_are_exact:
  "fv_Field ` set (validateCreateUserRequest pa req) =
     {f. f = ''username'' \<and> \<not> (3 \<le> length (cr_Username req) \<and> length (cr_Username req) \<le> 100 \<and> list_all username_char (cr_Username req)) \<or>
         f = ''password'' \<and> \<not> (6 \<le> length (cr_Password req) \<and> length (cr_Password req) \<le> 100) \<or>
         f = ''full_name'' \<and> \<not> (3 \<le> length (cr_FullName req) \<and> length (cr_FullName req) \<le> 100 \<and> list_all full_name_char (cr_FullName req)) \<or>
         f = ''email'' \<and> \<not> (5 \<le> length (cr_Email req) \<and> length (cr_Email req) \<le> 100 \<and> pa (cr_Email req))} \<and>
   fv_Field ` set (validateUpdateUserRequest pa upd) =
     {f. f = ''username'' \<and> ValidateUsername (uq_Username upd) \<noteq> None \<or>
         f = ''password'' \<and> (\<exists>x. uq_Password upd = Some x \<and> ValidatePassword x \<noteq> None) \<or>
         f = ''full_name'' \<and> (\<exists>x. uq_FullName upd = Some x \<and> ValidateFullName x \<noteq> None) \<or>
         f = ''email'' \<and> (\<exists>x. uq_Email upd = Some x \<and> ValidateEmail pa x \<noteq> None)}"
proof -
  have "fv_Field ` set (validateCreateUserRequest pa req) =
     {f. f = ''username'' \<and> ValidateUsername (cr_Username req) \<noteq> None \<or>
         f = ''password'' \<and> ValidatePassword (cr_Password req) \<noteq> None \<or>
         f = ''full_name'' \<and> ValidateFullName (cr_FullName req) \<noteq> None \<or>
         f = ''email'' \<and> ValidateEmail pa (cr_Email req) \<noteq> None}"
    unfolding validateCreateUserRequest_def set_append image_Un violation_fields
    unfolding Un_def mem_Collect_eq by (rule refl)
  moreover have "fv_Field ` set (validateUpdateUserRequest pa upd) =
     {f. f = ''username'' \<and> ValidateUsername (uq_Username upd) \<noteq> None \<or>
         f = ''password'' \<and> (\<exists>x. uq_Password upd = Some x \<and> ValidatePassword x \<noteq> None) \<or>
         f = ''full_name'' \<and> (\<exists>x. uq_FullName upd = Some x \<and> ValidateFullName x \<noteq> None) \<or>
         f = ''email'' \<and> (\<exists>x. uq_Email upd = Some x \<and> ValidateEmail pa x \<noteq> None)}"
    unfolding validateUpdateUserRequest_def GetPassword_def GetFullName_def GetEmail_def set_append image_Un
      violation_fields violation_opt_fields
    unfolding Un_def mem_Collect_eq by (rule refl)
  ultimately show ?thesis
    by (simp only: ValidateUsername_ok ValidatePassword_ok ValidateFullName_ok ValidateEmail_ok)
qed

subsection \<open>Creating users\<close>

lemma valid_create_graphic: "validateCreateUserRequest pa req = [] \<Longrightarrow> list_all graphic (cr_Username req)"
  by (simp add: validateCreateUserRequest_def valid_username_graphic)

text \<open>
  C15: with redis as the queue, no user is ever committed without its verification task waiting in
  the queue, whatever fails on the way; status OK is only answered when both are there, and the
  user's password is the one requested.
\<close>

theorem created_user_has_task:
  assumes "c_tx c = Autocommit" and "reports_failed_commit E" and "json_ok A" and "bcrypt_ok (gl_bcrypt L)"
    and "gs_taskDistributor server = DistributeTaskSendVerifyEmail A"
    and "gapi_CreateUser L server E rv req r c = (res, r', c')"
  shows "same_tables (c_db c) (c_db c') \<and> (\<exists>st. res = Inl st) \<or>
    (\<exists>u. c_db c' = (c_db c)\<lparr>users := users (c_db c) @ [u]\<rparr> \<and> usr_Username u = cr_Username req \<and>
       CheckPassword (gl_bcrypt L) (cr_Password req) (usr_HashedPassword u) = None \<and>
       pending A r' = pending A r @ [(cr_Username req, verify_email_opts)] \<and>
       (\<forall>v. res = Inr v \<longrightarrow> v = ConvertUser u))"
proof (cases "validateCreateUserRequest (gl_parse_address L) req = []")
  case True
  note graphic = valid_create_graphic [OF True]
  show ?thesis
  proof (cases "HashPassword (gl_bcrypt L) (rv_salt rv) (cr_Password req)")
    case (Inr hash)
    let ?arg = "\<lparr>cup_Username = cr_Username req, cup_HashedPassword = hash, cup_FullName = cr_FullName req,
      cup_Email = cr_Email req\<rparr>"
    obtain u err where tx: "CreateUserTx E ?arg (send_verify_email server) r c = (((u, err), r'), c')"
      and res: "\<And>v. res = Inr v \<Longrightarrow> err = None \<and> v = ConvertUser u" "err \<noteq> None \<Longrightarrow> \<exists>st. res = Inl st"
      using assms(6) True Inr
      by (auto simp: gapi_CreateUser_def Let_def split: prod.splits option.splits if_splits)
    have hook: "send_verify_email server u r = (None, r') \<Longrightarrow> usr_Username u = cr_Username req \<Longrightarrow>
        pending A r' = pending A r @ [(cr_Username req, verify_email_opts)]"
      using redis.nil_enqueues [OF assms(3), of "\<lparr>pve_Username = cr_Username req\<rparr>" verify_email_opts r r'] graphic assms(5)
      by (simp add: send_verify_email_def)
    show ?thesis
      using CreateUserTx_outcome [OF assms(1,2) tx] hook res check_hashed_password [OF assms(4) Inr]
      by (auto simp: user_row_def)
  qed (use assms(6) True in \<open>auto simp: gapi_CreateUser_def\<close>)
qed (use assms(6) in \<open>auto simp: gapi_CreateUser_def\<close>)

definition sample_glibs :: glibs where
  "sample_glibs = \<lparr>gl_parse_address = (\<lambda>s. CHR ''@'' \<in> set s), gl_bcrypt = sample_bcrypt, gl_with_details = (\<lambda>_. True)\<rparr>"

definition sample_gserver :: "redis gServer" where
  "sample_gserver = \<lparr>gs_config = srv_config sample_server, gs_tokenMaker = srv_tokenMaker sample_server,
     gs_taskDistributor = DistributeTaskSendVerifyEmail sample_asynq\<rparr>"

definition empty_redis :: redis where
  "empty_redis = \<lparr>rd_tasks = [], rd_retry = [], rd_archived = [], rd_completed = [], rd_tick = 0\<rparr>"

definition carl_request :: CreateUserRequest where
  "carl_request = \<lparr>cr_Username = ''carl'', cr_FullName = ''Carl'', cr_Email = ''carl@x.org'', cr_Password = ''secret''\<rparr>"

lemma carl_created:
  "fst (gapi_CreateUser sample_glibs sample_gserver good_env sample_rv carl_request empty_redis (sample_conn 100 5)) =
     Inr (ConvertUser (user_row 0 (sample_params ''carl'' ''carl@x.org'')\<lparr>usr_FullName := ''Carl''\<rparr>))"
  by code_simp

theorem created_user_witness:
  "\<exists>v r' c'. gapi_CreateUser sample_glibs sample_gserver good_env sample_rv carl_request empty_redis (sample_conn 100 5) =
       (Inr v, r', c') \<and> pending sample_asynq r' = [(''carl'', verify_email_opts)] \<and> \<not> same_tables (sample_db 100 5) (c_db c')"
proof -
  obtain v r' c' where run: "gapi_CreateUser sample_glibs sample_gserver good_env sample_rv carl_request empty_redis
      (sample_conn 100 5) = (Inr v, r', c')"
    using carl_created by (metis prod.collapse)
  have "bcrypt_ok (gl_bcrypt sample_glibs)" "pending sample_asynq empty_redis = []"
    using sample_bcrypt_ok by (simp_all add: sample_glibs_def pending_def empty_redis_def)
  with created_user_has_task [OF sample_conn_simps(2) good_env_simps(2) sample_json_ok _ _ run] run show ?thesis
    by (auto simp: sample_gserver_def carl_request_def same_tables_def)
qed

text \<open>
  A name or an email that is taken is answered AlreadyExists, before anything is queued or
  written. (The message blames the name in both cases.)
\<close>

theorem create_user_duplicate:
  assumes "no_faults E" and "c_tx c = Autocommit" and "validateCreateUserRequest (gl_parse_address L) req = []"
    and "HashPassword (gl_bcrypt L) (rv_salt rv) (cr_Password req) = Inr hash"
    and "has_key usr_Username (cr_Username req) (users (c_db c)) \<or> has_key usr_Email (cr_Email req) (users (c_db c))"
  shows "\<exists>c' err. gapi_CreateUser L server E rv req w c =
    (Inl (status_Errorf AlreadyExists ''username already exists %s '' [FErr err]), w, c') \<and>
    same_tables (c_db c) (c_db c')"
proof -
  let ?arg = "\<lparr>cup_Username = cr_Username req, cup_HashedPassword = hash, cup_FullName = cr_FullName req,
    cup_Email = cr_Email req\<rparr>"
  have "\<not> user_possible ?arg (c_db c)" using assms(5) by (auto simp: user_possible_def)
  then obtain c' err where tx: "CreateUserTx E ?arg (send_verify_email server) w c = (((zero_user, Some err), w), c')"
    "errors_as_pq err = Some ''unique_violation''"
    and same: "same_tables (c_db c) (c_db c')"
    using CreateUserTx_no_faults [OF assms(1,2), of ?arg "send_verify_email server" w] by (auto split: if_splits)
  then show ?thesis
    using assms(3,4) by (auto simp: gapi_CreateUser_def)
qed

theorem create_user_duplicate_witness:
  "\<exists>c' err. gapi_CreateUser sample_glibs sample_gserver good_env sample_rv (carl_request\<lparr>cr_Email := ''ann@x.org''\<rparr>) empty_redis
     (sample_conn 100 5) = (Inl (status_Errorf AlreadyExists ''username already exists %s '' [FErr err]), empty_redis, c')"
proof -
  let ?req = "carl_request\<lparr>cr_Email := ''ann@x.org''\<rparr>"
  have valid: "validateCreateUserRequest (gl_parse_address sample_glibs) ?req = []" by code_simp
  have hash: "HashPassword (gl_bcrypt sample_glibs) (rv_salt sample_rv) (cr_Password ?req) = Inr ''$2a$secret''" by code_simp
  have "has_key usr_Email (cr_Email ?req) (users (c_db (sample_conn 100 5)))" by code_simp
  with create_user_duplicate [OF good_env_simps(1) sample_conn_simps(2) valid hash, of 100 5 sample_gserver empty_redis]
  show ?thesis by blast
qed

subsection \<open>Updating users\<close>

lemma fill_password_update:
  assumes "fill_password L rv req (update_args req) = Inr args"
  shows "uup_Username args = uq_Username req \<and>
    coalesce_string (uup_FullName args) n = (if GetFullName req = '''' then n else GetFullName req) \<and>
    coalesce_string (uup_Email args) m = (if GetEmail req = '''' then m else GetEmail req) \<and>
    (case uq_Password req of
       None \<Rightarrow> coalesce_string (uup_HashedPassword args) h = h \<and> coalesce_time (uup_PasswordChangedAt args) t = t
     | Some pw \<Rightarrow> HashPassword (gl_bcrypt L) (rv_salt rv) pw = Inr (coalesce_string (uup_HashedPassword args) h) \<and>
         coalesce_time (uup_PasswordChangedAt args) t = timestamptz (rv_now rv))"
proof (cases "uq_Password req")
  case None
  then have "args = update_args req" using assms by (simp add: fill_password_def)
  with None show ?thesis
    by (simp add: update_args_def null_string_def null_time_def coalesce_string_def coalesce_time_def)
next
  case (Some pw)
  then obtain hash where "HashPassword (gl_bcrypt L) (rv_salt rv) pw = Inr hash"
    "args = (update_args req)\<lparr>uup_HashedPassword := \<lparr>ns_String = hash, ns_Valid = True\<rparr>,
       uup_PasswordChangedAt := \<lparr>nt_Time = rv_now rv, nt_Valid = True\<rparr>\<rparr>"
    using assms by (auto simp: fill_password_def GetPassword_def get_opt_def split: sum.splits)
  with Some show ?thesis
    by (simp add: update_args_def coalesce_string_def coalesce_time_def)
qed

lemma UpdateUser_ok:
  assumes "UpdateUser E args c = (Inr user, c')" and "c_tx c = Autocommit"
  shows "\<exists>old. row_of usr_Username (uup_Username args) (users (c_db c)) = Some old \<and> user = user_after_update args old \<and>
    c_db c' = (c_db c)\<lparr>users := upd_rows usr_Username (uup_Username args) (user_after_update args) (users (c_db c))\<rparr> \<and>
    c_tx c' = Autocommit"
  using query_row_autocommit(4) [OF assms(2) assms(1) [unfolded UpdateUser_def] refl]
    query_row_autocommit(1) [OF assms(2) assms(1) [unfolded UpdateUser_def]]
  by (auto simp: sql_update_user_def Let_def split: option.splits if_splits)

lemma gapi_UpdateUser_ok:
  assumes "gapi_UpdateUser L server E rv ctx req c = (Inr v, c')" and "c_tx c = Autocommit"
  obtains p args old where "authorizeUser (gs_tokenMaker server) (rv_auth_now rv) ctx = Inr p"
    "pl_Username p = uq_Username req" "fill_password L rv req (update_args req) = Inr args"
    "row_of usr_Username (uq_Username req) (users (c_db c)) = Some old" "v = ConvertUser (user_after_update args old)"
    "c_db c' = (c_db c)\<lparr>users := upd_rows usr_Username (uq_Username req) (user_after_update args) (users (c_db c))\<rparr>"
    "c_tx c' = Autocommit"
proof -
  obtain p args user where 1: "authorizeUser (gs_tokenMaker server) (rv_auth_now rv) ctx = Inr p"
    "pl_Username p = uq_Username req" "fill_password L rv req (update_args req) = Inr args"
    "UpdateUser E args c = (Inr user, c')" "v = ConvertUser user"
    using assms(1) by (auto simp: gapi_UpdateUser_def Let_def split: sum.splits prod.splits if_splits)
  have "uup_Username args = uq_Username req" using fill_password_update [OF 1(3)] by simp
  with UpdateUser_ok [OF 1(4) assms(2)] obtain old where
    "row_of usr_Username (uq_Username req) (users (c_db c)) = Some old" "user = user_after_update args old"
    "c_db c' = (c_db c)\<lparr>users := upd_rows usr_Username (uq_Username req) (user_after_update args) (users (c_db c))\<rparr>"
    "c_tx c' = Autocommit"
    by auto
  with 1 show ?thesis by (intro that [of p args old]) auto
qed

text \<open>
  C31: \<open>UpdateUser\<close> changes one row, that of the user who holds the token: the fields given (and not
  empty) are replaced, the password by a hash the new password checks against; every other user,
  and every other table, is untouched.
\<close>

theorem update_user_own_fields:
  assumes "c_tx c = Autocommit" and "bcrypt_ok (gl_bcrypt L)"
    and "gapi_UpdateUser L server E rv ctx req c = (Inr v, c')"
  shows "\<exists>p old new. authorizeUser (gs_tokenMaker server) (rv_auth_now rv) ctx = Inr p \<and> pl_Username p = uq_Username req \<and>
    row_of usr_Username (uq_Username req) (users (c_db c)) = Some old \<and> v = ConvertUser new \<and>
    (\<forall>n. row_of usr_Username n (users (c_db c')) =
       (if n = uq_Username req then Some new else row_of usr_Username n (users (c_db c)))) \<and>
    c_db c' = (c_db c)\<lparr>users := users (c_db c')\<rparr> \<and>
    usr_Username new = usr_Username old \<and> usr_CreatedAt new = usr_CreatedAt old \<and>
    usr_FullName new = (if GetFullName req = '''' then usr_FullName old else GetFullName req) \<and>
    usr_Email new = (if GetEmail req = '''' then usr_Email old else GetEmail req) \<and>
    (case uq_Password req of
       None \<Rightarrow> usr_HashedPassword new = usr_HashedPassword old \<and> usr_PasswordChangedAt new = usr_PasswordChangedAt old
     | Some pw \<Rightarrow> CheckPassword (gl_bcrypt L) pw (usr_HashedPassword new) = None \<and> usr_PasswordChangedAt new = timestamptz (rv_now rv))"
  using assms(3,1)
proof (cases rule: gapi_UpdateUser_ok)
  case (1 p args old)
  let ?new = "user_after_update args old"
  have rows: "row_of usr_Username n (users (c_db c')) =
      (if n = uq_Username req then Some ?new else row_of usr_Username n (users (c_db c)))" for n
    unfolding 1(6) using users_tbl.lookup_update [of "user_after_update args" n "uq_Username req" "c_db c"] 1(4) by simp
  note upd = fill_password_update [OF 1(3), of "usr_FullName old" "usr_Email old" "usr_HashedPassword old" "usr_PasswordChangedAt old"]
  show ?thesis
  proof (intro exI conjI)
    show "case uq_Password req of
       None \<Rightarrow> usr_HashedPassword ?new = usr_HashedPassword old \<and> usr_PasswordChangedAt ?new = usr_PasswordChangedAt old
     | Some pw \<Rightarrow> CheckPassword (gl_bcrypt L) pw (usr_HashedPassword ?new) = None \<and> usr_PasswordChangedAt ?new = timestamptz (rv_now rv)"
      using upd check_hashed_password [OF assms(2)] by (auto simp: user_after_update_def split: option.splits)
  qed (use 1 rows upd in \<open>auto simp: user_after_update_def\<close>)
qed

definition ann_ctx :: grpc_ctx where
  "ann_ctx = \<lparr>cx_metadata = Some [(''authorization'', [bearer_ann]), (''user-agent'', [''grpcurl''])], cx_peer = Some ''10.0.0.1''\<rparr>"

definition ann_update :: UpdateUserRequest where
  "ann_update = \<lparr>uq_Username = ''ann'', uq_FullName = None, uq_Email = None, uq_Password = Some ''changed''\<rparr>"

lemma ann_authorized: "authorizeUser (gs_tokenMaker sample_gserver) (rv_auth_now sample_rv) ann_ctx = Inr access_payload"
  unfolding authorizeUser_iff
  using sample_auth [unfolded authMiddleware_iff] by (simp add: ann_ctx_def md_get_def sample_gserver_def)

lemma ann_updates:
  "\<exists>v c'. gapi_UpdateUser sample_glibs sample_gserver good_env sample_rv ann_ctx ann_update (sample_conn 100 5) = (Inr v, c')"
proof -
  have valid: "validateUpdateUserRequest (gl_parse_address sample_glibs) ann_update = []" by code_simp
  have name: "pl_Username access_payload = uq_Username ann_update"
    by (simp add: access_payload_def ann_update_def)
  obtain args where args: "fill_password sample_glibs sample_rv ann_update (update_args ann_update) = Inr args"
    by (auto simp: fill_password_def ann_update_def sample_glibs_def sample_bcrypt_def HashPassword_def
        GetPassword_def get_opt_def)
  have "uup_Username args = ''ann''" "coalesce_string (uup_Email args) ''ann@x.org'' = ''ann@x.org''"
    using fill_password_update [OF args, of _ "''ann@x.org''"]
    by (simp_all add: ann_update_def GetEmail_def get_opt_def)
  then obtain v c' where "UpdateUser good_env args (sample_conn 100 5) = (Inr v, c')"
    by (simp add: UpdateUser_def query_row_no_faults sql_update_user_def sample_db_def sample_user_def row_of_Cons
        Let_def user_after_update_def)
  with ann_authorized valid name args show ?thesis by (simp add: gapi_UpdateUser_def)
qed

theorem update_user_witness:
  "\<exists>v c' new. gapi_UpdateUser sample_glibs sample_gserver good_env sample_rv ann_ctx ann_update (sample_conn 100 5) = (Inr v, c') \<and>
     row_of usr_Username ''ann'' (users (c_db c')) = Some new \<and> usr_Email new = ''ann@x.org'' \<and>
     CheckPassword sample_bcrypt ''changed'' (usr_HashedPassword new) = None"
proof -
  obtain v c' where run: "gapi_UpdateUser sample_glibs sample_gserver good_env sample_rv ann_ctx ann_update (sample_conn 100 5) = (Inr v, c')"
    using ann_updates by blast
  have "bcrypt_ok (gl_bcrypt sample_glibs)" using sample_bcrypt_ok by (simp add: sample_glibs_def)
  from update_user_own_fields [OF sample_conn_simps(2) this run] run show ?thesis
    by (auto simp: ann_update_def GetEmail_def get_opt_def sample_glibs_def sample_db_def sample_user_def row_of_Cons)
qed

subsection \<open>The two logins\<close>

fun http_status_of :: "code \<Rightarrow> nat" where
  "http_status_of InvalidArgument = StatusBadRequest"
| "http_status_of NotFound = StatusNotFound"
| "http_status_of AlreadyExists = 409"
| "http_status_of PermissionDenied = StatusForbidden"
| "http_status_of Unauthenticated = StatusUnauthorized"
| "http_status_of Internal = StatusInternalServerError"
| "http_status_of Unknown = StatusInternalServerError"
| "http_status_of Unimplemented = 501"
| "http_status_of OK = StatusOK"

definition login_response :: "LoginUserResponse \<Rightarrow> loginUserResponse" where
  "login_response r = \<lparr>lr_SessionID = ls_SessionId r, lr_AccessToken = ls_AccessToken r,
     lr_AccessTokenExpiredAt = ls_AccessTokenExpiresAt r, lr_RefreshToken = ls_RefreshToken r,
     lr_RefreshTokenExpiredAt = ls_RefreshTokenExpiresAt r,
     lr_User = \<lparr>ur_Username = pu_Username (ls_User r), ur_FullName = pu_FullName (ls_User r),
       ur_PasswordChangedAt = pu_PasswordChangedAt (ls_User r), ur_Email = pu_Email (ls_User r),
       ur_CreatedAt = pu_CreatedAt (ls_User r)\<rparr>\<rparr>"

text \<open>
  C36: for a request both servers accept as well-formed, the gRPC login and the HTTP login are the
  same operation: same effect on the database, same response or corresponding error status.
\<close>

theorem login_servers_agree:
  assumes "validateLoginUserRequest \<lparr>lq_Username = n, lq_Password = pw\<rparr> = []"
    and "tags_ok (lib_email_tag L) (loginUserRequest_tags \<lparr>lur_UserName = n, lur_Password = pw\<rparr>)"
    and "lib_bcrypt L = gl_bcrypt G" and "srv_config srv = gs_config server" and "srv_tokenMaker srv = gs_tokenMaker server"
  shows "\<exists>gres hresp c'. gapi_LoginUser G server E rv ctx \<lparr>lq_Username = n, lq_Password = pw\<rparr> c = (gres, c') \<and>
    api_loginUser L srv E rv (md_UserAgent (extractMetaData ctx)) (md_ClientIp (extractMetaData ctx))
      (Inr \<lparr>lur_UserName = n, lur_Password = pw\<rparr>) c = (hresp, c') \<and>
    (case gres of Inr r \<Rightarrow> hresp = (StatusOK, LoginBody (login_response r))
     | Inl st \<Rightarrow> fst hresp = http_status_of (st_Code st))"
proof -
  obtain gres c1 where g: "gapi_LoginUser G server E rv ctx \<lparr>lq_Username = n, lq_Password = pw\<rparr> c = (gres, c1)"
    by fastforce
  obtain hresp c2 where h: "api_loginUser L srv E rv (md_UserAgent (extractMetaData ctx)) (md_ClientIp (extractMetaData ctx))
      (Inr \<lparr>lur_UserName = n, lur_Password = pw\<rparr>) c = (hresp, c2)"
    by fastforce
  obtain ru cu where get: "GetUser E n c = (ru, cu)" by fastforce
  note defs = gapi_LoginUser_def api_loginUser_def should_bind_def Let_def login_response_def ConvertUser_def
    newUserResponse_def status_Errorf_def errResponse_def get
  have "c1 = c2 \<and> (case gres of Inr r \<Rightarrow> hresp = (StatusOK, LoginBody (login_response r))
     | Inl st \<Rightarrow> fst hresp = http_status_of (st_Code st))"
  proof (cases ru)
    case (Inl err)
    with g h assms show ?thesis by (auto simp: defs split: if_splits)
  next
    case (Inr user)
    show ?thesis
    proof (cases "CheckPassword (gl_bcrypt G) pw (usr_HashedPassword user)")
      case None
      with Inr g h assms show ?thesis
        by (cases "mk_CreateToken (gs_tokenMaker server) (rv_access rv) (usr_Username user) (AccessTokenDuration (gs_config server))";
            cases "mk_CreateToken (gs_tokenMaker server) (rv_refresh rv) (usr_Username user) (RefreshTokenDuration (gs_config server))")
          (auto simp: defs split: sum.splits prod.splits)
    qed (use Inr g h assms in \<open>auto simp: defs\<close>)
  qed
  with g h show ?thesis by auto
qed

theorem login_servers_agree_witness:
  "\<exists>r c'. gapi_LoginUser sample_glibs sample_gserver good_env (sample_rv) \<lparr>cx_metadata = None, cx_peer = None\<rparr>
     \<lparr>lq_Username = ''ann'', lq_Password = ''secret''\<rparr> (sample_conn 100 5) = (r, c') \<and>
   snd (api_loginUser sample_libs sample_server good_env sample_rv '''' '''' (Inr \<lparr>lur_UserName = ''ann'', lur_Password = ''secret''\<rparr>)
     (sample_conn 100 5)) = c'"
proof -
  let ?ctx = "\<lparr>cx_metadata = None, cx_peer = None\<rparr> :: grpc_ctx"
  have valid: "validateLoginUserRequest \<lparr>lq_Username = ''ann'', lq_Password = ''secret''\<rparr> = []" by code_simp
  have tags: "tags_ok (lib_email_tag sample_libs) (loginUserRequest_tags \<lparr>lur_UserName = ''ann'', lur_Password = ''secret''\<rparr>)"
    using sample_tags(2) by (simp add: should_bind_Inr)
  have eqs: "lib_bcrypt sample_libs = gl_bcrypt sample_glibs" "srv_config sample_server = gs_config sample_gserver"
    "srv_tokenMaker sample_server = gs_tokenMaker sample_gserver"
    by (simp_all add: sample_libs_def sample_glibs_def sample_gserver_def)
  have md: "md_UserAgent (extractMetaData ?ctx) = ''''" "md_ClientIp (extractMetaData ?ctx) = ''''"
    by (simp_all add: extractMetaData_def)
  obtain gres hresp c' where "gapi_LoginUser sample_glibs sample_gserver good_env sample_rv ?ctx
        \<lparr>lq_Username = ''ann'', lq_Password = ''secret''\<rparr> (sample_conn 100 5) = (gres, c')"
    "api_loginUser sample_libs sample_server good_env sample_rv '''' ''''
        (Inr \<lparr>lur_UserName = ''ann'', lur_Password = ''secret''\<rparr>) (sample_conn 100 5) = (hresp, c')"
    using login_servers_agree [OF valid tags eqs, of good_env sample_rv ?ctx "sample_conn 100 5", unfolded md] by blast
  then show ?thesis by (metis snd_conv)
qed

end
