(* ===== verification/Gateway_Props.thy ===== *)
theory Gateway_Props
  imports Gateway Gapi_Props
begin

text \<open>
  What a client of the HTTP gateway can rely on: it is the gRPC API, in either way of registering it.
\<close>

subsection \<open>The gateway and the gRPC server are one API\<close>

text \<open>
  What a request may come to: an error of the context or of reading the body, a body that does not
  decode, each without a call; or the call, whose result is the reply.
\<close>

definition gw_outcome ::
  "('a \<Rightarrow> gw_message) \<Rightarrow> grpc_ctx result \<Rightarrow> string result \<Rightarrow> (string \<Rightarrow> go_error option \<times> 'req)
   \<Rightarrow> (grpc_ctx \<Rightarrow> 'req \<Rightarrow> 's \<Rightarrow> (rpc_error + 'a) \<times> 's) \<Rightarrow> 's \<Rightarrow> gw_reply \<times> 's"
where
  "gw_outcome msg annotated read decode call s =
     (let invalid = (\<lambda>err. (HTTPError (StatusError (status_Errorf InvalidArgument ''%v'' [FErr err])), s))
      in case annotated of
           Inl err \<Rightarrow> (HTTPError (OtherError err), s)
         | Inr ctx \<Rightarrow>
             (case read of
                Inl err \<Rightarrow> invalid err
              | Inr body \<Rightarrow>
                  (if fst (decode body) \<in> {None, Some ErrEOF} then gw_reply_of msg (call ctx (snd (decode body)) s)
                   else invalid (the (fst (decode body))))))"

lemma gw_reply_of_error: "gw_reply_of msg (Inl err, s) = (HTTPError err, s)"
  by (simp add: gw_reply_of_def)

lemma server_CreateUser_outcome:
  "server_CreateUser_0 L (gapi_server G srv E rv) req (w, c) =
    gw_outcome CreateUserOut (gw_AnnotateIncomingContext L req ''/pb.Bank/CreateUser'' ''/v1/create_user'') (gw_IOReaderFactory L req)
      (gw_decode_CreateUser L) (\<lambda>ctx m (w, c). case gapi_CreateUser G srv E rv m w c of (r, w', c') \<Rightarrow> (returns_status r, w', c')) (w, c)"
  by (auto simp: server_CreateUser_0_def gw_decoded_def local_requests gw_outcome_def gapi_server_def Let_def
      gw_reply_of_error split: sum.split prod.splits option.split)

lemma server_LoginUser_outcome:
  "server_LoginUser_0 L (gapi_server G srv E rv) req (w, c) =
    gw_outcome LoginUserOut (gw_AnnotateIncomingContext L req ''/pb.Bank/LoginUser'' ''/v1/login_user'') (gw_IOReaderFactory L req)
      (gw_decode_LoginUser L) (\<lambda>ctx m (w, c). case gapi_LoginUser G srv E rv ctx m c of (r, c') \<Rightarrow> (returns_status r, w, c')) (w, c)"
  by (auto simp: server_LoginUser_0_def gw_decoded_def local_requests gw_outcome_def gapi_server_def Let_def
      gw_reply_of_error split: sum.split prod.splits option.split)

lemma server_UpdateUser_outcome:
  "server_UpdateUser_0 L (gapi_server G srv E rv) req (w, c) =
    gw_outcome UpdateUserOut (gw_AnnotateIncomingContext L req ''/pb.Bank/UpdateUser'' ''/v1/update_user'') (gw_IOReaderFactory L req)
      (gw_decode_UpdateUser L) (\<lambda>ctx m (w, c). case gapi_UpdateUser G srv E rv ctx m c of (r, c') \<Rightarrow> (returns_status r, w, c')) (w, c)"
  by (auto simp: server_UpdateUser_0_def gw_decoded_def local_requests gw_outcome_def gapi_server_def Let_def
      gw_reply_of_error split: sum.split prod.splits option.split)

lemma gateway_call_rpc_lemma:
  assumes "literal_patterns L"
  shows "gw_ServeHTTP L (RegisterBankHandlerServer L (gapi_server G srv E rv) []) method path req (w, c) =
    (if method = ''POST'' \<and> path = ''/v1/create_user''
     then gw_outcome CreateUserOut (gw_AnnotateIncomingContext L req ''/pb.Bank/CreateUser'' path) (gw_IOReaderFactory L req)
       (gw_decode_CreateUser L)
       (\<lambda>ctx m (w, c). case gapi_CreateUser G srv E rv m w c of (r, w', c') \<Rightarrow> (returns_status r, w', c')) (w, c)
     else if method = ''POST'' \<and> path = ''/v1/login_user''
     then gw_outcome LoginUserOut (gw_AnnotateIncomingContext L req ''/pb.Bank/LoginUser'' path) (gw_IOReaderFactory L req)
       (gw_decode_LoginUser L)
       (\<lambda>ctx m (w, c). case gapi_LoginUser G srv E rv ctx m c of (r, c') \<Rightarrow> (returns_status r, w, c')) (w, c)
     else if method = ''PATCH'' \<and> path = ''/v1/update_user''
     then gw_outcome UpdateUserOut (gw_AnnotateIncomingContext L req ''/pb.Bank/UpdateUser'' path) (gw_IOReaderFactory L req)
       (gw_decode_UpdateUser L)
       (\<lambda>ctx m (w, c). case gapi_UpdateUser G srv E rv ctx m c of (r, c') \<Rightarrow> (returns_status r, w, c')) (w, c)
     else (NoRoute, w, c))"
  by (simp add: gw_routes [OF assms] server_CreateUser_outcome server_LoginUser_outcome server_UpdateUser_outcome
      cong: conj_cong if_cong)

text \<open>
  C21: every request to the gateway, whatever its method, path, headers and body, is one call of the gRPC
  server or none. On the three routes of the service the reply is the call's result and the queue and the
  database are those the call leaves; an empty body (\<open>io.EOF\<close>) calls with the message as decoded. Nothing
  is called and nothing changes if the context cannot be annotated (that error is the reply), if the body
  cannot be read or does not decode (InvalidArgument), and if no route has that method and path.
\<close>

theorem gateway_call_is_rpc:
  assumes "literal_patterns L"
  shows "gw_ServeHTTP L (RegisterBankHandlerServer L (gapi_server G srv E rv) []) method path req (w, c) =
    (if method = ''POST'' \<and> path = ''/v1/create_user''
     then gw_outcome CreateUserOut (gw_AnnotateIncomingContext L req ''/pb.Bank/CreateUser'' path) (gw_IOReaderFactory L req)
       (gw_decode_CreateUser L)
       (\<lambda>ctx m (w, c). case gapi_CreateUser G srv E rv m w c of (r, w', c') \<Rightarrow> (returns_status r, w', c')) (w, c)
     else if method = ''POST'' \<and> path = ''/v1/login_user''
     then gw_outcome LoginUserOut (gw_AnnotateIncomingContext L req ''/pb.Bank/LoginUser'' path) (gw_IOReaderFactory L req)
       (gw_decode_LoginUser L)
       (\<lambda>ctx m (w, c). case gapi_LoginUser G srv E rv ctx m c of (r, c') \<Rightarrow> (returns_status r, w, c')) (w, c)
     else if method = ''PATCH'' \<and> path = ''/v1/update_user''
     then gw_outcome UpdateUserOut (gw_AnnotateIncomingContext L req ''/pb.Bank/UpdateUser'' path) (gw_IOReaderFactory L req)
       (gw_decode_UpdateUser L)
       (\<lambda>ctx m (w, c). case gapi_UpdateUser G srv E rv ctx m c of (r, c') \<Rightarrow> (returns_status r, w, c')) (w, c)
     else (NoRoute, w, c))"
  by (rule gateway_call_rpc_lemma [OF assms])

text \<open>The validators reject the zero messages, so an empty body never reaches the store.\<close>

lemma zero_message_violations:
  "validateCreateUserRequest pa \<lparr>cr_Username = '''', cr_FullName = '''', cr_Email = '''', cr_Password = ''''\<rparr> \<noteq> []"
  "validateLoginUserRequest \<lparr>lq_Username = '''', lq_Password = ''''\<rparr> \<noteq> []"
  "validateUpdateUserRequest pa \<lparr>uq_Username = '''', uq_FullName = None, uq_Email = None, uq_Password = None\<rparr> \<noteq> []"
  by (simp_all add: validateCreateUserRequest_def validateLoginUserRequest_def validateUpdateUserRequest_def
      violation_def ValidateUsername_def ValidateString_def)

definition zero_create :: CreateUserRequest where
  "zero_create = \<lparr>cr_Username = '''', cr_FullName = '''', cr_Email = '''', cr_Password = ''''\<rparr>"

definition zero_login :: LoginUserRequest where
  "zero_login = \<lparr>lq_Username = '''', lq_Password = ''''\<rparr>"

definition zero_update :: UpdateUserRequest where
  "zero_update = \<lparr>uq_Username = '''', uq_FullName = None, uq_Email = None, uq_Password = None\<rparr>"

definition sample_runtime :: "string gw_runtime" where
  "sample_runtime =
     \<lparr>gw_IOReaderFactory = Inr,
      gw_decode_CreateUser = (\<lambda>b. if b = '''' then (Some ErrEOF, zero_create) else (None, carl_request)),
      gw_decode_LoginUser = (\<lambda>b. if b = '''' then (Some ErrEOF, zero_login) else (Some (ExtError ''syntax error''), zero_login)),
      gw_decode_UpdateUser = (\<lambda>b. if b = '''' then (Some ErrEOF, zero_update) else (None, ann_update)),
      gw_AnnotateIncomingContext = (\<lambda>req method pattern. Inr ann_ctx),
      gw_AnnotateContext = (\<lambda>req method pattern. Inr ann_ctx),
      gw_match = (\<lambda>p path. path = ''/'' @ pt_pool p ! 0 @ ''/'' @ pt_pool p ! 1)\<rparr>"

lemma sample_literal: "literal_patterns sample_runtime"
  by (simp add: literal_patterns_def sample_runtime_def)

theorem gateway_call_witness:
  "\<exists>v c'. gw_ServeHTTP sample_runtime (RegisterBankHandlerServer sample_runtime
       (gapi_server sample_glibs sample_gserver good_env sample_rv) []) ''PATCH'' ''/v1/update_user'' ''{}''
       (empty_redis, sample_conn 100 5) = (ForwardResponseMessage (UpdateUserOut v), empty_redis, c')"
  using gateway_call_is_rpc [OF sample_literal, of sample_glibs sample_gserver good_env sample_rv "''PATCH''" "''/v1/update_user''" "''{}''"
      empty_redis "sample_conn 100 5"] ann_updates
  by (auto simp: sample_runtime_def gw_outcome_def gw_reply_of_def returns_status_def)

text \<open>
  A request with an empty body, which decodes to the zero message, never reaches the store: the
  user-creating and login routes answer InvalidArgument, the update route too once the caller is
  authorized (and Unauthenticated before that).
\<close>

theorem gateway_empty_body:
  assumes "literal_patterns L" and "\<And>method pattern. gw_AnnotateIncomingContext L req method pattern = Inr ctx"
    and "gw_IOReaderFactory L req = Inr ''''"
    and "gw_decode_CreateUser L '''' = (Some ErrEOF, zero_create)" "gw_decode_LoginUser L '''' = (Some ErrEOF, zero_login)"
      "gw_decode_UpdateUser L '''' = (Some ErrEOF, zero_update)"
    and "(m, path) \<in> {(''POST'', ''/v1/create_user''), (''POST'', ''/v1/login_user''), (''PATCH'', ''/v1/update_user'')}"
  shows "\<exists>st. gw_ServeHTTP L (RegisterBankHandlerServer L (gapi_server G srv E rv) []) m path req (w, c) =
      (HTTPError (StatusError st), w, c) \<and>
    st_Code st = (if m = ''POST'' \<or> (\<exists>p. authorizeUser (gs_tokenMaker srv) (rv_auth_now rv) ctx = Inr p)
                  then InvalidArgument else Unauthenticated)"
proof -
  note call = gateway_call_rpc_lemma [OF assms(1), of G srv E rv m path req w c]
  note zero = zero_message_violations [folded zero_create_def zero_login_def zero_update_def]
  show ?thesis
    using assms(7) call zero
    by (auto simp: assms(2-6) gw_outcome_def gw_reply_of_def gapi_CreateUser_def gapi_LoginUser_def gapi_UpdateUser_def
        Let_def returns_status_def invalidArgumentError_def unauthenticatedError_def status_Errorf_def split: sum.splits)
qed

theorem gateway_empty_body_witness:
  "\<exists>st. gw_ServeHTTP sample_runtime (RegisterBankHandlerServer sample_runtime
       (gapi_server sample_glibs sample_gserver good_env sample_rv) []) ''POST'' ''/v1/create_user'' ''''
       (empty_redis, sample_conn 100 5) = (HTTPError (StatusError st), empty_redis, sample_conn 100 5) \<and>
     st_Code st = InvalidArgument"
  using gateway_empty_body [OF sample_literal, of "''''" ann_ctx "''POST''" "''/v1/create_user''" sample_glibs sample_gserver
      good_env sample_rv empty_redis "sample_conn 100 5"]
  by (simp add: sample_runtime_def)

text \<open>A transport carries a call to the handlers of a server and back; the context arrives through \<open>arrive\<close>.\<close>

definition stub_agrees ::
  "('s, 'req, 'resp) invoke \<Rightarrow> string \<Rightarrow> (grpc_ctx \<Rightarrow> grpc_ctx)
   \<Rightarrow> (grpc_ctx \<Rightarrow> rpc_error + 'req \<Rightarrow> ('s, 'req, 'resp) interceptor option \<Rightarrow> 's \<times> grpc_log list
       \<Rightarrow> (rpc_error + 'resp) \<times> 's \<times> grpc_log list) \<Rightarrow> bool"
where
  "stub_agrees invk method arrive handler \<longleftrightarrow> (\<forall>ctx m s.
     case handler (arrive ctx) (Inr m) (Some (GRPCLogger 0 0)) (s, []) of
       (r, s', l) \<Rightarrow> snd (invk ctx method m s) = s' \<and> fst (fst (invk ctx method m s)) = error_of r \<and>
         (case r of Inl _ \<Rightarrow> True | Inr x \<Rightarrow> snd (fst (invk ctx method m s)) = x))"

definition transport_ok :: "'s ClientConn \<Rightarrow> 's BankServer \<Rightarrow> (grpc_ctx \<Rightarrow> grpc_ctx) \<Rightarrow> bool" where
  "transport_ok cc server arrive \<longleftrightarrow>
     stub_agrees (cc_CreateUser cc) Bank_CreateUser_FullMethodName arrive (Bank_CreateUser_Handler server) \<and>
     stub_agrees (cc_LoginUser cc) Bank_LoginUser_FullMethodName arrive (Bank_LoginUser_Handler server) \<and>
     stub_agrees (cc_UpdateUser cc) Bank_UpdateUser_FullMethodName arrive (Bank_UpdateUser_Handler server)"

lemma stub_result:
  assumes "stub_agrees invk method arrive handler"
    and "\<And>ctx m s l. handler ctx (Inr m) (Some (GRPCLogger 0 0)) (s, l) = GRPCLogger 0 0 method call ctx m (s, l)"
  shows "(case invk ctx method m s of ((Some err, out), s') \<Rightarrow> (Inl err, s') | ((None, out), s') \<Rightarrow> (Inr out, s')) =
    call (arrive ctx) m s"
proof -
  obtain r s' where call: "call (arrive ctx) m s = (r, s')" by fastforce
  obtain e out t where invk: "invk ctx method m s = ((e, out), t)" by (metis surj_pair)
  from assms(1) [unfolded stub_agrees_def, rule_format, of ctx m s] call invk
  show ?thesis by (cases r) (auto simp: assms(2) GRPCLogger_def Let_def error_of_def)
qed

lemma client_is_server:
  assumes "transport_ok cc server arrive"
  shows "bs_CreateUser (NewBankClient cc) ctx m1 s = bs_CreateUser server (arrive ctx) m1 s"
    and "bs_LoginUser (NewBankClient cc) ctx m2 s = bs_LoginUser server (arrive ctx) m2 s"
    and "bs_UpdateUser (NewBankClient cc) ctx m3 s = bs_UpdateUser server (arrive ctx) m3 s"
proof -
  note T = assms [unfolded transport_ok_def]
  show "bs_CreateUser (NewBankClient cc) ctx m1 s = bs_CreateUser server (arrive ctx) m1 s"
    using stub_result [OF conjunct1 [OF T]] by (simp add: NewBankClient_def client_CreateUser_def Bank_CreateUser_Handler_def)
  show "bs_LoginUser (NewBankClient cc) ctx m2 s = bs_LoginUser server (arrive ctx) m2 s"
    using stub_result [OF conjunct1 [OF conjunct2 [OF T]]] by (simp add: NewBankClient_def client_LoginUser_def Bank_LoginUser_Handler_def)
  show "bs_UpdateUser (NewBankClient cc) ctx m3 s = bs_UpdateUser server (arrive ctx) m3 s"
    using stub_result [OF conjunct2 [OF conjunct2 [OF T]]] by (simp add: NewBankClient_def client_UpdateUser_def Bank_UpdateUser_Handler_def)
qed

text \<open>
  Both ways to register the gateway answer every request alike: calling the server directly, or
  over a client stub, the wire and the service's handlers with the logging interceptor.
\<close>

theorem gateway_modes_agree:
  assumes "transport_ok cc server arrive"
    and "\<And>method pattern. gw_AnnotateIncomingContext L req method pattern =
      map_sum id arrive (gw_AnnotateContext L req method pattern)"
  shows "gw_ServeHTTP L (RegisterBankHandlerServer L server []) method path req s =
    gw_ServeHTTP L (RegisterBankHandler L cc []) method path req s"
proof -
  have "server_CreateUser_0 L server req s = client_CreateUser_0 L (NewBankClient cc) req s"
    "server_LoginUser_0 L server req s = client_LoginUser_0 L (NewBankClient cc) req s"
    "server_UpdateUser_0 L server req s = client_UpdateUser_0 L (NewBankClient cc) req s"
    by (auto simp: server_CreateUser_0_def server_LoginUser_0_def server_UpdateUser_0_def client_CreateUser_0_def
        client_LoginUser_0_def client_UpdateUser_0_def assms(2) local_requests client_requests
        client_is_server [OF assms(1)] split: sum.splits)
  then show ?thesis
    by (auto simp: gw_ServeHTTP_def RegisterBankHandlerServer_def RegisterBankHandler_def RegisterBankHandlerClient_def)
qed

text \<open>A transport that hands calls straight to a server.\<close>

definition loopback :: "('s, 'req, 'resp) rpc_handler \<Rightarrow> 'resp \<Rightarrow> ('s, 'req, 'resp) invoke" where
  "loopback call zero ctx method m s =
     (case call ctx m s of (Inl e, s') \<Rightarrow> ((Some e, zero), s') | (Inr x, s') \<Rightarrow> ((None, x), s'))"

definition zero_pb_user :: pb_User where
  "zero_pb_user = \<lparr>pu_Username = '''', pu_FullName = '''', pu_Email = '''', pu_PasswordChangedAt = 0, pu_CreatedAt = 0\<rparr>"

definition loopback_conn :: "'s BankServer \<Rightarrow> 's ClientConn" where
  "loopback_conn server = \<lparr>cc_CreateUser = loopback (bs_CreateUser server) zero_pb_user,
     cc_LoginUser = loopback (bs_LoginUser server) \<lparr>ls_User = zero_pb_user, ls_SessionId = '''', ls_AccessToken = '''',
       ls_RefreshToken = '''', ls_AccessTokenExpiresAt = 0, ls_RefreshTokenExpiresAt = 0\<rparr>,
     cc_UpdateUser = loopback (bs_UpdateUser server) zero_pb_user\<rparr>"

lemma loopback_transport: "transport_ok (loopback_conn server) server id"
  by (auto simp: transport_ok_def stub_agrees_def loopback_conn_def loopback_def Bank_CreateUser_Handler_def
      Bank_LoginUser_Handler_def Bank_UpdateUser_Handler_def GRPCLogger_def Let_def error_of_def
      split: prod.splits sum.splits)

theorem gateway_modes_witness:
  "gw_ServeHTTP sample_runtime (RegisterBankHandler sample_runtime
       (loopback_conn (gapi_server sample_glibs sample_gserver good_env sample_rv)) []) ''PATCH'' ''/v1/update_user'' ''{}''
       (empty_redis, sample_conn 100 5) =
   gw_ServeHTTP sample_runtime (RegisterBankHandlerServer sample_runtime
       (gapi_server sample_glibs sample_gserver good_env sample_rv) []) ''PATCH'' ''/v1/update_user'' ''{}''
       (empty_redis, sample_conn 100 5)"
  by (rule gateway_modes_agree [OF loopback_transport, symmetric]) (simp add: sample_runtime_def)

end
