(* ===== verification/Handlers_Keep.thy ===== *)
theory Handlers_Keep
  imports Gapi Http_Keeps
begin

text \<open>
  The interface between a property of the tables that every writing statement the servers use keeps
  and the servers: the locale \<open>stmt_invariant\<close> carries it through the methods of \<open>Querier\<close>, the store's
  transactions with their faults and rollbacks, and every handler. \<open>DELETE\<close> and the overwriting
  \<open>UPDATE\<close> of an account are not among the assumptions: no handler uses them.
\<close>

locale stmt_invariant = db_invariant I for I :: "database \<Rightarrow> bool" +
  assumes add_balance: "stmt_keeps I (sql_add_account_balance p1)"
    and create_account: "stmt_keeps I (sql_create_account p2)"
    and create_entry: "stmt_keeps I (sql_create_entry p3)"
    and create_transfer: "stmt_keeps I (sql_create_transfer p4)"
    and create_session: "stmt_keeps I (sql_create_session p5)"
    and create_user: "stmt_keeps I (sql_create_user p6)"
    and update_user: "stmt_keeps I (sql_update_user p7)"
begin

lemma writes_keep:
  "keeps I (AddAccountBalance E p1)" "keeps I (CreateAccount E p2)" "keeps I (CreateEntry E p3)"
  "keeps I (CreateTransfer E p4)" "keeps I (CreateSession E p5)" "keeps I (CreateUser E p6)" "keeps I (UpdateUser E p7)"
  unfolding query_defs
  by (intro query_row_keeps add_balance create_account create_entry create_transfer create_session create_user update_user)+

lemma reads_keep:
  "keeps I (GetAccount E i)" "keeps I (GetAccountForUpdate E i)" "keeps I (ListAccounts E q1)" "keeps I (GetEntry E i)"
  "keeps I (ListEntries E q2)" "keeps I (GetTransfer E i)" "keeps I (ListTransfers E q3)" "keeps I (GetSession E u)"
  "keeps I (GetUser E n)"
  unfolding query_defs by (intro query_row_keeps query_rows_keeps stmt_keeps_reads)+

lemma addMoney_keeps: "keeps I (addMoney E i1 a1 i2 a2)"
  by (rule keepsI)
    (auto simp: addMoney_def split: prod.splits sum.splits dest!: keepsD [OF writes_keep(1)] intro: seqs_le_trans)

lemma transferTx_closure_keeps: "keeps I (transferTx_closure E arg r)"
  by (rule keepsI)
    (auto simp: transferTx_closure_def Let_def split: prod.splits sum.splits if_splits
      dest!: keepsD [OF writes_keep(3)] keepsD [OF writes_keep(4)] keepsD [OF addMoney_keeps] intro: seqs_le_trans)

lemma TransferTx_keeps: "keeps I (TransferTx E arg)"
  by (rule keepsI)
    (auto simp: TransferTx_def split: prod.splits dest!: keepsD [OF execTX_keeps [OF transferTx_closure_keeps]])

lemma createUserTx_closure_keeps: "keeps I (createUserTx_closure E arg h r)"
  by (rule keepsI)
    (auto simp: createUserTx_closure_def split: prod.splits sum.splits dest!: keepsD [OF writes_keep(6)])

lemma CreateUserTx_keeps: "keeps I (CreateUserTx E arg h w)"
  by (rule keepsI)
    (auto simp: CreateUserTx_def split: prod.splits dest!: keepsD [OF execTX_keeps [OF createUserTx_closure_keeps]])

subsubsection \<open>HTTP handlers\<close>

lemma createAccount_keeps: "keeps I (api_createAccount L E p r)"
  by (rule keepsI) (auto simp: api_createAccount_def split: http_splits dest!: keepsD [OF writes_keep(2)])

lemma getAccount_keeps: "keeps I (api_getAccount L E p r)"
  by (rule keepsI) (auto simp: api_getAccount_def split: http_splits dest!: keepsD [OF reads_keep(1)])

lemma listAccount_keeps: "keeps I (api_listAccount L E p r)"
  by (rule keepsI) (auto simp: api_listAccount_def split: http_splits dest!: keepsD [OF reads_keep(3)])

lemma validAccount_keeps: "keeps I (api_validAccount E i cur)"
  by (rule keepsI) (auto simp: api_validAccount_def split: http_splits dest!: keepsD [OF reads_keep(1)])

lemma createTransfer_keeps: "keeps I (api_createTransfer L E p r)"
  by (rule keepsI)
    (auto simp: api_createTransfer_def split: http_splits
      dest!: keepsD [OF validAccount_keeps] keepsD [OF TransferTx_keeps] intro: seqs_le_trans)

lemma createUser_keeps: "keeps I (api_createUser L E rv r)"
  by (rule keepsI) (auto simp: api_createUser_def split: http_splits dest!: keepsD [OF writes_keep(6)])

lemma loginUser_keeps: "keeps I (api_loginUser L srv E rv ua ip r)"
  by (rule keepsI)
    (auto simp: api_loginUser_def split: http_splits
      dest!: keepsD [OF reads_keep(9)] keepsD [OF writes_keep(5)] intro: seqs_le_trans)

lemma reNewAccessToken_keeps: "keeps I (api_reNewAccessToken L srv E rv r)"
  by (rule keepsI) (auto simp: api_reNewAccessToken_def split: http_splits dest!: keepsD [OF reads_keep(8)])

lemma dispatch_keeps: "keeps I (dispatch L srv E rv p req)"
  by (cases req)
    (use createAccount_keeps getAccount_keeps listAccount_keeps createTransfer_keeps createUser_keeps loginUser_keeps
       reNewAccessToken_keeps in \<open>simp_all add: keeps_def\<close>)

lemma serve_keeps: "keeps I (serve L srv E rv h req)"
  by (rule keepsI) (auto simp: serve_def split: http_splits dest!: keepsD [OF dispatch_keeps])

subsubsection \<open>gRPC handlers and the task processor\<close>

lemma gapi_CreateUser_keeps:
  assumes "gapi_CreateUser L server E rv req w c = (res, w', c')" and "I (c_db c)"
  shows "I (c_db c') \<and> seqs_le (c_db c) (c_db c')"
  using assms
  by (auto simp: gapi_CreateUser_def Let_def split: http_splits dest!: keepsD [OF CreateUserTx_keeps])

lemma gapi_LoginUser_keeps: "keeps I (gapi_LoginUser L server E rv ctx req)"
  by (rule keepsI)
    (auto simp: gapi_LoginUser_def Let_def split: http_splits
      dest!: keepsD [OF reads_keep(9)] keepsD [OF writes_keep(5)] intro: seqs_le_trans)

lemma gapi_UpdateUser_keeps: "keeps I (gapi_UpdateUser L server E rv ctx req)"
  by (rule keepsI)
    (auto simp: gapi_UpdateUser_def Let_def split: http_splits dest!: keepsD [OF writes_keep(7)])

lemma process_task_keeps: "keeps I (ProcessTaskSendVerifyEmail A E task)"
  by (rule keepsI)
    (auto simp: ProcessTaskSendVerifyEmail_def split: http_splits dest!: keepsD [OF reads_keep(9)])

end

interpretation schema: stmt_invariant wf_db
  by unfold_locales (intro stmt_keeps_wf)+

end
