(* ===== verification/History.thy ===== *)
theory History
  imports Handlers_Keep "HOL-Library.Sublist"
begin

text \<open>
  What no request ever takes back. \<open>grows d d'\<close> says that d' continues d: entries, transfers and
  sessions are only appended, users and accounts are never removed, and an account keeps its id,
  owner, currency and date of creation, a user the name and the date of creation.
\<close>

definition account_key :: "Account \<Rightarrow> int64 \<times> string \<times> string \<times> instant" where
  "account_key a = (acc_ID a, acc_Owner a, acc_Currency a, acc_CreatedAt a)"

definition user_key :: "User \<Rightarrow> string \<times> instant" where
  "user_key u = (usr_Username u, usr_CreatedAt u)"

definition grows :: "database \<Rightarrow> database \<Rightarrow> bool" where
  "grows d d' \<longleftrightarrow> prefix (map user_key (users d)) (map user_key (users d')) \<and>
     prefix (map account_key (accounts d)) (map account_key (accounts d')) \<and>
     prefix (entries d) (entries d') \<and> prefix (transfers d) (transfers d') \<and> prefix (sessions d) (sessions d')"

lemma grows_refl [simp]: "grows d d"
  by (simp add: grows_def)

lemma grows_trans: "grows d d' \<Longrightarrow> grows d' d'' \<Longrightarrow> grows d d''"
  by (auto simp: grows_def elim: prefix_order.trans)

lemma grows_with_seqs: "grows d (with_seqs d' d'') \<longleftrightarrow> grows d d'"
  by (simp add: grows_def with_seqs_def)

lemma account_key_upd: "map account_key (upd_rows acc_ID i (acc_Balance_update f) rs) = map account_key rs"
  by (rule map_upd_rows) (simp add: account_key_def)

lemma user_key_upd: "map user_key (upd_rows usr_Username n (user_after_update p) rs) = map user_key rs"
  by (rule map_upd_rows) (simp add: user_key_def user_after_update_def)

lemma statements_grow:
  "grows d (snd (sql_add_account_balance p1 now d))" "grows d (snd (sql_create_account p2 now d))"
  "grows d (snd (sql_create_entry p3 now d))" "grows d (snd (sql_create_transfer p4 now d))"
  "grows d (snd (sql_create_session p5 now d))" "grows d (snd (sql_create_user p6 now d))"
  "grows d (snd (sql_update_user p7 now d))"
  by (simp_all add: grows_def sql_add_account_balance_def sql_create_account_def sql_create_entry_def
      sql_create_transfer_def sql_create_session_def sql_create_user_def sql_update_user_def Let_def
      account_key_upd user_key_upd split: option.split)

interpretation history: stmt_invariant "grows d0" for d0
proof
  show "grows d0 d \<Longrightarrow> grows d0 (with_seqs d d')" for d d' by (simp add: grows_with_seqs)
qed (auto simp: stmt_keeps_def seqs_le_statements intro: grows_trans [OF _ statements_grow(1)]
    grows_trans [OF _ statements_grow(2)] grows_trans [OF _ statements_grow(3)] grows_trans [OF _ statements_grow(4)]
    grows_trans [OF _ statements_grow(5)] grows_trans [OF _ statements_grow(6)] grows_trans [OF _ statements_grow(7)])

subsection \<open>What stays true of a row\<close>

lemma prefix_map_row:
  assumes "prefix (map f rs) (map f rs')" and "row_of key k rs = Some r" and "\<And>x y. f x = f y \<Longrightarrow> key x = key y"
  shows "\<exists>r'. row_of key k rs' = Some r' \<and> f r' = f r"
  using assms(1,2)
proof (induction rs arbitrary: rs')
  case (Cons x rs)
  then obtain y ys where rs': "rs' = y # ys" "f y = f x" "prefix (map f rs) (map f ys)" by (cases rs') auto
  with assms(3) have "key y = key x" by blast
  with Cons rs' show ?case by (auto simp: row_of_Cons split: if_splits)
qed simp

lemma prefix_row: "prefix rs rs' \<Longrightarrow> row_of key k rs = Some r \<Longrightarrow> row_of key k rs' = Some r"
  using prefix_map_row [of id rs rs' key k r] by simp

lemma grows_account:
  assumes "grows d d'" and "row_of acc_ID i (accounts d) = Some a"
  obtains a' where "row_of acc_ID i (accounts d') = Some a'" "acc_Owner a' = acc_Owner a" "acc_Currency a' = acc_Currency a"
  using assms prefix_map_row [of account_key "accounts d" "accounts d'" acc_ID i a]
  by (auto simp: grows_def account_key_def)

lemma grows_user:
  assumes "grows d d'" and "row_of usr_Username n (users d) = Some u"
  obtains u' where "row_of usr_Username n (users d') = Some u'"
  using assms prefix_map_row [of user_key "users d" "users d'" usr_Username n u]
  by (auto simp: grows_def user_key_def)

lemma grows_session: "grows d d' \<Longrightarrow> row_of ses_ID i (sessions d) = Some s \<Longrightarrow> row_of ses_ID i (sessions d') = Some s"
  by (auto simp: grows_def intro: prefix_row)

text \<open>The columns that are only ever extended.\<close>

lemma grows_columns:
  assumes "grows d d'"
  shows "prefix (entries d) (entries d')" "prefix (transfers d) (transfers d')" "prefix (sessions d) (sessions d')"
    and "prefix (map usr_Username (users d)) (map usr_Username (users d'))"
    and "prefix (map (\<lambda>a. (acc_ID a, acc_Owner a, acc_Currency a, acc_CreatedAt a)) (accounts d))
      (map (\<lambda>a. (acc_ID a, acc_Owner a, acc_Currency a, acc_CreatedAt a)) (accounts d'))"
  using assms map_mono_prefix [of "map user_key (users d)" "map user_key (users d')" fst]
  by (simp_all add: grows_def user_key_def account_key_def [abs_def] comp_def)

end
