(* ===== verification/Bank_System.thy ===== *)
theory Bank_System
  imports Gateway_Props History
begin

text \<open>
  The program as main.go runs it: the two servers, the gateway and the task processor over one database
  and one queue. A step handles one request or one task to its end, in any environment; the reachable
  states are those of every sequence of steps from the empty database.
\<close>

subsection \<open>The gRPC handlers and the processor keep the bank invariant\<close>

lemma createUserTx_closure_keeps_bank: "keeps bank_inv (createUserTx_closure E arg h r)"
proof (rule keepsI)
  fix c x c'
  assume "createUserTx_closure E arg h r c = (x, c')" and inv: "bank_inv (c_db c)"
  then obtain y where "query_row E (sql_create_user arg) c = (y, c')"
    by (auto simp: createUserTx_closure_def CreateUser_def split: prod.splits sum.splits)
  then show "bank_inv (c_db c') \<and> seqs_le (c_db c) (c_db c')"
    by (rule keepsD [OF bank.query_row_keeps [OF bank_sql_create_user] _ inv])
qed

lemma CreateUserTx_keeps_bank:
  assumes "CreateUserTx E arg h w c = ((x, w'), c')" and c: "c_tx c = Autocommit" "bank_inv (c_db c)"
  shows "c_tx c' = Autocommit \<and> bank_inv (c_db c')"
proof -
  obtain y where "execTX E (createUserTx_closure E arg h) (zero_user, w) c = (y, c')"
    using assms(1) by (auto simp: CreateUserTx_def split: prod.splits)
  from servesD [OF bank.execTX_serves [OF createUserTx_closure_keeps_bank] this c] show ?thesis .
qed

lemma gapi_CreateUser_keeps_bank:
  assumes "gapi_CreateUser L server E rv req w c = (res, w', c')" and c: "c_tx c = Autocommit" "bank_inv (c_db c)"
  shows "c_tx c' = Autocommit \<and> bank_inv (c_db c')"
proof (cases "c' = c")
  case False
  then obtain arg x where "CreateUserTx E arg (send_verify_email server) w c = ((x, w'), c')"
    using assms(1) by (auto simp: gapi_CreateUser_def Let_def split: http_splits)
  from CreateUserTx_keeps_bank [OF this c] show ?thesis .
qed (use c in simp)

lemma gapi_LoginUser_serves: "serves bank_inv (gapi_LoginUser L server E rv ctx req)"
proof (rule servesI)
  fix c x c'
  assume "gapi_LoginUser L server E rv ctx req c = (x, c')" and c: "c_tx c = Autocommit" "bank_inv (c_db c)"
  then consider "c' = c" | n r where "GetUser E n c = (r, c')"
    | n r c1 arg r' where "GetUser E n c = (r, c1)" "CreateSession E arg c1 = (r', c')"
    by (auto simp: gapi_LoginUser_def Let_def split: http_splits)
  then show "c_tx c' = Autocommit \<and> bank_inv (c_db c')"
    using c servesD [OF bank_serves(7)] servesD [OF bank_serves(3)] by cases (blast | simp)+
qed

lemma gapi_UpdateUser_serves: "serves bank_inv (gapi_UpdateUser L server E rv ctx req)"
proof (rule servesI)
  fix c x c'
  assume "gapi_UpdateUser L server E rv ctx req c = (x, c')" and c: "c_tx c = Autocommit" "bank_inv (c_db c)"
  then consider "c' = c" | args r where "UpdateUser E args c = (r, c')"
    by (auto simp: gapi_UpdateUser_def Let_def split: http_splits)
  then show "c_tx c' = Autocommit \<and> bank_inv (c_db c')"
    using c servesD [OF bank_serves(2)] by cases auto
qed

lemma process_task_serves: "serves bank_inv (ProcessTaskSendVerifyEmail A E task)"
proof (rule servesI)
  fix c x c'
  assume "ProcessTaskSendVerifyEmail A E task c = (x, c')" and c: "c_tx c = Autocommit" "bank_inv (c_db c)"
  then consider "c' = c" | n r where "GetUser E n c = (r, c')"
    by (auto simp: ProcessTaskSendVerifyEmail_def split: http_splits)
  then show "c_tx c' = Autocommit \<and> bank_inv (c_db c')"
    using c servesD [OF bank_serves(7)] by cases auto
qed

subsection \<open>Steps and reachable states\<close>

text \<open>One request, call or task served to its end, in any environment; the raw gateway request is its bytes.\<close>

inductive bank_step :: "'w \<Rightarrow> conn \<Rightarrow> 'w \<Rightarrow> conn \<Rightarrow> bool" where
  http_request: "serve L srv E rv h req c = (resp, c') \<Longrightarrow> bank_step w c w c'"
| create_user: "gapi_CreateUser G server E rv creq w c = (cres, w', c') \<Longrightarrow> bank_step w c w' c'"
| login_user: "gapi_LoginUser G (server :: 'w gServer) E rv ctx lreq c = (lres, c') \<Longrightarrow> bank_step w c w c'"
| update_user: "gapi_UpdateUser G (server :: 'w gServer) E rv ctx ureq c = (ures, c') \<Longrightarrow> bank_step w c w c'"
| gateway_request: "gw_ServeHTTP R (RegisterBankHandlerServer R (gapi_server G server E rv) []) method path (raw :: string) (w, c) =
    (out, w', c') \<Longrightarrow> bank_step w c w' c'"
| process_task: "ProcessTaskSendVerifyEmail A E t c = (err, c') \<Longrightarrow> bank_step w c w c'"

inductive bank_run :: "'w \<Rightarrow> conn \<Rightarrow> 'w \<Rightarrow> conn \<Rightarrow> bool" where
  run_none: "bank_run w c w c"
| run_step: "bank_run w c w' c' \<Longrightarrow> bank_step w' c' w'' c'' \<Longrightarrow> bank_run w c w'' c''"

inductive bank_reach :: "'w \<Rightarrow> conn \<Rightarrow> bool" where
  started: "c_db c = empty_db \<Longrightarrow> c_tx c = Autocommit \<Longrightarrow> bank_reach w c"
| stepped: "bank_reach w c \<Longrightarrow> bank_step w c w' c' \<Longrightarrow> bank_reach w' c'"

text \<open>A gateway request is one of the other steps, or none.\<close>

lemma gateway_step_cases:
  assumes "gw_ServeHTTP R (RegisterBankHandlerServer R (gapi_server G server E rv) []) method path raw (w, c) = (out, w', c')"
  obtains (nothing) "w' = w" "c' = c"
  | (create) m r where "gapi_CreateUser G server E rv m w c = (r, w', c')"
  | (login) ctx m r where "gapi_LoginUser G server E rv ctx m c = (r, c')" "w' = w"
  | (update) ctx m r where "gapi_UpdateUser G server E rv ctx m c = (r, c')" "w' = w"
  using gateway_runs_one_call [OF assms]
  by (auto simp: gapi_server_def split: prod.splits) (metis prod_cases3)

lemma bank_step_keeps:
  assumes "bank_step w c w' c'" and c: "c_tx c = Autocommit" "bank_inv (c_db c)"
  shows "c_tx c' = Autocommit \<and> bank_inv (c_db c')"
  using assms(1)
proof cases
  case http_request
  then show ?thesis using servesD [OF serve_serves] c by blast
next
  case create_user
  then show ?thesis by (rule gapi_CreateUser_keeps_bank [OF _ c])
next
  case login_user
  then show ?thesis using servesD [OF gapi_LoginUser_serves] c by blast
next
  case update_user
  then show ?thesis using servesD [OF gapi_UpdateUser_serves] c by blast
next
  case gateway_request
  then show ?thesis
  proof (cases rule: gateway_step_cases)
    case (create m r)
    then show ?thesis by (rule gapi_CreateUser_keeps_bank [OF _ c])
  qed (use c servesD [OF gapi_LoginUser_serves] servesD [OF gapi_UpdateUser_serves] in blast)+
next
  case process_task
  then show ?thesis using servesD [OF process_task_serves] c by blast
qed

lemma bank_reach_inv: "bank_reach w c \<Longrightarrow> c_tx c = Autocommit \<and> bank_inv (c_db c)"
  by (induction rule: bank_reach.induct) (simp_all add: bank_inv_empty bank_step_keeps)

lemma bank_run_reach: "bank_run w c w' c' \<Longrightarrow> bank_reach w c \<Longrightarrow> bank_reach w' c'"
  by (induction rule: bank_run.induct) (auto intro: bank_reach.stepped)

context stmt_invariant begin

lemma bank_step_keeps_stmt:
  assumes "bank_step w c w' c'" and I: "I (c_db c)"
  shows "I (c_db c')"
  using assms(1)
proof cases
  case http_request
  then show ?thesis using keepsD [OF serve_keeps] I by blast
next
  case create_user
  then show ?thesis by (rule conjunct1 [OF gapi_CreateUser_keeps [OF _ I]])
next
  case login_user
  then show ?thesis using keepsD [OF gapi_LoginUser_keeps] I by blast
next
  case update_user
  then show ?thesis using keepsD [OF gapi_UpdateUser_keeps] I by blast
next
  case gateway_request
  then show ?thesis
  proof (cases rule: gateway_step_cases)
    case (create m r)
    then show ?thesis by (rule conjunct1 [OF gapi_CreateUser_keeps [OF _ I]])
  qed (use I keepsD [OF gapi_LoginUser_keeps] keepsD [OF gapi_UpdateUser_keeps] in blast)+
next
  case process_task
  then show ?thesis using keepsD [OF process_task_keeps] I by blast
qed

lemma bank_run_keeps_stmt: "bank_run w c w' c' \<Longrightarrow> I (c_db c) \<Longrightarrow> I (c_db c')"
  by (induction rule: bank_run.induct) (auto intro: bank_step_keeps_stmt)

end

lemma bank_run_grows: "bank_run w c w' c' \<Longrightarrow> grows (c_db c) (c_db c')"
  using history.bank_run_keeps_stmt [of w c w' c' "c_db c"] by simp

text \<open>
  Whatever is served, in whatever order and with whatever faults, the record of the past is never
  rewritten: entries, transfers and sessions are only appended, no user or account disappears, and
  no account changes its id, owner, currency or date of creation.
\<close>

theorem history_is_append_only:
  assumes "bank_run w c w' c'"
  shows "prefix (entries (c_db c)) (entries (c_db c')) \<and> prefix (transfers (c_db c)) (transfers (c_db c')) \<and>
    prefix (sessions (c_db c)) (sessions (c_db c')) \<and>
    prefix (map usr_Username (users (c_db c))) (map usr_Username (users (c_db c'))) \<and>
    prefix (map (\<lambda>a. (acc_ID a, acc_Owner a, acc_Currency a, acc_CreatedAt a)) (accounts (c_db c)))
      (map (\<lambda>a. (acc_ID a, acc_Owner a, acc_Currency a, acc_CreatedAt a)) (accounts (c_db c')))"
  using grows_columns [OF bank_run_grows [OF assms]] by simp

theorem history_witness:
  "prefix (entries (sample_db 100 5)) (entries (c_db
     (snd (serve sample_libs sample_server good_env sample_rv '''' (CreateUserReq (Inr ann_registers)) (sample_conn 100 5)))))"
proof -
  obtain resp c where run: "serve sample_libs sample_server good_env sample_rv '''' (CreateUserReq (Inr ann_registers)) (sample_conn 100 5) = (resp, c)"
    by fastforce
  have "bank_run empty_redis (sample_conn 100 5) empty_redis c"
    by (rule bank_run.run_step [OF bank_run.run_none bank_step.http_request [OF run]])
  from history_is_append_only [OF this] run show ?thesis by simp
qed

end
