(* ===== verification/Concurrent_Transfers.thy ===== *)
theory Concurrent_Transfers
  imports Transfer_Props
begin

text \<open>
  Concurrent transfers. Each running \<open>TransferTx\<close> updates two account rows; PostgreSQL holds the
  lock of an updated row until its transaction ends, and an update of a locked row waits and then
  sees the committed balance. The shared locks that the foreign keys of the inserted rows take do
  not conflict with these. A state is the committed balances, the holder of each row lock and the
  progress of each transaction; the steps are one transaction doing its next update, committing
  or aborting. \<open>TransferTx\<close> updates the account with the smaller id first: no reachable state is
  a deadlock, and the committed balances are those of a serial execution.
\<close>

subsection \<open>Invariants of a transition system\<close>

inductive reach :: "('s \<Rightarrow> bool) \<Rightarrow> ('s \<Rightarrow> 's \<Rightarrow> bool) \<Rightarrow> 's \<Rightarrow> bool"
  for init :: "'s \<Rightarrow> bool" and step :: "'s \<Rightarrow> 's \<Rightarrow> bool" where
  reach_init: "init s \<Longrightarrow> reach init step s"
| reach_step: "reach init step s \<Longrightarrow> step s t \<Longrightarrow> reach init step t"

locale invariant_of =
  fixes init :: "'s \<Rightarrow> bool" and step :: "'s \<Rightarrow> 's \<Rightarrow> bool" and inv :: "'s \<Rightarrow> bool"
  assumes inv_init: "init s \<Longrightarrow> inv s"
    and inv_step: "inv s \<Longrightarrow> step s t \<Longrightarrow> inv t"
begin

lemma reach_inv: "reach init step s \<Longrightarrow> inv s"
  by (induction rule: reach.induct) (auto intro: inv_init inv_step)

end

subsection \<open>The order of updates\<close>

text \<open>The arguments \<open>TransferTx\<close> passes to \<open>addMoney\<close>: first id and amount, second id and amount.\<close>

definition addMoney_args :: "TransferTxParams \<Rightarrow> int64 \<times> int64 \<times> int64 \<times> int64" where
  "addMoney_args arg =
     (if ttp_FromAccountID arg <s ttp_ToAccountID arg
      then (ttp_FromAccountID arg, - ttp_Amount arg, ttp_ToAccountID arg, ttp_Amount arg)
      else (ttp_ToAccountID arg, ttp_Amount arg, ttp_FromAccountID arg, - ttp_Amount arg))"

lemma addMoney_args_ordered: "addMoney_args arg = (i1, a1, i2, a2) \<Longrightarrow> sint i1 \<le> sint i2"
  by (auto simp: addMoney_args_def word_sless_alt split: if_splits)

text \<open>The statements of the transaction run \<open>addMoney\<close> with these arguments.\<close>

lemma transfer_steps_follow_args:
  assumes "transfer_steps now arg d = Some (res, d')" and "addMoney_args arg = (i1, a1, i2, a2)"
  shows "\<exists>d3 x y. accounts d3 = accounts d \<and> add_money_steps now i1 a1 i2 a2 d3 = Some (x, y, d')"
  using assms
  by (auto simp: transfer_steps_def addMoney_args_def split: prod.splits sum.splits list.splits if_splits
      dest!: create_transfer_rows(2) create_entry_rows(2)) blast+

definition idelta :: "TransferTxParams \<Rightarrow> int64 \<Rightarrow> int" where
  "idelta arg k =
     (if k = ttp_FromAccountID arg then sint (- ttp_Amount arg) else 0) +
     (if k = ttp_ToAccountID arg then sint (ttp_Amount arg) else 0)"

lemma idelta_args:
  "addMoney_args arg = (i1, a1, i2, a2) \<Longrightarrow>
   idelta arg k = (if k = i1 then sint a1 else 0) + (if k = i2 then sint a2 else 0)"
  by (auto simp: addMoney_args_def idelta_def split: if_splits)

subsection \<open>States and steps\<close>

datatype pc = Ready | First | Second | Committed | Aborted

record sys =
  bal :: "int64 \<Rightarrow> int64"
  holder :: "int64 \<Rightarrow> nat option"
  pcs :: "nat \<Rightarrow> pc"
  work :: "nat \<Rightarrow> int64 \<Rightarrow> int64 option"

definition init_sys :: "(int64 \<Rightarrow> int64) \<Rightarrow> sys \<Rightarrow> bool" where
  "init_sys b0 s \<longleftrightarrow> bal s = b0 \<and> holder s = (\<lambda>_. None) \<and> pcs s = (\<lambda>_. Ready) \<and>
     work s = (\<lambda>_ _. None)"

text \<open>The balance an update of transaction \<open>i\<close> reads: its own uncommitted one, or the committed one.\<close>

definition visible :: "sys \<Rightarrow> nat \<Rightarrow> int64 \<Rightarrow> int64" where
  "visible s i k = (case work s i k of Some b \<Rightarrow> b | None \<Rightarrow> bal s k)"

definition take_row :: "nat \<Rightarrow> int64 \<Rightarrow> int64 \<Rightarrow> pc \<Rightarrow> sys \<Rightarrow> sys" where
  "take_row i k b p s = s\<lparr>holder := (holder s)(k := Some i), pcs := (pcs s)(i := p),
     work := (work s)(i := (work s i)(k := Some b))\<rparr>"

definition release :: "nat \<Rightarrow> pc \<Rightarrow> sys \<Rightarrow> sys" where
  "release i p s = s\<lparr>holder := (\<lambda>k. if holder s k = Some i then None else holder s k),
     pcs := (pcs s)(i := p), work := (work s)(i := (\<lambda>_. None))\<rparr>"

definition publish :: "nat \<Rightarrow> sys \<Rightarrow> sys" where
  "publish i s = s\<lparr>bal := (\<lambda>k. visible s i k)\<rparr>"

text \<open>
  \<open>advance n arg\<close>: one of the \<open>n\<close> transactions makes progress. A balance out of range makes the
  update fail, which ends the transaction.
\<close>

inductive advance :: "nat \<Rightarrow> (nat \<Rightarrow> TransferTxParams) \<Rightarrow> sys \<Rightarrow> sys \<Rightarrow> bool"
  for n :: nat and arg :: "nat \<Rightarrow> TransferTxParams" where
  update_first: "i < n \<Longrightarrow> pcs s i = Ready \<Longrightarrow> addMoney_args (arg i) = (i1, a1, i2, a2) \<Longrightarrow>
    holder s i1 = None \<Longrightarrow> pg_add (visible s i i1) a1 = Some b \<Longrightarrow>
    advance n arg s (take_row i i1 b First s)"
| overflow_first: "i < n \<Longrightarrow> pcs s i = Ready \<Longrightarrow> addMoney_args (arg i) = (i1, a1, i2, a2) \<Longrightarrow>
    holder s i1 = None \<Longrightarrow> pg_add (visible s i i1) a1 = None \<Longrightarrow>
    advance n arg s (release i Aborted s)"
| update_second: "i < n \<Longrightarrow> pcs s i = First \<Longrightarrow> addMoney_args (arg i) = (i1, a1, i2, a2) \<Longrightarrow>
    holder s i2 = None \<or> holder s i2 = Some i \<Longrightarrow> pg_add (visible s i i2) a2 = Some b \<Longrightarrow>
    advance n arg s (take_row i i2 b Second s)"
| overflow_second: "i < n \<Longrightarrow> pcs s i = First \<Longrightarrow> addMoney_args (arg i) = (i1, a1, i2, a2) \<Longrightarrow>
    holder s i2 = None \<or> holder s i2 = Some i \<Longrightarrow> pg_add (visible s i i2) a2 = None \<Longrightarrow>
    advance n arg s (release i Aborted s)"
| commit: "i < n \<Longrightarrow> pcs s i = Second \<Longrightarrow> advance n arg s (release i Committed (publish i s))"

text \<open>Any transaction may also fail before it commits (a lost connection, a cancelled context).\<close>

inductive tx_step :: "nat \<Rightarrow> (nat \<Rightarrow> TransferTxParams) \<Rightarrow> sys \<Rightarrow> sys \<Rightarrow> bool"
  for n :: nat and arg :: "nat \<Rightarrow> TransferTxParams" where
  step_advance: "advance n arg s t \<Longrightarrow> tx_step n arg s t"
| step_fault: "i < n \<Longrightarrow> pcs s i \<in> {Ready, First, Second} \<Longrightarrow> tx_step n arg s (release i Aborted s)"

definition finished :: "pc \<Rightarrow> bool" where
  "finished p \<longleftrightarrow> p = Committed \<or> p = Aborted"

lemmas sys_simps = take_row_def release_def publish_def visible_def

subsection \<open>The invariant\<close>

text \<open>The rows a transaction has updated, by its progress.\<close>

fun held :: "TransferTxParams \<Rightarrow> pc \<Rightarrow> int64 set" where
  "held a First = (case addMoney_args a of (i1, _, _, _) \<Rightarrow> {i1})"
| "held a Second = (case addMoney_args a of (i1, _, i2, _) \<Rightarrow> {i1, i2})"
| "held a _ = {}"

text \<open>The change an updated row shows to its own transaction.\<close>

fun shift :: "TransferTxParams \<Rightarrow> pc \<Rightarrow> int64 \<Rightarrow> int" where
  "shift a First k = (case addMoney_args a of (i1, a1, _, _) \<Rightarrow> if k = i1 then sint a1 else 0)"
| "shift a Second k = idelta a k"
| "shift a _ k = 0"

definition done_delta :: "nat \<Rightarrow> (nat \<Rightarrow> TransferTxParams) \<Rightarrow> (nat \<Rightarrow> pc) \<Rightarrow> int64 \<Rightarrow> int" where
  "done_delta n arg p k = (\<Sum>i < n. if p i = Committed then idelta (arg i) k else 0)"

definition sys_inv :: "nat \<Rightarrow> (nat \<Rightarrow> TransferTxParams) \<Rightarrow> (int64 \<Rightarrow> int64) \<Rightarrow> sys \<Rightarrow> bool" where
  "sys_inv n arg b0 s \<longleftrightarrow>
     (\<forall>k i. holder s k = Some i \<longleftrightarrow> i < n \<and> k \<in> held (arg i) (pcs s i)) \<and>
     (\<forall>i k. work s i k \<noteq> None \<longleftrightarrow> i < n \<and> k \<in> held (arg i) (pcs s i)) \<and>
     (\<forall>i < n. \<forall>k. sint (visible s i k) = sint (bal s k) + shift (arg i) (pcs s i) k) \<and>
     (\<forall>k. sint (bal s k) = sint (b0 k) + done_delta n arg (pcs s) k)"

lemma done_delta_upd:
  assumes "i < n" and "p i \<noteq> Committed"
  shows "done_delta n arg (p(i := q)) k = done_delta n arg p k + (if q = Committed then idelta (arg i) k else 0)"
proof -
  have "done_delta n arg (p(i := q)) k =
      (\<Sum>j < n. (if p j = Committed then idelta (arg j) k else 0) +
               (if j = i then (if q = Committed then idelta (arg i) k else 0) else 0))"
    unfolding done_delta_def using assms(2) by (intro sum.cong) auto
  with assms(1) show ?thesis by (simp add: done_delta_def sum.distrib)
qed

lemma sys_invD:
  assumes "sys_inv n arg b0 s"
  shows "holder s k = Some i \<longleftrightarrow> i < n \<and> k \<in> held (arg i) (pcs s i)"
    and "work s i k \<noteq> None \<longleftrightarrow> i < n \<and> k \<in> held (arg i) (pcs s i)"
    and "i < n \<Longrightarrow> sint (visible s i k) = sint (bal s k) + shift (arg i) (pcs s i) k"
    and "sint (bal s k) = sint (b0 k) + done_delta n arg (pcs s) k"
  using assms by (auto simp: sys_inv_def)

lemma take_row_inv:
  assumes inv: "sys_inv n arg b0 s" and i: "i < n" and p: "\<not> finished (pcs s i)" "\<not> finished q"
    and free: "holder s k = None \<or> holder s k = Some i" and b: "pg_add (visible s i k) a = Some b"
    and held: "held (arg i) q = insert k (held (arg i) (pcs s i))"
    and shift: "\<And>j. shift (arg i) q j = shift (arg i) (pcs s i) j + (if j = k then sint a else 0)"
  shows "sys_inv n arg b0 (take_row i k b q s)"
proof -
  let ?t = "take_row i k b q s"
  note D = sys_invD [OF inv]
  have "holder ?t j = Some m \<longleftrightarrow> m < n \<and> j \<in> held (arg m) (pcs ?t m)" for j m
    using D(1) [of j m] D(1) [of k m] free held i by (auto simp: take_row_def)
  moreover have "work ?t m j \<noteq> None \<longleftrightarrow> m < n \<and> j \<in> held (arg m) (pcs ?t m)" for j m
    using D(2) [of m j] held i by (auto simp: take_row_def)
  moreover have "sint (visible ?t m j) = sint (bal ?t j) + shift (arg m) (pcs ?t m) j" if "m < n" for j m
    using D(3) [OF that, of j] D(3) [OF i, of k] D(3) [OF i, of j] shift [of j] sint_pg_add [OF b]
    by (auto simp: take_row_def visible_def cong: option.case_cong)
  moreover have "done_delta n arg (pcs ?t) j = done_delta n arg (pcs s) j" for j
    using done_delta_upd [OF i, of "pcs s" arg q j] p by (auto simp: take_row_def finished_def)
  ultimately show ?thesis
    using D(4) by (simp add: sys_inv_def) (simp add: take_row_def)
qed

lemma abort_inv:
  assumes inv: "sys_inv n arg b0 s" and i: "i < n" and p: "\<not> finished (pcs s i)"
  shows "sys_inv n arg b0 (release i Aborted s)"
proof -
  let ?t = "release i Aborted s"
  note D = sys_invD [OF inv]
  have "holder ?t j = Some m \<longleftrightarrow> m < n \<and> j \<in> held (arg m) (pcs ?t m)" for j m
    using D(1) [of j m] by (auto simp: release_def)
  moreover have "work ?t m j \<noteq> None \<longleftrightarrow> m < n \<and> j \<in> held (arg m) (pcs ?t m)" for j m
    using D(2) [of m j] by (auto simp: release_def)
  moreover have "sint (visible ?t m j) = sint (bal ?t j) + shift (arg m) (pcs ?t m) j" if "m < n" for j m
    using D(3) [OF that, of j] by (auto simp: release_def visible_def cong: option.case_cong)
  moreover have "done_delta n arg (pcs ?t) j = done_delta n arg (pcs s) j" for j
    using done_delta_upd [OF i, of "pcs s" arg Aborted j] p by (auto simp: release_def finished_def)
  ultimately show ?thesis
    using D(4) by (simp add: sys_inv_def) (simp add: release_def)
qed

lemma commit_inv:
  assumes inv: "sys_inv n arg b0 s" and i: "i < n" and p: "pcs s i = Second"
  shows "sys_inv n arg b0 (release i Committed (publish i s))"
proof -
  let ?t = "release i Committed (publish i s)"
  note D = sys_invD [OF inv]
  have bal: "bal ?t j = visible s i j" for j by (simp add: release_def publish_def)
  have other: "visible s m j = (case work s m j of Some b \<Rightarrow> b | None \<Rightarrow> bal s j)" for m j
    by (simp add: visible_def)
  have "holder ?t j = Some m \<longleftrightarrow> m < n \<and> j \<in> held (arg m) (pcs ?t m)" for j m
    using D(1) [of j m] by (auto simp: release_def publish_def)
  moreover have "work ?t m j \<noteq> None \<longleftrightarrow> m < n \<and> j \<in> held (arg m) (pcs ?t m)" for j m
    using D(2) [of m j] by (auto simp: release_def publish_def)
  moreover have "sint (visible ?t m j) = sint (bal ?t j) + shift (arg m) (pcs ?t m) j" if m: "m < n" for j m
  proof (cases "m = i \<or> work s m j = None")
    case True
    then have "visible ?t m j = bal ?t j" by (auto simp: visible_def release_def publish_def)
    moreover have "shift (arg m) (pcs ?t m) j = 0"
      using True D(2) [of m j] m
      by (cases "pcs s m") (auto simp: release_def publish_def idelta_args split: prod.splits)
    ultimately show ?thesis by simp
  next
    case False
    then have "holder s j = Some m" using D(1,2) by blast
    then have "work s i j = None" using D(2) [of i j] D(1) [of j i] False by fastforce
    then have "bal ?t j = bal s j" by (simp add: bal visible_def)
    with False D(3) [OF m, of j] show ?thesis by (auto simp: visible_def release_def publish_def cong: option.case_cong)
  qed
  moreover have "sint (bal ?t j) = sint (b0 j) + done_delta n arg (pcs ?t) j" for j
    using done_delta_upd [OF i, of "pcs s" arg Committed j] D(3) [OF i, of j] D(4) [of j] p
    by (simp add: bal) (simp add: release_def publish_def)
  ultimately show ?thesis by (simp add: sys_inv_def)
qed

lemma advance_inv: "advance n arg s t \<Longrightarrow> sys_inv n arg b0 s \<Longrightarrow> sys_inv n arg b0 t"
proof (induction rule: advance.induct)
  case (update_first i s i1 a1 i2 a2 b)
  then show ?case
    by (intro take_row_inv [where a = a1]) (auto simp: finished_def)
next
  case (update_second i s i1 a1 i2 a2 b)
  then show ?case
    by (intro take_row_inv [where a = a2]) (auto simp: finished_def idelta_args)
next
  case (commit i s)
  then show ?case by (intro commit_inv)
qed (auto intro: abort_inv simp: finished_def)

interpretation transfers_sys: invariant_of "init_sys b0" "tx_step n arg" "sys_inv n arg b0" for b0 n arg
proof
  fix s t
  show "init_sys b0 s \<Longrightarrow> sys_inv n arg b0 s"
    by (auto simp: init_sys_def sys_inv_def visible_def done_delta_def)
  show "sys_inv n arg b0 s \<Longrightarrow> tx_step n arg s t \<Longrightarrow> sys_inv n arg b0 t"
    by (auto elim!: tx_step.cases intro: advance_inv abort_inv simp: finished_def)
qed

subsection \<open>Progress\<close>

definition first_id :: "TransferTxParams \<Rightarrow> int64" where
  "first_id a = fst (addMoney_args a)"

lemma sint64_inject: "sint a = sint b \<Longrightarrow> a = b" for a b :: int64
  by (metis scast_eq scast_id)

lemma ready_advances:
  assumes "i < n" and "pcs s i = Ready" and "holder s (first_id (arg i)) = None"
  shows "\<exists>t. advance n arg s t"
proof -
  obtain i1 a1 i2 a2 where args: "addMoney_args (arg i) = (i1, a1, i2, a2)" by (metis surj_pair)
  with assms(3) have free: "holder s i1 = None" by (simp add: first_id_def)
  show ?thesis
    by (cases "pg_add (visible s i i1) a1")
      (use advance.update_first [of i n s arg, OF assms(1,2) args free]
         advance.overflow_first [of i n s arg, OF assms(1,2) args free] in blast)+
qed

lemma first_advances:
  assumes "i < n" and "pcs s i = First" and "addMoney_args (arg i) = (i1, a1, i2, a2)"
    and "holder s i2 = None \<or> holder s i2 = Some i"
  shows "\<exists>t. advance n arg s t"
  by (cases "pg_add (visible s i i2) a2")
    (use advance.update_second [of i n s arg, OF assms] advance.overflow_second [of i n s arg, OF assms]
      in blast)+

lemma no_deadlock_inv:
  assumes inv: "sys_inv n arg b0 s" and i: "i < n" "\<not> finished (pcs s i)"
  shows "\<exists>t. advance n arg s t"
proof (cases "\<exists>j < n. pcs s j = Second")
  case True
  then show ?thesis by (auto intro: advance.commit)
next
  case False
  let ?F = "{j. j < n \<and> pcs s j = First}"
  have holders: "m \<in> ?F \<and> k = first_id (arg m)" if "holder s k = Some m" for k m
    using sys_invD(1) [OF inv, of k m] that False
    by (cases "pcs s m") (auto simp: first_id_def split: prod.splits)
  show ?thesis
  proof (cases "?F = {}")
    case True
    have "holder s (first_id (arg i)) = None"
      using holders True by (cases "holder s (first_id (arg i))") auto
    moreover have "pcs s i = Ready"
      using i True False by (cases "pcs s i") (auto simp: finished_def)
    ultimately show ?thesis using i(1) by (intro ready_advances)
  next
    case nonempty: False
    let ?ids = "(\<lambda>j. sint (first_id (arg j))) ` ?F"
    have fin: "finite ?ids" by simp
    with nonempty have "Max ?ids \<in> ?ids" by (intro Max_in) auto
    then obtain j where j: "j \<in> ?F" and top: "Max ?ids = sint (first_id (arg j))" by auto
    have max: "sint (first_id (arg m)) \<le> sint (first_id (arg j))" if "m \<in> ?F" for m
      using Max_ge [OF fin imageI [OF that]] top by simp
    obtain i1 a1 i2 a2 where args: "addMoney_args (arg j) = (i1, a1, i2, a2)" by (metis surj_pair)
    have "holder s i2 = None \<or> holder s i2 = Some j"
    proof (cases "holder s i2")
      case (Some m)
      with holders have m: "m \<in> ?F" "i2 = first_id (arg m)" by auto
      with max [OF m(1)] addMoney_args_ordered [OF args] args have "i2 = i1"
        by (auto simp: first_id_def intro: sint64_inject)
      moreover have "holder s i1 = Some j"
        using sys_invD(1) [OF inv, of i1 j] j args by auto
      ultimately show ?thesis by simp
    qed simp
    with j args show ?thesis by (intro first_advances) auto
  qed
qed

subsection \<open>Every execution ends\<close>

fun rank :: "pc \<Rightarrow> nat" where
  "rank Ready = 3" | "rank First = 2" | "rank Second = 1" | "rank _ = 0"

definition sys_rank :: "nat \<Rightarrow> sys \<Rightarrow> nat" where
  "sys_rank n s = (\<Sum>i < n. rank (pcs s i))"

lemma sys_rank_upd:
  assumes "i < n" and "rank q < rank (pcs s i)" and "pcs t = (pcs s)(i := q)"
  shows "sys_rank n t < sys_rank n s"
proof -
  have "(\<Sum>j < n. rank (((pcs s)(i := q)) j)) < (\<Sum>j < n. rank (pcs s j))"
    by (rule sum_strict_mono_ex1) (use assms in auto)
  then show ?thesis by (simp add: sys_rank_def assms(3))
qed

lemma advance_rank: "advance n arg s t \<Longrightarrow> sys_rank n t < sys_rank n s"
  by (induction rule: advance.induct)
    (auto intro!: sys_rank_upd simp: take_row_def release_def publish_def)

lemma tx_step_rank: "tx_step n arg s t \<Longrightarrow> sys_rank n t < sys_rank n s"
proof (induction rule: tx_step.induct)
  case (step_fault i s)
  then show ?case by (intro sys_rank_upd [of i n Aborted]) (auto simp: release_def)
qed (rule advance_rank)

lemma steps_rank: "(tx_step n arg ^^ k) s t \<Longrightarrow> k + sys_rank n t \<le> sys_rank n s"
proof (induction k arbitrary: t)
  case (Suc k)
  then obtain u where "(tx_step n arg ^^ k) s u" and "tx_step n arg u t" by auto
  with Suc.IH tx_step_rank [of n arg u t] show ?case by fastforce
qed simp

subsection \<open>Properties\<close>

text \<open>No deadlock. In every reachable state of concurrent transfers in which some transfer is
  unfinished, some transfer can make progress, so none waits forever in a cycle of row locks.\<close>

theorem transfers_never_deadlock:
  assumes "reach (init_sys b0) (tx_step n arg) s" and "i < n" and "\<not> finished (pcs s i)"
  shows "\<exists>t. advance n arg s t"
  using transfers_sys.reach_inv [OF assms(1)] assms(2,3) by (rule no_deadlock_inv)

definition opposite_transfers :: "nat \<Rightarrow> TransferTxParams" where
  "opposite_transfers i = (if i = 0 then \<lparr>ttp_FromAccountID = 1, ttp_ToAccountID = 2, ttp_Amount = 10\<rparr>
     else \<lparr>ttp_FromAccountID = 2, ttp_ToAccountID = 1, ttp_Amount = 10\<rparr>)"

definition start_sys :: "sys" where
  "start_sys = \<lparr>bal = (\<lambda>_. 100), holder = (\<lambda>_. None), pcs = (\<lambda>_. Ready), work = (\<lambda>_ _. None)\<rparr>"

lemma opposite_args:
  "addMoney_args (opposite_transfers 0) = (1, -10, 2, 10)"
  "addMoney_args (opposite_transfers (Suc 0)) = (1, 10, 2, -10)"
  by (simp_all add: addMoney_args_def opposite_transfers_def word_sless_alt)

text \<open>A run: transfer 0 takes the row of account 1, for which transfer 1 waits; then both finish.\<close>

definition run_sys :: "nat \<Rightarrow> sys" where
  "run_sys k =
     (let s1 = take_row 0 1 90 First start_sys; s2 = take_row 0 2 110 Second s1;
          s3 = release 0 Committed (publish 0 s2);
          s4 = take_row 1 1 100 First s3; s5 = take_row 1 2 100 Second s4;
          s6 = release 1 Committed (publish 1 s5)
      in [start_sys, s1, s2, s3, s4, s5, s6] ! k)"

lemma run_sys_reach:
  "reach (init_sys (\<lambda>_. 100)) (tx_step 2 opposite_transfers) (run_sys 1)"
  "reach (init_sys (\<lambda>_. 100)) (tx_step 2 opposite_transfers) (run_sys 6)"
proof -
  let ?reach = "reach (init_sys (\<lambda>_. 100)) (tx_step 2 opposite_transfers)"
  let ?adv = "advance 2 opposite_transfers"
  have next_sys: "?reach t" if "?reach s" "?adv s t" for s t
    using that by (blast intro: reach_step step_advance)
  have 0: "?reach start_sys" by (rule reach_init) (simp add: init_sys_def start_sys_def)
  note upd = advance.update_first [where arg = opposite_transfers, OF _ _ opposite_args(1)]
    advance.update_second [where arg = opposite_transfers, OF _ _ opposite_args(1)]
    advance.update_first [where arg = opposite_transfers, OF _ _ opposite_args(2)]
    advance.update_second [where arg = opposite_transfers, OF _ _ opposite_args(2)]
  note [simp] = sys_simps start_sys_def pg_add_def
  define s1 where "s1 = take_row 0 1 90 First start_sys"
  have 1: "?reach s1" unfolding s1_def by (rule next_sys [OF 0], rule upd(1)) auto
  define s2 where "s2 = take_row 0 2 110 Second s1"
  have 2: "?reach s2" unfolding s2_def by (rule next_sys [OF 1], rule upd(2)) (auto simp: s1_def)
  define s3 where "s3 = release 0 Committed (publish 0 s2)"
  have 3: "?reach s3" unfolding s3_def by (rule next_sys [OF 2], rule advance.commit) (auto simp: s1_def s2_def)
  define s4 where "s4 = take_row 1 1 100 First s3"
  have 4: "?reach s4" unfolding s4_def
    by (rule next_sys [OF 3], simp only: One_nat_def, rule upd(3)) (auto simp: s1_def s2_def s3_def)
  define s5 where "s5 = take_row 1 2 100 Second s4"
  have 5: "?reach s5" unfolding s5_def
    by (rule next_sys [OF 4], simp only: One_nat_def, rule upd(4)) (auto simp: s1_def s2_def s3_def s4_def)
  have 6: "?reach (release 1 Committed (publish 1 s5))"
    by (rule next_sys [OF 5], rule advance.commit) (auto simp: s1_def s2_def s3_def s4_def s5_def)
  have "run_sys 1 = s1" "run_sys 6 = release 1 Committed (publish 1 s5)"
    by (simp_all only: run_sys_def Let_def s1_def s2_def s3_def s4_def s5_def) simp_all
  with 1 6 show "?reach (run_sys 1)" "?reach (run_sys 6)" by simp_all
qed

theorem transfers_never_deadlock_witness:
  "holder (run_sys 1) 1 = Some 0 \<and> \<not> finished (pcs (run_sys 1) 1) \<and>
   (\<exists>t. advance 2 opposite_transfers (run_sys 1) t)"
proof -
  have "holder (run_sys 1) 1 = Some 0" and u: "\<not> finished (pcs (run_sys 1) 1)"
    by (simp_all add: run_sys_def Let_def sys_simps start_sys_def finished_def)
  with transfers_never_deadlock [OF run_sys_reach(1) _ u] show ?thesis by simp
qed

text \<open>Serial equivalence. When all concurrent transfers have committed, every balance is the
  initial one plus the sum of the transfers' changes, whatever the interleaving was: no update
  is lost.\<close>

theorem transfers_serializable:
  assumes "reach (init_sys b0) (tx_step n arg) s" and "\<forall>i < n. pcs s i = Committed"
  shows "sint (bal s k) = sint (b0 k) + (\<Sum>i < n. idelta (arg i) k)"
proof -
  have "done_delta n arg (pcs s) k = (\<Sum>i < n. idelta (arg i) k)"
    unfolding done_delta_def using assms(2) by (intro sum.cong) auto
  with sys_invD(4) [OF transfers_sys.reach_inv [OF assms(1)], of k] show ?thesis by simp
qed

theorem transfers_serializable_witness:
  "sint (bal (run_sys 6) 1) = 100 \<and> sint (bal (run_sys 6) 2) = 100"
proof -
  have c: "\<forall>i < 2. pcs (run_sys 6) i = Committed"
    by (simp add: run_sys_def Let_def sys_simps start_sys_def less_2_cases_iff)
  show ?thesis
    using transfers_serializable [OF run_sys_reach(2) c, of 1]
      transfers_serializable [OF run_sys_reach(2) c, of 2]
    by (simp add: numeral_2_eq_2 idelta_def opposite_transfers_def)
qed

text \<open>Every execution of \<open>n\<close> concurrent transfers, faults included, has at most \<open>3 n\<close> steps;
  with the absence of deadlock, it can always be continued until all are committed or aborted.\<close>

theorem transfers_terminate:
  assumes "init_sys b0 s" and "(tx_step n arg ^^ k) s t"
  shows "k \<le> 3 * n"
proof -
  have "sys_rank n s = 3 * n" using assms(1) by (simp add: sys_rank_def init_sys_def)
  with steps_rank [OF assms(2)] show ?thesis by simp
qed

theorem transfers_terminate_witness:
  "\<exists>t. (tx_step 2 opposite_transfers ^^ 1) start_sys t \<and> (1::nat) \<le> 3 * 2"
proof -
  have i: "init_sys (\<lambda>_. 100) start_sys" by (simp add: init_sys_def start_sys_def)
  have "tx_step 2 opposite_transfers start_sys (release 0 Aborted start_sys)"
    by (rule step_fault) (simp_all add: start_sys_def)
  then have "(tx_step 2 opposite_transfers ^^ 1) start_sys (release 0 Aborted start_sys)"
    by (simp only: relpowp_1)
  with transfers_terminate [OF i this] show ?thesis by blast
qed

end
