(* ===== verification/Interleaved.thy ===== *)
theory Interleaved
  imports Bank_System Concurrent_Transfers
begin

text \<open>
  Requests in flight together. Three handlers make more than one call of the store: \<open>createTransfer\<close>
  checks two accounts and then transfers, the logins of both servers read the user and then create the
  session. Other requests are served in between. A request in flight is a thread: the call it makes
  next. Each call is atomic here (what happens within concurrent \<open>TransferTx\<close> is the subject of
  Concurrent_Transfers); every other request is one call and a step of Bank_System. What a thread has
  seen is still true when it writes.
\<close>

subsection \<open>The handlers, one store call at a time\<close>

datatype thread =
    CheckFrom Payload transferRequest
  | CheckTo Payload transferRequest
  | RunTx Payload transferRequest
  | LoginGet libs Server req_env string string loginUserRequest
  | LoginCreate CreateSessionParams loginUserResponse
  | Answered response
  | GLoginGet glibs Maker Config req_env grpc_ctx LoginUserRequest
  | GLoginCreate CreateSessionParams LoginUserResponse
  | GAnswered "grpc_status + LoginUserResponse"

definition start_transfer :: "libs \<Rightarrow> Payload \<Rightarrow> transferRequest result \<Rightarrow> thread" where
  "start_transfer L payload decoded =
     (case should_bind (lib_email_tag L) transferRequest_tags decoded of
        Inl err \<Rightarrow> Answered (errResponse StatusBadRequest err)
      | Inr req \<Rightarrow> CheckFrom payload req)"

definition start_login :: "libs \<Rightarrow> Server \<Rightarrow> req_env \<Rightarrow> string \<Rightarrow> string \<Rightarrow> loginUserRequest result \<Rightarrow> thread" where
  "start_login L server rv userAgent clientIP decoded =
     (case should_bind (lib_email_tag L) loginUserRequest_tags decoded of
        Inl err \<Rightarrow> Answered (errResponse StatusBadRequest err)
      | Inr req \<Rightarrow> LoginGet L server rv userAgent clientIP req)"

text \<open>Between the two calls of a login: the password, the tokens, and all of the response but the session's id.\<close>

definition check_login :: "libs \<Rightarrow> Server \<Rightarrow> req_env \<Rightarrow> string \<Rightarrow> string \<Rightarrow> loginUserRequest \<Rightarrow> User \<Rightarrow> thread" where
  "check_login L server rv userAgent clientIP req user =
     (case CheckPassword (lib_bcrypt L) (lur_Password req) (usr_HashedPassword user) of
        Some err \<Rightarrow> Answered (errResponse StatusUnauthorized err)
      | None \<Rightarrow>
     (case mk_CreateToken (srv_tokenMaker server) (rv_access rv) (usr_Username user)
             (AccessTokenDuration (srv_config server)) of
        Inl err \<Rightarrow> Answered (errResponse StatusInternalServerError err)
      | Inr (accessToken, accessPayload) \<Rightarrow>
     (case mk_CreateToken (srv_tokenMaker server) (rv_refresh rv) (usr_Username user)
             (RefreshTokenDuration (srv_config server)) of
        Inl err \<Rightarrow> Answered (errResponse StatusInternalServerError err)
      | Inr (refreshToken, refreshPayload) \<Rightarrow>
          LoginCreate \<lparr>csp_ID = pl_ID refreshPayload, csp_Username = usr_Username user,
             csp_RefreshToken = refreshToken, csp_UserAgent = userAgent, csp_ClientIp = clientIP,
             csp_IsBlocked = False, csp_ExpiredAt = pl_ExpiredAt refreshPayload\<rparr>
            \<lparr>lr_SessionID = pl_ID refreshPayload, lr_AccessToken = accessToken,
              lr_AccessTokenExpiredAt = pl_ExpiredAt accessPayload, lr_RefreshToken = refreshToken,
              lr_RefreshTokenExpiredAt = pl_ExpiredAt refreshPayload, lr_User = newUserResponse user\<rparr>)))"

definition start_gapi_login :: "glibs \<Rightarrow> 'w gServer \<Rightarrow> req_env \<Rightarrow> grpc_ctx \<Rightarrow> LoginUserRequest \<Rightarrow> thread" where
  "start_gapi_login G server rv ctx req =
     (let violations = validateLoginUserRequest req
      in if violations \<noteq> [] then GAnswered (Inl (invalidArgumentError (gl_with_details G) violations))
         else GLoginGet G (gs_tokenMaker server) (gs_config server) rv ctx req)"

definition check_gapi_login :: "glibs \<Rightarrow> Maker \<Rightarrow> Config \<Rightarrow> req_env \<Rightarrow> grpc_ctx \<Rightarrow> LoginUserRequest \<Rightarrow> User \<Rightarrow> thread" where
  "check_gapi_login G maker config rv ctx req user =
     (case CheckPassword (gl_bcrypt G) (lq_Password req) (usr_HashedPassword user) of
        Some err \<Rightarrow> GAnswered (Inl (status_Errorf Unauthenticated ''invalid password %s '' [FErr err]))
      | None \<Rightarrow>
     (case mk_CreateToken maker (rv_access rv) (usr_Username user) (AccessTokenDuration config) of
        Inl err \<Rightarrow> GAnswered (Inl (status_Errorf Internal ''failed to create access token %s '' [FErr err]))
      | Inr (accessToken, accessPayload) \<Rightarrow>
     (case mk_CreateToken maker (rv_refresh rv) (usr_Username user) (RefreshTokenDuration config) of
        Inl err \<Rightarrow> GAnswered (Inl (status_Errorf Internal ''failed to create refresh token %s '' [FErr err]))
      | Inr (refreshToken, refreshPayload) \<Rightarrow>
     (let metaData = extractMetaData ctx
      in GLoginCreate \<lparr>csp_ID = pl_ID refreshPayload, csp_Username = usr_Username user,
             csp_RefreshToken = refreshToken, csp_UserAgent = md_UserAgent metaData,
             csp_ClientIp = md_ClientIp metaData, csp_IsBlocked = False,
             csp_ExpiredAt = pl_ExpiredAt refreshPayload\<rparr>
           \<lparr>ls_User = ConvertUser user, ls_SessionId = pl_ID refreshPayload, ls_AccessToken = accessToken,
             ls_RefreshToken = refreshToken, ls_AccessTokenExpiresAt = pl_ExpiredAt accessPayload,
             ls_RefreshTokenExpiresAt = pl_ExpiredAt refreshPayload\<rparr>))))"

fun thread_step :: "env \<Rightarrow> thread \<Rightarrow> conn \<Rightarrow> thread \<times> conn" where
  "thread_step E (CheckFrom payload req) c =
     (case api_validAccount E (trq_FromAccountID req) (trq_Currency req) c of
        (Inl resp, c1) \<Rightarrow> (Answered resp, c1)
      | (Inr fromAccount, c1) \<Rightarrow>
          if acc_Owner fromAccount \<noteq> pl_Username payload
          then (Answered (errResponse StatusUnauthorized
                  (Errorf ''from account doesn't belong to the authenticated user'' [])), c1)
          else (CheckTo payload req, c1))"
| "thread_step E (CheckTo payload req) c =
     (case api_validAccount E (trq_ToAccountID req) (trq_Currency req) c of
        (Inl resp, c1) \<Rightarrow> (Answered resp, c1)
      | (Inr toAccount, c1) \<Rightarrow> (RunTx payload req, c1))"
| "thread_step E (RunTx payload req) c =
     (case TransferTx E \<lparr>ttp_FromAccountID = trq_FromAccountID req,
             ttp_ToAccountID = trq_ToAccountID req, ttp_Amount = trq_Amount req\<rparr> c of
        ((result, Some err), c1) \<Rightarrow> (Answered (errResponse StatusInternalServerError err), c1)
      | ((result, None), c1) \<Rightarrow> (Answered (StatusOK, TransferBody result), c1))"
| "thread_step E (LoginGet L server rv userAgent clientIP req) c =
     (case GetUser E (lur_UserName req) c of
        (Inl err, c1) \<Rightarrow>
          (Answered (if errors_is err ErrNoRows then errResponse StatusNotFound err
             else errResponse StatusInternalServerError err), c1)
      | (Inr user, c1) \<Rightarrow> (check_login L server rv userAgent clientIP req user, c1))"
| "thread_step E (LoginCreate arg resp) c =
     (case CreateSession E arg c of
        (Inl err, c1) \<Rightarrow> (Answered (errResponse StatusInternalServerError err), c1)
      | (Inr session, c1) \<Rightarrow> (Answered (StatusOK, LoginBody (resp\<lparr>lr_SessionID := ses_ID session\<rparr>)), c1))"
| "thread_step E (GLoginGet G maker config rv ctx req) c =
     (case GetUser E (lq_Username req) c of
        (Inl err, c1) \<Rightarrow>
          (GAnswered (Inl (if errors_is err ErrNoRows then status_Errorf NotFound ''user not found %s '' [FErr err]
             else status_Errorf Internal ''failed to get user %s '' [FErr err])), c1)
      | (Inr user, c1) \<Rightarrow> (check_gapi_login G maker config rv ctx req user, c1))"
| "thread_step E (GLoginCreate arg resp) c =
     (case CreateSession E arg c of
        (Inl err, c1) \<Rightarrow> (GAnswered (Inl (status_Errorf Internal ''failed to create session %s '' [FErr err])), c1)
      | (Inr session, c1) \<Rightarrow> (GAnswered (Inr (resp\<lparr>ls_SessionId := ses_ID session\<rparr>)), c1))"
| "thread_step E (Answered resp) c = (Answered resp, c)"
| "thread_step E (GAnswered resp) c = (GAnswered resp, c)"

text \<open>Undisturbed, the steps are the handlers.\<close>

fun thread_run :: "nat \<Rightarrow> env \<Rightarrow> thread \<Rightarrow> conn \<Rightarrow> thread \<times> conn" where
  "thread_run 0 E t c = (t, c)"
| "thread_run (Suc n) E t c = (case thread_step E t c of (t', c') \<Rightarrow> thread_run n E t' c')"

lemma thread_run_is_createTransfer:
  "thread_run 3 E (start_transfer L payload decoded) c =
     (case api_createTransfer L E (Some payload) decoded c of (resp, c') \<Rightarrow> (Answered resp, c'))"
  by (auto simp: numeral_3_eq_3 start_transfer_def api_createTransfer_def split: http_splits)

lemma thread_run_is_loginUser:
  "thread_run 2 E (start_login L server rv ua ip decoded) c =
     (case api_loginUser L server E rv ua ip decoded c of (resp, c') \<Rightarrow> (Answered resp, c'))"
  by (auto simp: numeral_2_eq_2 start_login_def check_login_def api_loginUser_def split: http_splits)

lemma thread_run_is_LoginUser:
  "thread_run 2 E (start_gapi_login G server rv ctx req) c =
     (case gapi_LoginUser G server E rv ctx req c of (resp, c') \<Rightarrow> (GAnswered resp, c'))"
  by (auto simp: numeral_2_eq_2 start_gapi_login_def check_gapi_login_def gapi_LoginUser_def Let_def split: http_splits)

subsection \<open>Interleavings\<close>

type_synonym 'w system = "'w \<times> conn \<times> thread list"

definition sys_started :: "'w system \<Rightarrow> bool" where
  "sys_started s = (case s of (w, c, ts) \<Rightarrow> c_db c = empty_db \<and> c_tx c = Autocommit \<and> ts = [])"

inductive sys_step :: "'w system \<Rightarrow> 'w system \<Rightarrow> bool" where
  other: "bank_step w c w' c' \<Longrightarrow> sys_step (w, c, ts) (w', c', ts)"
| arrive: "authMiddleware maker now header = Inr payload \<Longrightarrow>
    sys_step (w, c, ts) (w, c, ts @ [start_transfer L payload decoded])"
| arrive_login: "sys_step (w, c, ts) (w, c, ts @ [start_login L srv rv ua ip ldecoded])"
| arrive_gapi_login: "sys_step (w, c, ts) (w, c, ts @ [start_gapi_login G (server :: 'w gServer) rv ctx lreq])"
| move: "i < length ts \<Longrightarrow> thread_step E (ts ! i) c = (t, c') \<Longrightarrow> sys_step (w, c, ts) (w, c', ts[i := t])"

text \<open>What a thread has checked, as a property of the tables.\<close>

definition owns :: "string \<Rightarrow> int64 \<Rightarrow> string \<Rightarrow> database \<Rightarrow> bool" where
  "owns n i cur d \<longleftrightarrow> (case row_of acc_ID i (accounts d) of
     None \<Rightarrow> False | Some a \<Rightarrow> acc_Owner a = n \<and> acc_Currency a = cur)"

fun thread_ok :: "database \<Rightarrow> thread \<Rightarrow> bool" where
  "thread_ok d (CheckFrom p req) \<longleftrightarrow> 0 < sint (trq_Amount req)"
| "thread_ok d (CheckTo p req) \<longleftrightarrow> 0 < sint (trq_Amount req) \<and>
     owns (pl_Username p) (trq_FromAccountID req) (trq_Currency req) d"
| "thread_ok d (RunTx p req) \<longleftrightarrow> 0 < sint (trq_Amount req) \<and>
     owns (pl_Username p) (trq_FromAccountID req) (trq_Currency req) d \<and>
     currency_of (trq_ToAccountID req) d = Some (trq_Currency req)"
| "thread_ok d (LoginCreate arg resp) \<longleftrightarrow> has_key usr_Username (csp_Username arg) (users d) \<and> \<not> csp_IsBlocked arg"
| "thread_ok d (GLoginCreate arg resp) \<longleftrightarrow> has_key usr_Username (csp_Username arg) (users d) \<and> \<not> csp_IsBlocked arg"
| "thread_ok d _ \<longleftrightarrow> True"

lemma owns_stable: "grows d d' \<Longrightarrow> owns n i cur d \<Longrightarrow> owns n i cur d'"
  by (auto simp: owns_def split: option.splits elim: grows_account)

lemma currency_stable: "grows d d' \<Longrightarrow> currency_of i d = Some cur \<Longrightarrow> currency_of i d' = Some cur"
  by (auto simp: currency_of_def elim: grows_account)

lemma user_stable: "grows d d' \<Longrightarrow> has_key usr_Username n (users d) \<Longrightarrow> has_key usr_Username n (users d')"
  by (drule has_key_row_of, elim exE, erule (1) grows_user, rule row_of_Some_has_key)

lemma thread_ok_stable: "grows d d' \<Longrightarrow> thread_ok d t \<Longrightarrow> thread_ok d' t"
  by (cases t) (auto intro: owns_stable currency_stable user_stable)

lemma owns_same_currency: "owns n i cur d \<Longrightarrow> currency_of j d = Some cur \<Longrightarrow> same_currency i j d"
  by (auto simp: owns_def same_currency_def currency_of_def split: option.splits)

lemma start_transfer_ok: "thread_ok d (start_transfer L payload decoded)"
  by (auto simp: start_transfer_def bind_amount split: sum.split)

lemma start_login_ok: "thread_ok d (start_login L srv rv ua ip decoded)" "thread_ok d (start_gapi_login G server rv ctx req)"
  by (auto simp: start_login_def start_gapi_login_def Let_def split: sum.split)

lemma check_login_ok:
  "row_of usr_Username n (users d) = Some u \<Longrightarrow> thread_ok d (check_login L srv rv ua ip req u)"
  "row_of usr_Username n (users d) = Some u \<Longrightarrow> thread_ok d (check_gapi_login G maker config rv ctx greq u)"
  by (auto simp: check_login_def check_gapi_login_def Let_def has_key_iff dest: row_of_SomeD split: option.split sum.split prod.split)

lemma thread_step_grows:
  assumes "thread_step E t c = (t', c')"
  shows "grows (c_db c) (c_db c')"
proof (cases t)
  case (RunTx p req)
  then obtain x where "TransferTx E \<lparr>ttp_FromAccountID = trq_FromAccountID req,
      ttp_ToAccountID = trq_ToAccountID req, ttp_Amount = trq_Amount req\<rparr> c = (x, c')"
    using assms by (auto split: prod.splits option.splits)
  from keepsD [OF history.TransferTx_keeps this, of "c_db c"] show ?thesis by simp
next
  case (LoginCreate arg resp)
  with assms obtain r where "CreateSession E arg c = (r, c')" by (auto split: http_splits)
  from keepsD [OF history.writes_keep(5) this, of "c_db c"] show ?thesis by simp
next
  case (GLoginCreate arg resp)
  with assms obtain r where "CreateSession E arg c = (r, c')" by (auto split: http_splits)
  from keepsD [OF history.writes_keep(5) this, of "c_db c"] show ?thesis by simp
next
  case (LoginGet L server rv ua ip req)
  with assms obtain r where "GetUser E (lur_UserName req) c = (r, c')" by (auto split: http_splits)
  from keepsD [OF history.reads_keep(9) this, of "c_db c"] show ?thesis by simp
next
  case (GLoginGet G maker config rv ctx req)
  with assms obtain r where "GetUser E (lq_Username req) c = (r, c')" by (auto split: http_splits)
  from keepsD [OF history.reads_keep(9) this, of "c_db c"] show ?thesis by simp
qed (use assms keepsD [OF history.validAccount_keeps, of _ _ _ _ _ _ "c_db c"] in \<open>auto split: http_splits\<close>)

lemma validAccount_seen:
  "api_validAccount E i cur c = (r, c') \<Longrightarrow> c_tx c = Autocommit \<Longrightarrow>
   c' = ticked c \<and> (\<forall>a. r = Inr a \<longrightarrow> row_of acc_ID i (accounts (c_db c)) = Some a \<and> acc_Currency a = cur)"
  using validAccount_read by blast

lemma user_seen:
  "GetUser E n c = (r, c') \<Longrightarrow> c_tx c = Autocommit \<Longrightarrow>
   c' = ticked c \<and> (\<forall>u. r = Inr u \<longrightarrow> row_of usr_Username n (users (c_db c)) = Some u)"
  using GetUser_read by blast

lemma thread_step_ok:
  assumes c: "c_tx c = Autocommit" "bank_inv (c_db c)" and ok: "thread_ok (c_db c) t"
    and run: "thread_step E t c = (t', c')"
  shows "c_tx c' = Autocommit \<and> bank_inv (c_db c') \<and> thread_ok (c_db c') t'"
proof (cases t)
  case (RunTx p req)
  from run RunTx obtain res err where tx: "TransferTx E \<lparr>ttp_FromAccountID = trq_FromAccountID req,
      ttp_ToAccountID = trq_ToAccountID req, ttp_Amount = trq_Amount req\<rparr> c = ((res, err), c')"
    and "\<exists>resp. t' = Answered resp"
    by (auto split: prod.splits option.splits)
  moreover have "c_tx c' = Autocommit \<and> bank_inv (c_db c')"
    by (rule TransferTx_keeps_bank [OF c tx]) (use ok RunTx owns_same_currency in auto)
  ultimately show ?thesis by auto
next
  case (CheckFrom p req)
  from run ok c show ?thesis
    by (auto simp: CheckFrom owns_def split: http_splits dest!: validAccount_seen)
next
  case (CheckTo p req)
  from run ok c show ?thesis
    by (auto simp: CheckTo currency_of_def split: http_splits dest!: validAccount_seen)
next
  case (LoginGet L server rv ua ip req)
  from run c show ?thesis
    by (auto simp: LoginGet check_login_ok(1) split: http_splits dest!: user_seen)
next
  case (GLoginGet G maker config rv ctx req)
  from run c show ?thesis
    by (auto simp: GLoginGet check_login_ok(2) split: http_splits dest!: user_seen)
next
  case (LoginCreate arg resp)
  with run obtain r where "CreateSession E arg c = (r, c')" "thread_ok (c_db c') t'" by (auto split: http_splits)
  with servesD [OF bank_serves(3) this(1) c] show ?thesis by simp
next
  case (GLoginCreate arg resp)
  with run obtain r where "CreateSession E arg c = (r, c')" "thread_ok (c_db c') t'" by (auto split: http_splits)
  with servesD [OF bank_serves(3) this(1) c] show ?thesis by simp
qed (use run ok c in auto)

definition sys_inv :: "'w system \<Rightarrow> bool" where
  "sys_inv s = (case s of (w, c, ts) \<Rightarrow> c_tx c = Autocommit \<and> bank_inv (c_db c) \<and> list_all (thread_ok (c_db c)) ts)"

lemma list_all_update: "list_all P xs \<Longrightarrow> P x \<Longrightarrow> list_all P (xs[i := x])"
  using set_update_subset_insert [of xs i x] by (auto simp: list_all_iff)

interpretation requests: invariant_of sys_started sys_step sys_inv
proof
  fix s :: "'w system"
  assume "sys_started s"
  then show "sys_inv s" by (auto simp: sys_started_def sys_inv_def bank_inv_empty)
next
  fix s s' :: "'w system"
  assume inv: "sys_inv s" and "sys_step s s'"
  from this(2) show "sys_inv s'"
  proof cases
    case (other w c w' c' ts)
    with inv have c: "c_tx c = Autocommit" "bank_inv (c_db c)" and ts: "list_all (thread_ok (c_db c)) ts"
      by (auto simp: sys_inv_def)
    have "grows (c_db c) (c_db c')" by (rule bank_run_grows [OF bank_run.run_step [OF bank_run.run_none other(3)]])
    with bank_step_keeps [OF other(3) c] ts other(2) show ?thesis
      by (auto simp: sys_inv_def list_all_iff intro: thread_ok_stable)
  next
    case (arrive maker now header payload w c ts L decoded)
    with inv show ?thesis by (auto simp: sys_inv_def start_transfer_ok)
  next
    case arrive_login
    with inv show ?thesis by (auto simp: sys_inv_def start_login_ok)
  next
    case arrive_gapi_login
    with inv show ?thesis by (auto simp: sys_inv_def start_login_ok)
  next
    case (move i ts E c t c' w)
    with inv have c: "c_tx c = Autocommit" "bank_inv (c_db c)" and ts: "list_all (thread_ok (c_db c)) ts"
      by (auto simp: sys_inv_def)
    have ok: "thread_ok (c_db c) (ts ! i)" using ts move(3) by (simp add: list_all_length)
    have "list_all (thread_ok (c_db c')) ts"
      using ts thread_ok_stable [OF thread_step_grows [OF move(4)]] by (auto simp: list_all_iff)
    with thread_step_ok [OF c ok move(4)] move(2) show ?thesis
      by (simp add: sys_inv_def list_all_update)
  qed
qed

text \<open>
  With any number of transfers and logins in flight, interleaved with each other and with any other
  requests, the books balance and stay double-entry, the checks of a transfer that is about to run
  still hold (the caller owns the account the money leaves, both accounts are in the currency
  requested), and a login about to store its session does so unblocked and for an existing user.
\<close>

theorem interleaved_requests_are_safe:
  assumes "reach sys_started sys_step (w, c, ts)"
  shows "(\<Sum>a \<leftarrow> accounts (c_db c). sint (acc_Balance a)) = 0 \<and>
    map (\<lambda>e. (ent_AccountID e, ent_Amount e)) (entries (c_db c)) = concat (map entry_pair (transfers (c_db c))) \<and>
    (\<forall>t \<in> set (transfers (c_db c)). 0 < sint (tr_Amount t) \<and>
       same_currency (tr_FromAccountID t) (tr_ToAccountID t) (c_db c)) \<and>
    (\<forall>p req. RunTx p req \<in> set ts \<longrightarrow> 0 < sint (trq_Amount req) \<and>
       (\<exists>a b. row_of acc_ID (trq_FromAccountID req) (accounts (c_db c)) = Some a \<and>
         row_of acc_ID (trq_ToAccountID req) (accounts (c_db c)) = Some b \<and>
         acc_Owner a = pl_Username p \<and> acc_Currency a = trq_Currency req \<and> acc_Currency b = trq_Currency req)) \<and>
    (\<forall>arg. (\<exists>resp. LoginCreate arg resp \<in> set ts) \<or> (\<exists>resp. GLoginCreate arg resp \<in> set ts) \<longrightarrow>
       csp_Username arg \<in> usr_Username ` set (users (c_db c)) \<and> \<not> csp_IsBlocked arg)"
proof -
  have inv: "bank_inv (c_db c)" "list_all (thread_ok (c_db c)) ts"
    using requests.reach_inv [OF assms] by (simp_all add: sys_inv_def)
  have runs: "0 < sint (trq_Amount req) \<and>
      (\<exists>a b. row_of acc_ID (trq_FromAccountID req) (accounts (c_db c)) = Some a \<and>
        row_of acc_ID (trq_ToAccountID req) (accounts (c_db c)) = Some b \<and>
        acc_Owner a = pl_Username p \<and> acc_Currency a = trq_Currency req \<and> acc_Currency b = trq_Currency req)"
    if "RunTx p req \<in> set ts" for p req
  proof -
    have "thread_ok (c_db c) (RunTx p req)" using inv(2) that unfolding list_all_iff by blast
    then show ?thesis by (auto simp: owns_def currency_of_def split: option.splits)
  qed
  have logins: "csp_Username arg \<in> usr_Username ` set (users (c_db c)) \<and> \<not> csp_IsBlocked arg"
    if "(\<exists>resp. LoginCreate arg resp \<in> set ts) \<or> (\<exists>resp. GLoginCreate arg resp \<in> set ts)" for arg
    using that inv(2) by (auto simp: list_all_iff has_key_iff)
  show ?thesis
    using bank_invD(3-5) [OF inv(1)] runs logins
    by (simp add: total_balance_def double_entry_def transfers_ok_def)
qed

text \<open>
  A login that has checked the password is completed, whatever has happened since (a change of that
  password included): if nothing fails and the session id is new, the session is stored.
\<close>

lemma login_completes:
  assumes reached: "reach sys_started sys_step (w, c, ts)" and "LoginCreate arg resp \<in> set ts" and "no_faults E"
    and new: "\<not> has_key ses_ID (csp_ID arg) (sessions (c_db c))"
  shows "\<exists>c'. thread_step E (LoginCreate arg resp) c =
      (Answered (StatusOK, LoginBody (resp\<lparr>lr_SessionID := csp_ID arg\<rparr>)), c') \<and>
    has_key ses_ID (csp_ID arg) (sessions (c_db c'))"
proof -
  have "c_tx c = Autocommit" "has_key usr_Username (csp_Username arg) (users (c_db c))"
    using requests.reach_inv [OF reached] assms(2) by (auto simp: sys_inv_def list_all_iff)
  with new show ?thesis
    by (simp add: CreateSession_def query_row_no_faults [OF assms(3)] sql_create_session_def Let_def has_key_iff)
qed

text \<open>Two transfers of ann in flight, both checked and about to run.\<close>

definition ann_conn :: conn where
  "ann_conn = snd (serve sample_libs sample_server good_env sample_rv bearer_ann
     (CreateAccountReq (Inr \<lparr>car_Currency = ''EUR''\<rparr>))
     (snd (serve sample_libs sample_server good_env sample_rv '''' (CreateUserReq (Inr ann_registers)) empty_conn)))"

definition self_transfer :: transferRequest where
  "self_transfer = \<lparr>trq_FromAccountID = 1, trq_ToAccountID = 1, trq_Amount = 5, trq_Currency = ''EUR''\<rparr>"

definition anns_account :: "conn \<Rightarrow> bool" where
  "anns_account c \<longleftrightarrow> (case api_validAccount good_env 1 ''EUR'' c of
     (Inl _, _) \<Rightarrow> False | (Inr a, c') \<Rightarrow> acc_Owner a = ''ann'' \<and> c' = ticked c)"

lemma anns_accounts:
  "anns_account ann_conn" "anns_account (ticked ann_conn)" "anns_account (ticked (ticked ann_conn))"
  "anns_account (ticked (ticked (ticked ann_conn)))"
  by code_simp+

lemma ann_starts: "start_transfer sample_libs access_payload (Inr self_transfer) = CheckFrom access_payload self_transfer"
proof -
  have "should_bind (lib_email_tag sample_libs) transferRequest_tags (Inr self_transfer) = Inr self_transfer" by code_simp
  then show ?thesis by (simp add: start_transfer_def)
qed

lemma ann_steps:
  assumes "anns_account c"
  shows "thread_step good_env (CheckFrom access_payload self_transfer) c = (CheckTo access_payload self_transfer, ticked c)"
    and "thread_step good_env (CheckTo access_payload self_transfer) c = (RunTx access_payload self_transfer, ticked c)"
  using assms by (auto simp: anns_account_def self_transfer_def access_payload_def split: prod.splits sum.splits)

lemma ann_conn_reached: "reach sys_started sys_step (w, ann_conn, [])"
proof -
  obtain r1 c1 where 1: "serve sample_libs sample_server good_env sample_rv '''' (CreateUserReq (Inr ann_registers)) empty_conn = (r1, c1)"
    by fastforce
  obtain r2 where 2: "serve sample_libs sample_server good_env sample_rv bearer_ann
      (CreateAccountReq (Inr \<lparr>car_Currency = ''EUR''\<rparr>)) c1 = (r2, ann_conn)"
    by (metis 1 ann_conn_def prod.collapse snd_conv)
  have "reach sys_started sys_step (w, empty_conn, [])"
    by (rule reach_init) (simp add: sys_started_def empty_conn_def)
  then have "reach sys_started sys_step (w, c1, [])"
    by (rule reach_step) (rule sys_step.other [OF bank_step.http_request [OF 1]])
  then show ?thesis
    by (rule reach_step) (rule sys_step.other [OF bank_step.http_request [OF 2]])
qed

lemma move_first: "thread_step E t c = (t', c') \<Longrightarrow> sys_step (w, c, [t, u]) (w, c', [t', u])"
  using sys_step.move [of 0 "[t, u]" E c t' c' w] by simp

lemma move_second: "thread_step E u c = (u', c') \<Longrightarrow> sys_step (w, c, [t, u]) (w, c', [t, u'])"
  using sys_step.move [of 1 "[t, u]" E c u' c' w] by simp

theorem interleaved_witness:
  "\<exists>c. reach sys_started sys_step (empty_redis, c, [RunTx access_payload self_transfer, RunTx access_payload self_transfer]) \<and>
     (\<exists>a. row_of acc_ID 1 (accounts (c_db c)) = Some a \<and> acc_Owner a = ''ann'')"
proof -
  let ?c = "ticked (ticked (ticked (ticked ann_conn)))" and ?R = "RunTx access_payload self_transfer"
  note arrive = sys_step.arrive [OF sample_auth, where L = sample_libs and decoded = "Inr self_transfer", unfolded ann_starts]
  note r1 = reach_step [OF ann_conn_reached [where w = empty_redis] arrive, unfolded append.simps]
  note r2 = reach_step [OF r1 arrive, unfolded append.simps]
  note r4 = reach_step [OF reach_step [OF r2 move_first [OF ann_steps(1) [OF anns_accounts(1)]]] move_second [OF ann_steps(1) [OF anns_accounts(2)]]]
  note r6 = reach_step [OF reach_step [OF r4 move_first [OF ann_steps(2) [OF anns_accounts(3)]]] move_second [OF ann_steps(2) [OF anns_accounts(4)]]]
  have "\<forall>p req. RunTx p req \<in> set [?R, ?R] \<longrightarrow> 0 < sint (trq_Amount req) \<and>
       (\<exists>a b. row_of acc_ID (trq_FromAccountID req) (accounts (c_db ?c)) = Some a \<and>
         row_of acc_ID (trq_ToAccountID req) (accounts (c_db ?c)) = Some b \<and>
         acc_Owner a = pl_Username p \<and> acc_Currency a = trq_Currency req \<and> acc_Currency b = trq_Currency req)"
    by (rule interleaved_requests_are_safe [OF r6, THEN conjunct2, THEN conjunct2, THEN conjunct2, THEN conjunct1])
  with r6 show ?thesis by (auto simp: self_transfer_def access_payload_def)
qed

end
