(* ===== verification/Transactions.thy ===== *)
theory Transactions
  imports Interleaved
begin

text \<open>
  A running \<open>TransferTx\<close>, one statement at a time (db/sqlc/store.go, tx_transfer.go). At READ COMMITTED
  a statement sees the committed rows with the transaction's own changes on top: the rows it has
  inserted and the balances it has written, whose row locks it holds until it ends. Sequences advance
  for everybody at once. Run without interruption, the statements are \<open>TransferTx\<close>.
\<close>

subsection \<open>What a transaction sees\<close>

datatype tx_pc = InsertTransfer | InsertFrom | InsertTo | UpdateFirst | UpdateSecond | CommitTx | RollbackTx

record txn =
  tn_arg :: TransferTxParams
  tn_now :: instant
  tn_pc :: tx_pc
  tn_transfers :: "Transfer list"
  tn_entries :: "Entry list"
  tn_balances :: "int64 \<rightharpoonup> int64"
  tn_result :: TransferTxResult

definition begin_txn :: "instant \<Rightarrow> TransferTxParams \<Rightarrow> txn" where
  "begin_txn now arg = \<lparr>tn_arg = arg, tn_now = now, tn_pc = InsertTransfer, tn_transfers = [], tn_entries = [],
     tn_balances = Map.empty, tn_result = zero_result\<rparr>"

definition own_balance :: "(int64 \<rightharpoonup> int64) \<Rightarrow> Account \<Rightarrow> Account" where
  "own_balance m a = (case m (acc_ID a) of None \<Rightarrow> a | Some b \<Rightarrow> a\<lparr>acc_Balance := b\<rparr>)"

definition tx_view :: "txn \<Rightarrow> database \<Rightarrow> database" where
  "tx_view x d = d\<lparr>accounts := map (own_balance (tn_balances x)) (accounts d),
     entries := entries d @ tn_entries x, transfers := transfers d @ tn_transfers x\<rparr>"

subsection \<open>The statements\<close>

text \<open>
  A failed insert makes the closure return, a failed update makes the transaction fail and the commit
  roll back. An update that finds no row makes \<open>addMoney\<close> return \<open>ErrNoRows\<close>, which the closure drops.
  In each case the first component is the transaction afterwards, the second the committed database,
  of which a statement changes nothing but the sequences.
\<close>

definition insert_transfer :: "txn \<Rightarrow> database \<Rightarrow> txn \<times> database" where
  "insert_transfer x d =
     (case sql_create_transfer \<lparr>ctp_FromAccountID = ttp_FromAccountID (tn_arg x),
             ctp_ToAccountID = ttp_ToAccountID (tn_arg x), ctp_Amount = ttp_Amount (tn_arg x)\<rparr> (tn_now x) (tx_view x d) of
        (Inr (t # _), d') \<Rightarrow>
          (x\<lparr>tn_pc := InsertFrom, tn_transfers := tn_transfers x @ [t],
             tn_result := (tn_result x)\<lparr>ttr_Transfer := t\<rparr>\<rparr>, with_seqs d d')
      | (_, d') \<Rightarrow> (x\<lparr>tn_pc := RollbackTx\<rparr>, with_seqs d d'))"

definition insert_entry ::
  "int64 \<Rightarrow> int64 \<Rightarrow> tx_pc \<Rightarrow> (Entry \<Rightarrow> TransferTxResult \<Rightarrow> TransferTxResult) \<Rightarrow> txn \<Rightarrow> database \<Rightarrow> txn \<times> database"
where
  "insert_entry i a p upd x d =
     (case sql_create_entry \<lparr>cep_AccountID = i, cep_Amount = a\<rparr> (tn_now x) (tx_view x d) of
        (Inr (e # _), d') \<Rightarrow>
          (x\<lparr>tn_pc := p, tn_entries := tn_entries x @ [e], tn_result := upd e (tn_result x)\<rparr>, with_seqs d d')
      | (_, d') \<Rightarrow> (x\<lparr>tn_pc := RollbackTx\<rparr>, with_seqs d d'))"

definition update_balance ::
  "int64 \<Rightarrow> int64 \<Rightarrow> tx_pc \<Rightarrow> (Account \<Rightarrow> TransferTxResult \<Rightarrow> TransferTxResult) \<Rightarrow> txn \<Rightarrow> database \<Rightarrow> txn \<times> database"
where
  "update_balance i a p upd x d =
     (case sql_add_account_balance \<lparr>aab_Amount = a, aab_ID = i\<rparr> (tn_now x) (tx_view x d) of
        (Inl _, _) \<Rightarrow> (x\<lparr>tn_pc := RollbackTx\<rparr>, d)
      | (Inr [], _) \<Rightarrow> (x\<lparr>tn_pc := CommitTx\<rparr>, d)
      | (Inr (r # _), _) \<Rightarrow>
          (x\<lparr>tn_pc := p, tn_balances := (tn_balances x)(i \<mapsto> acc_Balance r), tn_result := upd r (tn_result x)\<rparr>, d))"

text \<open>Whose row the first update returns, and whose the second.\<close>

definition first_row :: "TransferTxParams \<Rightarrow> Account \<Rightarrow> TransferTxResult \<Rightarrow> TransferTxResult" where
  "first_row arg a =
     (if ttp_FromAccountID arg <s ttp_ToAccountID arg then ttr_FromAccount_update (\<lambda>_. a) else ttr_ToAccount_update (\<lambda>_. a))"

definition second_row :: "TransferTxParams \<Rightarrow> Account \<Rightarrow> TransferTxResult \<Rightarrow> TransferTxResult" where
  "second_row arg a =
     (if ttp_FromAccountID arg <s ttp_ToAccountID arg then ttr_ToAccount_update (\<lambda>_. a) else ttr_FromAccount_update (\<lambda>_. a))"

definition tx_stmt :: "txn \<Rightarrow> database \<Rightarrow> txn \<times> database" where
  "tx_stmt x d =
     (let arg = tn_arg x; (i1, a1, i2, a2) = addMoney_args arg
      in case tn_pc x of
           InsertTransfer \<Rightarrow> insert_transfer x d
         | InsertFrom \<Rightarrow>
             insert_entry (ttp_FromAccountID arg) (- ttp_Amount arg) InsertTo (\<lambda>e. ttr_FromEntry_update (\<lambda>_. e)) x d
         | InsertTo \<Rightarrow>
             insert_entry (ttp_ToAccountID arg) (ttp_Amount arg) UpdateFirst (\<lambda>e. ttr_ToEntry_update (\<lambda>_. e)) x d
         | UpdateFirst \<Rightarrow> update_balance i1 a1 UpdateSecond (first_row arg) x d
         | UpdateSecond \<Rightarrow> update_balance i2 a2 CommitTx (second_row arg) x d
         | _ \<Rightarrow> (x, d))"

text \<open>The row the next statement must lock.\<close>

definition wants_row :: "txn \<Rightarrow> int64 option" where
  "wants_row x =
     (let (i1, a1, i2, a2) = addMoney_args (tn_arg x)
      in case tn_pc x of UpdateFirst \<Rightarrow> Some i1 | UpdateSecond \<Rightarrow> Some i2 | _ \<Rightarrow> None)"

subsection \<open>Undisturbed, the statements are those of \<open>TransferTx\<close>\<close>

fun tx_run :: "nat \<Rightarrow> txn \<Rightarrow> database \<Rightarrow> txn \<times> database" where
  "tx_run 0 x d = (x, d)"
| "tx_run (Suc n) x d = (case tx_stmt x d of (x', d') \<Rightarrow> tx_run n x' d')"

lemma own_balance_empty: "own_balance (\<lambda>_. None) = (\<lambda>a. a)"
  by (rule ext) (simp add: own_balance_def)

lemma tx_view_begin [simp]: "tx_view (begin_txn now arg) d = d"
  by (simp add: tx_view_def begin_txn_def own_balance_empty)

lemma own_balance_fields [simp]:
  "acc_ID (own_balance m a) = acc_ID a" "acc_Owner (own_balance m a) = acc_Owner a"
  "acc_Currency (own_balance m a) = acc_Currency a" "acc_CreatedAt (own_balance m a) = acc_CreatedAt a"
  by (simp_all add: own_balance_def split: option.split)

lemma own_balance_upd:
  "own_balance (m(i \<mapsto> b)) a = (if acc_ID a = i then acc_Balance_update (\<lambda>_. b) (own_balance m a) else own_balance m a)"
  by (simp add: own_balance_def split: option.split)

text \<open>A statement that succeeds changes the transaction's view as it changes the database.\<close>

lemma insert_transfer_cases:
  assumes "insert_transfer x d = (x', d1)"
  obtains (failed) "x' = x\<lparr>tn_pc := RollbackTx\<rparr>" "\<And>t ts d'. sql_create_transfer \<lparr>ctp_FromAccountID = ttp_FromAccountID (tn_arg x),
      ctp_ToAccountID = ttp_ToAccountID (tn_arg x), ctp_Amount = ttp_Amount (tn_arg x)\<rparr> (tn_now x) (tx_view x d) \<noteq> (Inr (t # ts), d')"
  | (inserted) t where "sql_create_transfer \<lparr>ctp_FromAccountID = ttp_FromAccountID (tn_arg x),
      ctp_ToAccountID = ttp_ToAccountID (tn_arg x), ctp_Amount = ttp_Amount (tn_arg x)\<rparr> (tn_now x) (tx_view x d) =
      (Inr [t], tx_view x' d1)"
    "x' = x\<lparr>tn_pc := InsertFrom, tn_transfers := tn_transfers x @ [t], tn_result := (tn_result x)\<lparr>ttr_Transfer := t\<rparr>\<rparr>"
  using assms
  by (auto simp: insert_transfer_def sql_create_transfer_def Let_def tx_view_def with_seqs_def
      split: option.splits if_splits)

lemma insert_entry_cases:
  assumes "insert_entry i a p upd x d = (x', d1)"
  obtains (failed) "x' = x\<lparr>tn_pc := RollbackTx\<rparr>"
      "\<And>e es d'. sql_create_entry \<lparr>cep_AccountID = i, cep_Amount = a\<rparr> (tn_now x) (tx_view x d) \<noteq> (Inr (e # es), d')"
  | (inserted) e where "sql_create_entry \<lparr>cep_AccountID = i, cep_Amount = a\<rparr> (tn_now x) (tx_view x d) = (Inr [e], tx_view x' d1)"
    "x' = x\<lparr>tn_pc := p, tn_entries := tn_entries x @ [e], tn_result := upd e (tn_result x)\<rparr>"
  using assms
  by (auto simp: insert_entry_def sql_create_entry_def Let_def tx_view_def with_seqs_def
      split: option.splits if_splits)

lemma tx_view_row:
  assumes "row_of acc_ID i (accounts d) = Some r"
  shows "row_of acc_ID i (accounts (tx_view x d)) = Some (own_balance (tn_balances x) r)"
  using assms by (simp add: tx_view_def row_of_map_keep)

lemma update_balance_cases:
  assumes "update_balance i a p upd x d = (x', d1)" and "has_key acc_ID i (accounts d)"
  obtains (failed) "d1 = d" "x' = x\<lparr>tn_pc := RollbackTx\<rparr>"
      "\<And>r rs d'. sql_add_account_balance \<lparr>aab_Amount = a, aab_ID = i\<rparr> (tn_now x) (tx_view x d) \<noteq> (Inr (r # rs), d')"
  | (updated) r b where "d1 = d" "row_of acc_ID i (accounts d) = Some r"
      "pg_add (acc_Balance (own_balance (tn_balances x) r)) a = Some b"
      "sql_add_account_balance \<lparr>aab_Amount = a, aab_ID = i\<rparr> (tn_now x) (tx_view x d) =
        (Inr [(own_balance (tn_balances x) r)\<lparr>acc_Balance := b\<rparr>], tx_view x' d)"
      "x' = x\<lparr>tn_pc := p, tn_balances := (tn_balances x)(i \<mapsto> b),
        tn_result := upd ((own_balance (tn_balances x) r)\<lparr>acc_Balance := b\<rparr>) (tn_result x)\<rparr>"
proof -
  obtain r where r: "row_of acc_ID i (accounts d) = Some r" using has_key_row_of [OF assms(2)] by blast
  have "map (own_balance ((tn_balances x)(i \<mapsto> b))) (accounts d) =
      upd_rows acc_ID i (acc_Balance_update (\<lambda>_. b)) (map (own_balance (tn_balances x)) (accounts d))" for b
    by (simp add: upd_rows_def own_balance_upd)
  then have view: "tx_view (x\<lparr>tn_pc := p, tn_balances := (tn_balances x)(i \<mapsto> b), tn_result := res\<rparr>) d =
      (tx_view x d)\<lparr>accounts := upd_rows acc_ID i (acc_Balance_update (\<lambda>_. b)) (accounts (tx_view x d))\<rparr>" for b res
    by (simp add: tx_view_def)
  note defs = update_balance_def sql_add_account_balance_def tx_view_row [OF r, of x]
  show ?thesis
  proof (cases "pg_add (acc_Balance (own_balance (tn_balances x) r)) a")
    case None
    with assms(1) have "x' = x\<lparr>tn_pc := RollbackTx\<rparr>" "d1 = d" by (simp_all add: defs)
    with None show ?thesis by (intro failed) (simp_all add: defs)
  next
    case (Some b)
    with assms(1) have "x' = x\<lparr>tn_pc := p, tn_balances := (tn_balances x)(i \<mapsto> b),
        tn_result := upd ((own_balance (tn_balances x) r)\<lparr>acc_Balance := b\<rparr>) (tn_result x)\<rparr>" "d1 = d"
      by (simp_all add: defs)
    with Some r show ?thesis by (intro updated [of r b]) (simp_all add: defs view)
  qed
qed

lemma tx_run_ended: "tn_pc x = RollbackTx \<Longrightarrow> tx_run n x d = (x, d)"
  by (induction n) (simp_all add: tx_stmt_def split: prod.split)

lemma updates_run:
  assumes pc: "tn_pc x = UpdateFirst" and args: "addMoney_args (tn_arg x) = (i1, a1, i2, a2)"
    and rows: "has_key acc_ID i1 (accounts d)" "has_key acc_ID i2 (accounts d)" and run: "tx_run 2 x d = (x', d')"
  shows "d' = d \<and> (case add_money_steps (tn_now x) i1 a1 i2 a2 (tx_view x d) of
      None \<Rightarrow> tn_pc x' = RollbackTx
    | Some (r1, r2, d2) \<Rightarrow> tn_pc x' = CommitTx \<and> tx_view x' d = d2 \<and>
        tn_result x' = second_row (tn_arg x) r2 (first_row (tn_arg x) r1 (tn_result x)))"
proof -
  obtain x1 d1 where 1: "update_balance i1 a1 UpdateSecond (first_row (tn_arg x)) x d = (x1, d1)" by fastforce
  with run pc args have run1: "tx_run 1 x1 d1 = (x', d')" by (simp add: numeral_2_eq_2 tx_stmt_def)
  from 1 rows(1) show ?thesis
  proof (cases rule: update_balance_cases)
    case failed
    with run1 tx_run_ended [of x1 1 d1] have "x' = x1" "d' = d1" by simp_all
    with failed show ?thesis by (auto simp: add_money_steps_def split: prod.split sum.split list.split)
  next
    case (updated r b)
    obtain x2 d2 where 2: "update_balance i2 a2 CommitTx (second_row (tn_arg x)) x1 d = (x2, d2)" by fastforce
    with run1 updated args have x2: "x' = x2" "d' = d2" by (auto simp: tx_stmt_def)
    from 2 rows(2) show ?thesis
    proof (cases rule: update_balance_cases)
      case failed
      with updated x2 show ?thesis
        by (auto simp: add_money_steps_def split: prod.split sum.split list.split)
    next
      case second: (updated r2 b2)
      with updated x2 show ?thesis by (simp add: add_money_steps_def)
    qed
  qed
qed

text \<open>The five statements without interruption, against the statements of the closure in sequence.\<close>

lemma tx_run_steps:
  assumes "tx_run 5 (begin_txn now arg) d = (x, d')"
  shows "transfer_steps now arg d = (if tn_pc x = CommitTx then Some (tn_result x, tx_view x d') else None)"
proof -
  let ?x0 = "begin_txn now arg"
  obtain x1 d1 where 1: "insert_transfer ?x0 d = (x1, d1)" by fastforce
  have run1: "tx_run 4 x1 d1 = (x, d')"
    using assms 1 by (simp add: eval_nat_numeral tx_stmt_def begin_txn_def split: prod.splits)
  from 1 show ?thesis
  proof (cases rule: insert_transfer_cases)
    case failed
    then show ?thesis
      using run1 by (auto simp: tx_run_ended transfer_steps_def begin_txn_def tx_view_begin [unfolded begin_txn_def]
          split: prod.split sum.split list.split)
  next
    case t: (inserted t)
    obtain x2 d2 where 2: "insert_entry (ttp_FromAccountID arg) (- ttp_Amount arg) InsertTo
        (\<lambda>e. ttr_FromEntry_update (\<lambda>_. e)) x1 d1 = (x2, d2)" by fastforce
    have run2: "tx_run 3 x2 d2 = (x, d')"
      using run1 2 t by (simp add: eval_nat_numeral tx_stmt_def begin_txn_def split: prod.splits)
    have x1: "tn_arg x1 = arg" "tn_now x1 = now" "tn_result x1 = zero_result\<lparr>ttr_Transfer := t\<rparr>"
      using t by (simp_all add: begin_txn_def)
    have step1: "sql_create_transfer \<lparr>ctp_FromAccountID = ttp_FromAccountID arg, ctp_ToAccountID = ttp_ToAccountID arg,
        ctp_Amount = ttp_Amount arg\<rparr> now d = (Inr [t], tx_view x1 d1)"
      using t(1) by (simp add: tx_view_begin) (simp add: begin_txn_def)
    from 2 show ?thesis
    proof (cases rule: insert_entry_cases)
      case failed
      then show ?thesis
        using run2 step1 x1 by (auto simp: tx_run_ended transfer_steps_def split: prod.split sum.split list.split)
    next
      case fe: (inserted fe)
      obtain x3 d3 where 3: "insert_entry (ttp_ToAccountID arg) (ttp_Amount arg) UpdateFirst
          (\<lambda>e. ttr_ToEntry_update (\<lambda>_. e)) x2 d2 = (x3, d3)" by fastforce
      have run3: "tx_run 2 x3 d3 = (x, d')"
        using run2 3 fe x1 by (simp add: eval_nat_numeral tx_stmt_def split: prod.splits)
      from 3 show ?thesis
      proof (cases rule: insert_entry_cases)
        case failed
        then show ?thesis
          using run3 step1 fe x1 by (auto simp: tx_run_ended transfer_steps_def split: prod.split sum.split list.split)
      next
        case te: (inserted te)
        obtain i1 a1 i2 a2 where args: "addMoney_args arg = (i1, a1, i2, a2)" by (metis surj_pair)
        have "accounts (tx_view x3 d3) = accounts d"
          using create_transfer_rows(2) [OF step1 refl] create_entry_rows(2) [OF fe(1) refl] create_entry_rows(2) [OF te(1) refl]
          by simp
        then have "acc_ID ` set (map (own_balance (tn_balances x3)) (accounts d3)) = acc_ID ` set (accounts d)"
          by (simp add: tx_view_def)
        then have ids: "has_key acc_ID i (accounts d3) = has_key acc_ID i (accounts d)" for i
          by (simp add: has_key_iff image_image)
        have rows: "has_key acc_ID i1 (accounts d3)" "has_key acc_ID i2 (accounts d3)"
          using create_transfer_rows(2) [OF step1 refl] args ids by (auto simp: addMoney_args_def split: if_splits)
        have x3: "tn_pc x3 = UpdateFirst" "tn_arg x3 = arg" "tn_now x3 = now" "tn_result x3 = zero_result\<lparr>ttr_Transfer := t, ttr_FromEntry := fe, ttr_ToEntry := te\<rparr>"
          using te fe x1 by simp_all
        note U = updates_run [OF x3(1) _ rows run3, unfolded x3, OF args]
        show ?thesis
          using U step1 fe te x1 args
          by (auto simp: transfer_steps_def addMoney_args_def first_row_def second_row_def zero_result_def
              split: option.splits if_splits prod.splits)
      qed
    qed
  qed
qed

text \<open>How many statements a transaction has left at most.\<close>

fun stmts_left :: "tx_pc \<Rightarrow> nat" where
  "stmts_left InsertTransfer = 5" | "stmts_left InsertFrom = 4" | "stmts_left InsertTo = 3"
| "stmts_left UpdateFirst = 2" | "stmts_left UpdateSecond = 1" | "stmts_left _ = 0"

lemma tx_stmt_advances: "stmts_left (tn_pc (fst (tx_stmt x d))) \<le> stmts_left (tn_pc x) - 1"
  by (cases "tn_pc x")
    (auto simp: tx_stmt_def insert_transfer_def insert_entry_def update_balance_def Let_def split: prod.split sum.split list.split)

lemma tx_run_ends: "stmts_left (tn_pc x) \<le> n \<Longrightarrow> tx_run n x d = (x', d') \<Longrightarrow> stmts_left (tn_pc x') = 0"
proof (induction n arbitrary: x d)
  case (Suc n)
  obtain x1 d1 where 1: "tx_stmt x d = (x1, d1)" by fastforce
  with tx_stmt_advances [of x d] Suc.prems(1) have "stmts_left (tn_pc x1) \<le> n" by simp
  with Suc.IH Suc.prems(2) 1 show ?case by simp
qed simp

text \<open>
  C9: the five statements without interruption are \<open>TransferTx\<close> when nothing fails from outside: if they
  reach the commit, \<open>TransferTx\<close> commits, with the tables the transaction saw, and returns the rows it
  collected and no error; otherwise they reach the rollback, and \<open>TransferTx\<close> returns an error and leaves
  the tables as they were.
\<close>

theorem tx_run_is_TransferTx:
  assumes "no_faults E" and "reports_failed_commit E" and "c_tx c = Autocommit" and "wf_db (c_db c)"
    and "tx_run 5 (begin_txn (clock E (c_tick c)) arg) (c_db c) = (x, d')"
  shows "\<exists>res err c'. TransferTx E arg c = ((res, err), c') \<and> c_tx c' = Autocommit \<and>
    (tn_pc x = CommitTx \<and> res = tn_result x \<and> err = None \<and> c_db c' = tx_view x d' \<or>
     tn_pc x = RollbackTx \<and> err \<noteq> None \<and> same_tables (c_db c) (c_db c'))"
proof -
  let ?now = "clock E (c_tick c)"
  obtain res err c' where run: "TransferTx E arg c = ((res, err), c')" by (metis surj_pair)
  note outcome = TransferTx_outcome [OF assms(3,4) run]
  have steps: "(if transfer_possible arg (c_db c) then Some (transfer_result ?now arg (c_db c), transfer_db ?now arg (c_db c)) else None) =
      (if tn_pc x = CommitTx then Some (tn_result x, tx_view x d') else None)"
    using tx_run_steps [OF assms(5)] by (simp only: transfer_steps_eq [OF assms(4)])
  show ?thesis
  proof (cases "transfer_possible arg (c_db c)")
    case True
    with steps TransferTx_no_faults [OF assms(1,3,4) True] run outcome show ?thesis by (auto split: if_splits)
  next
    case False
    have "stmts_left (tn_pc x) = 0" by (rule tx_run_ends [OF _ assms(5)]) (simp add: begin_txn_def)
    with steps False have "tn_pc x = RollbackTx" by (cases "tn_pc x") auto
    with False run outcome assms(2) show ?thesis by auto
  qed
qed

theorem tx_run_witness:
  "\<exists>c' x d. tx_run 5 (begin_txn 0 (transfer_1_2 30)) (sample_db 100 5) = (x, d) \<and>
     TransferTx good_env (transfer_1_2 30) (sample_conn 100 5) = ((tn_result x, None), c') \<and>
     c_db c' = tx_view x d \<and> map acc_Balance (accounts (tx_view x d)) = [70, 35]"
proof -
  obtain x d where run: "tx_run 5 (begin_txn 0 (transfer_1_2 30)) (sample_db 100 5) = (x, d)" by fastforce
  have "case tx_run 5 (begin_txn 0 (transfer_1_2 30)) (sample_db 100 5) of (x, d) \<Rightarrow>
      tn_pc x = CommitTx \<and> map acc_Balance (accounts (tx_view x d)) = [70, 35]"
    by code_simp
  with run have x: "tn_pc x = CommitTx" "map acc_Balance (accounts (tx_view x d)) = [70, 35]" by simp_all
  have z: "clock good_env (c_tick (sample_conn 100 5)) = 0" "c_db (sample_conn 100 5) = sample_db 100 5"
    by (simp_all add: good_env_def sample_conn_def)
  from tx_run_is_TransferTx [OF good_env_simps sample_conn_simps(2), of 100 5 "transfer_1_2 30" x d] run x z wf_sample
  show ?thesis by auto
qed

end
