(* ===== verification/Concurrent_Bank.thy ===== *)
theory Concurrent_Bank
  imports Transactions
begin

text \<open>
  The whole program with its transactions interleaved statement by statement. A thread is a request
  between two calls of the store, or one inside a running \<open>TransferTx\<close>; everything else is served in
  between, as long as it writes no row a transaction has locked (it waits until the lock is gone). The
  committed tables of every reachable state satisfy the bank's invariant, and every commit is the
  abstract transfer, done at once.
\<close>

subsection \<open>Threads and steps\<close>

datatype bank_thread = Call thread | Running Payload transferRequest txn

definition tx_args :: "transferRequest \<Rightarrow> TransferTxParams" where
  "tx_args req = \<lparr>ttp_FromAccountID = trq_FromAccountID req, ttp_ToAccountID = trq_ToAccountID req,
     ttp_Amount = trq_Amount req\<rparr>"

fun locks :: "bank_thread \<Rightarrow> int64 set" where
  "locks (Call t) = {}"
| "locks (Running p req x) = dom (tn_balances x)"

definition leaves_alone :: "bank_thread list \<Rightarrow> database \<Rightarrow> database \<Rightarrow> bool" where
  "leaves_alone ts d d' \<longleftrightarrow> (\<forall>t \<in> set ts. \<forall>k \<in> locks t.
     map_option acc_Balance (row_of acc_ID k (accounts d')) = map_option acc_Balance (row_of acc_ID k (accounts d)))"

definition row_free :: "bank_thread list \<Rightarrow> nat \<Rightarrow> txn \<Rightarrow> bool" where
  "row_free ts i x \<longleftrightarrow> (\<forall>k. wants_row x = Some k \<longrightarrow> (\<forall>j < length ts. j \<noteq> i \<longrightarrow> k \<notin> locks (ts ! j)))"

type_synonym 'w bank_state = "'w \<times> conn \<times> bank_thread list"

definition bank_started :: "'w bank_state \<Rightarrow> bool" where
  "bank_started s \<longleftrightarrow> (case s of (w, c, ts) \<Rightarrow> c_db c = empty_db \<and> c_tx c = Autocommit \<and> ts = [])"

text \<open>
  A commit may succeed with its answer lost; a rollback is possible at any point (a failed statement, a
  fault, a commit that is not done) and leaves only the sequences; the driver is taken to report it, as
  \<open>reports_failed_commit\<close> says.
\<close>

inductive bank_conc_step :: "'w bank_state \<Rightarrow> 'w bank_state \<Rightarrow> bool" where
  conc_other: "bank_step w c w' c' \<Longrightarrow> leaves_alone ts (c_db c) (c_db c') \<Longrightarrow> bank_conc_step (w, c, ts) (w', c', ts)"
| conc_transfer: "authMiddleware maker now header = Inr payload \<Longrightarrow>
    bank_conc_step (w, c, ts) (w, c, ts @ [Call (start_transfer L payload decoded)])"
| conc_login: "bank_conc_step (w, c, ts) (w, c, ts @ [Call (start_login L srv rv ua ip ldecoded)])"
| conc_gapi_login: "bank_conc_step (w, c, ts) (w, c, ts @ [Call (start_gapi_login G (server :: 'w gServer) rv ctx lreq)])"
| conc_call: "i < length ts \<Longrightarrow> ts ! i = Call t \<Longrightarrow> (\<And>p req. t \<noteq> RunTx p req) \<Longrightarrow> thread_step E t c = (t', c') \<Longrightarrow>
    bank_conc_step (w, c, ts) (w, c', ts[i := Call t'])"
| conc_begin: "i < length ts \<Longrightarrow> ts ! i = Call (RunTx p req) \<Longrightarrow>
    bank_conc_step (w, c, ts) (w, c, ts[i := Running p req (begin_txn now (tx_args req))])"
| conc_begin_fails: "i < length ts \<Longrightarrow> ts ! i = Call (RunTx p req) \<Longrightarrow>
    bank_conc_step (w, c, ts) (w, c, ts[i := Call (Answered (errResponse StatusInternalServerError e))])"
| conc_statement: "i < length ts \<Longrightarrow> ts ! i = Running p req x \<Longrightarrow> row_free ts i x \<Longrightarrow> tx_stmt x (c_db c) = (x', d') \<Longrightarrow>
    bank_conc_step (w, c, ts) (w, c\<lparr>c_db := d'\<rparr>, ts[i := Running p req x'])"
| conc_commit: "i < length ts \<Longrightarrow> ts ! i = Running p req x \<Longrightarrow> tn_pc x = CommitTx \<Longrightarrow>
    resp = (StatusOK, TransferBody (tn_result x)) \<or> resp = errResponse StatusInternalServerError e \<Longrightarrow>
    bank_conc_step (w, c, ts) (w, c\<lparr>c_db := tx_view x (c_db c)\<rparr>, ts[i := Call (Answered resp)])"
| conc_rollback: "i < length ts \<Longrightarrow> ts ! i = Running p req x \<Longrightarrow>
    bank_conc_step (w, c, ts) (w, c, ts[i := Call (Answered (errResponse StatusInternalServerError e))])"

subsection \<open>What a running transaction has done\<close>

text \<open>The progress of the updates, in the terms of Concurrent_Transfers.\<close>

fun phase :: "tx_pc \<Rightarrow> pc" where
  "phase UpdateSecond = First"
| "phase CommitTx = Second"
| "phase RollbackTx = Aborted"
| "phase _ = Ready"

fun rows_done :: "tx_pc \<Rightarrow> nat" where
  "rows_done InsertTransfer = 0"
| "rows_done InsertFrom = 1"
| "rows_done InsertTo = 2"
| "rows_done _ = 3"

definition transfer_key :: "Transfer \<Rightarrow> int64 \<times> int64 \<times> int64" where
  "transfer_key t = (tr_FromAccountID t, tr_ToAccountID t, tr_Amount t)"

definition entry_key :: "Entry \<Rightarrow> int64 \<times> int64" where
  "entry_key e = (ent_AccountID e, ent_Amount e)"

text \<open>Rows inserted by the transaction: their keys are new, and the result holds them.\<close>

definition uncommitted :: "('r \<Rightarrow> int64) \<Rightarrow> 'r list \<Rightarrow> 'r list \<Rightarrow> int \<Rightarrow> bool" where
  "uncommitted key new rs s \<longleftrightarrow> distinct (map key new) \<and>
     (\<forall>r \<in> set new. 1 \<le> sint (key r) \<and> sint (key r) < s \<and> \<not> has_key key (key r) rs)"

definition txn_rows :: "txn \<Rightarrow> bool" where
  "txn_rows x \<longleftrightarrow> (let arg = tn_arg x; res = tn_result x; k = rows_done (tn_pc x)
     in tn_transfers x = take k [ttr_Transfer res] \<and> tn_entries x = take (k - 1) [ttr_FromEntry res, ttr_ToEntry res] \<and>
        (0 < k \<longrightarrow> transfer_key (ttr_Transfer res) = (ttp_FromAccountID arg, ttp_ToAccountID arg, ttp_Amount arg)) \<and>
        (1 < k \<longrightarrow> entry_key (ttr_FromEntry res) = (ttp_FromAccountID arg, - ttp_Amount arg)) \<and>
        (2 < k \<longrightarrow> entry_key (ttr_ToEntry res) = (ttp_ToAccountID arg, ttp_Amount arg)))"

text \<open>Balances written: the committed ones, with what the updates so far have added.\<close>

definition txn_balances :: "database \<Rightarrow> txn \<Rightarrow> bool" where
  "txn_balances d x \<longleftrightarrow> dom (tn_balances x) = held (tn_arg x) (phase (tn_pc x)) \<and>
     (\<forall>k b r. tn_balances x k = Some b \<longrightarrow> row_of acc_ID k (accounts d) = Some r \<longrightarrow>
        sint b = sint (acc_Balance r) + shift (tn_arg x) (phase (tn_pc x)) k)"

text \<open>The accounts in the result are the rows as the transaction leaves them.\<close>

definition own_row :: "database \<Rightarrow> txn \<Rightarrow> int64 \<Rightarrow> Account option" where
  "own_row d x k = map_option (own_balance (tn_balances x)) (row_of acc_ID k (accounts d))"

definition txn_accounts :: "database \<Rightarrow> txn \<Rightarrow> bool" where
  "txn_accounts d x \<longleftrightarrow> (let arg = tn_arg x; res = tn_result x; from = ttp_FromAccountID arg; to = ttp_ToAccountID arg
     in (tn_pc x = UpdateSecond \<longrightarrow> (if from <s to then own_row d x from = Some (ttr_FromAccount res)
           else own_row d x to = Some (ttr_ToAccount res))) \<and>
        (tn_pc x = CommitTx \<longrightarrow> own_row d x from = Some (ttr_FromAccount res) \<and>
           (from \<noteq> to \<longrightarrow> own_row d x to = Some (ttr_ToAccount res))))"

definition txn_ok :: "database \<Rightarrow> txn \<Rightarrow> bool" where
  "txn_ok d x \<longleftrightarrow> uncommitted tr_ID (tn_transfers x) (transfers d) (transfers_seq d) \<and>
     uncommitted ent_ID (tn_entries x) (entries d) (entries_seq d) \<and>
     (tn_pc x \<noteq> RollbackTx \<longrightarrow> txn_rows x \<and> txn_balances d x \<and> txn_accounts d x)"

fun bank_thread_ok :: "database \<Rightarrow> bank_thread \<Rightarrow> bool" where
  "bank_thread_ok d (Call t) \<longleftrightarrow> thread_ok d t"
| "bank_thread_ok d (Running p req x) \<longleftrightarrow> thread_ok d (RunTx p req) \<and> tn_arg x = tx_args req \<and> txn_ok d x"

text \<open>Two threads share neither a lock nor the id of a new row.\<close>

fun new_ids :: "bank_thread \<Rightarrow> int64 set \<times> int64 set" where
  "new_ids (Call t) = ({}, {})"
| "new_ids (Running p req x) = (tr_ID ` set (tn_transfers x), ent_ID ` set (tn_entries x))"

definition apart :: "bank_thread \<Rightarrow> bank_thread \<Rightarrow> bool" where
  "apart t u \<longleftrightarrow> locks t \<inter> locks u = {} \<and> fst (new_ids t) \<inter> fst (new_ids u) = {} \<and>
     snd (new_ids t) \<inter> snd (new_ids u) = {}"

definition all_apart :: "bank_thread list \<Rightarrow> bool" where
  "all_apart ts \<longleftrightarrow> (\<forall>i < length ts. \<forall>j < length ts. i \<noteq> j \<longrightarrow> apart (ts ! i) (ts ! j))"

lemma apart_sym: "apart t u \<Longrightarrow> apart u t"
  by (auto simp: apart_def)

lemma apart_call [simp]: "apart (Call t) u" "apart u (Call t)"
  by (simp_all add: apart_def)

lemma all_apart_append: "all_apart ts \<Longrightarrow> all_apart (ts @ [Call t])"
  by (auto simp: all_apart_def nth_append less_Suc_eq)

lemma all_apart_update:
  assumes "all_apart ts" and "\<And>j. j < length ts \<Longrightarrow> j \<noteq> i \<Longrightarrow> apart t (ts ! j)"
  shows "all_apart (ts[i := t])"
  unfolding all_apart_def length_list_update
proof (intro allI impI)
  fix k j
  assume "k < length ts" "j < length ts" "k \<noteq> j"
  with assms show "apart (ts[i := t] ! k) (ts[i := t] ! j)"
    by (cases "k = i"; cases "j = i") (auto simp: all_apart_def intro: apart_sym)
qed

lemma all_apartD: "all_apart ts \<Longrightarrow> i < length ts \<Longrightarrow> j < length ts \<Longrightarrow> j \<noteq> i \<Longrightarrow> apart (ts ! i) (ts ! j)"
  by (simp add: all_apart_def)

subsection \<open>What others may do\<close>

text \<open>Ids taken from the sequences by running transactions are not handed out again.\<close>

definition reserved :: "int64 set \<Rightarrow> int64 set \<Rightarrow> database \<Rightarrow> bool" where
  "reserved P Q d \<longleftrightarrow> 1 \<le> transfers_seq d \<and> 1 \<le> entries_seq d \<and>
     (\<forall>i \<in> P. 1 \<le> sint i \<and> sint i < transfers_seq d \<and> \<not> has_key tr_ID i (transfers d)) \<and>
     (\<forall>i \<in> Q. 1 \<le> sint i \<and> sint i < entries_seq d \<and> \<not> has_key ent_ID i (entries d))"

lemma reserved_frame:
  assumes "reserved P Q d" and "transfers d' = transfers d" "entries d' = entries d"
    and "transfers_seq d \<le> transfers_seq d'" "entries_seq d \<le> entries_seq d'"
  shows "reserved P Q d'"
  using assms by (fastforce simp: reserved_def)

lemma reserved_create_transfer: "reserved P Q d \<Longrightarrow> reserved P Q (snd (sql_create_transfer p now d))"
  by (fastforce simp: reserved_def sql_create_transfer_def Let_def has_key_def split: option.split dest: nextval_SomeD)

lemma reserved_create_entry: "reserved P Q d \<Longrightarrow> reserved P Q (snd (sql_create_entry p now d))"
  by (fastforce simp: reserved_def sql_create_entry_def Let_def has_key_def split: option.split dest: nextval_SomeD)

lemma reserved_others:
  assumes "reserved P Q d"
  shows "reserved P Q (snd (sql_add_account_balance p1 now d))" "reserved P Q (snd (sql_create_account p2 now d))"
    "reserved P Q (snd (sql_create_session p3 now d))" "reserved P Q (snd (sql_create_user p4 now d))"
    "reserved P Q (snd (sql_update_user p5 now d))"
  by (rule reserved_frame [OF assms]; simp add: sql_add_account_balance_def sql_create_account_def
      sql_create_session_def sql_create_user_def sql_update_user_def Let_def split: option.split)+

interpretation reserved: stmt_invariant "reserved P Q" for P Q
proof
  show "reserved P Q d \<Longrightarrow> seqs_le d d' \<Longrightarrow> reserved P Q (with_seqs d d')" for d d'
    by (erule reserved_frame) (auto simp: with_seqs_def seqs_le_def)
qed (auto simp: stmt_keeps_def seqs_le_statements reserved_create_transfer reserved_create_entry reserved_others)

end
