(* ===== verification/Concurrent_Inv.thy ===== *)
theory Concurrent_Inv
  imports Concurrent_Bank
begin

text \<open>
  The invariant of the interleaved transactions: the committed tables are a balanced bank, what each
  thread has checked still holds, each transaction has done what its progress says, and no two share a
  lock or the id of a new row.
\<close>

subsection \<open>A transaction and the steps of others\<close>

lemma uncommitted_iff:
  "uncommitted key new rs s \<longleftrightarrow> distinct (map key new) \<and>
     (\<forall>i \<in> key ` set new. 1 \<le> sint i \<and> sint i < s \<and> \<not> has_key key i rs)"
  by (auto simp: uncommitted_def)

lemma txn_reserved:
  assumes "wf_db d"
  shows "txn_ok d x \<Longrightarrow> reserved (tr_ID ` set (tn_transfers x)) (ent_ID ` set (tn_entries x)) d"
  using assms by (auto simp: txn_ok_def reserved_def uncommitted_iff wf_db_defs below_def)

lemma same_row:
  assumes "grows d d'" and "map_option acc_Balance (row_of acc_ID k (accounts d')) = map_option acc_Balance (row_of acc_ID k (accounts d))"
  shows "row_of acc_ID k (accounts d') = row_of acc_ID k (accounts d)"
proof (cases "row_of acc_ID k (accounts d)")
  case (Some r)
  with assms(1) prefix_map_row [of account_key "accounts d" "accounts d'" acc_ID k r]
  obtain r' where "row_of acc_ID k (accounts d') = Some r'" "account_key r' = account_key r"
    by (auto simp: grows_def account_key_def)
  with Some assms(2) show ?thesis by (simp add: account_key_def)
qed (use assms(2) in simp)

lemma first_held: "addMoney_args a = (i1, a1, i2, a2) \<Longrightarrow> held a First = {i1}" "addMoney_args a = (i1, a1, i2, a2) \<Longrightarrow> held a Second = {i1, i2}"
  by simp_all

lemma txn_ok_kept:
  assumes ok: "txn_ok d x" and rows: "\<And>k. k \<in> dom (tn_balances x) \<Longrightarrow> row_of acc_ID k (accounts d') = row_of acc_ID k (accounts d)"
    and new: "uncommitted tr_ID (tn_transfers x) (transfers d') (transfers_seq d')" "uncommitted ent_ID (tn_entries x) (entries d') (entries_seq d')"
  shows "txn_ok d' x"
proof -
  have "txn_balances d' x \<and> txn_accounts d' x" if pc: "tn_pc x \<noteq> RollbackTx"
  proof -
    have b: "txn_balances d x" and a: "txn_accounts d x" using ok pc by (auto simp: txn_ok_def)
    have "txn_balances d' x" using b rows by (fastforce simp: txn_balances_def dom_def)
    moreover have "own_row d' x k = own_row d x k" if "k \<in> held (tn_arg x) (phase (tn_pc x))" for k
      using that b rows [of k] by (simp add: own_row_def txn_balances_def)
    then have "txn_accounts d' x"
      using a by (auto simp: txn_accounts_def Let_def addMoney_args_def split: if_splits)
    ultimately show ?thesis ..
  qed
  with ok new show ?thesis by (auto simp: txn_ok_def)
qed

lemma thread_kept:
  assumes ok: "bank_thread_ok d t" and grows: "grows d d'"
    and rows: "\<And>k. k \<in> locks t \<Longrightarrow>
      map_option acc_Balance (row_of acc_ID k (accounts d')) = map_option acc_Balance (row_of acc_ID k (accounts d))"
    and new: "reserved (fst (new_ids t)) (snd (new_ids t)) d'"
  shows "bank_thread_ok d' t"
proof (cases t)
  case (Call u)
  with ok grows show ?thesis by (simp add: thread_ok_stable)
next
  case (Running p req x)
  have "txn_ok d' x"
    by (rule txn_ok_kept) (use ok Running new same_row [OF grows rows] in \<open>auto simp: reserved_def uncommitted_iff txn_ok_def\<close>)
  with ok Running thread_ok_stable [OF grows, of "RunTx p req"] show ?thesis by simp
qed

lemma thread_reserved:
  assumes "wf_db d" and "bank_thread_ok d t"
  shows "reserved (fst (new_ids t)) (snd (new_ids t)) d"
proof (cases t)
  case (Call u)
  with assms(1) show ?thesis by (simp add: reserved_def wf_db_defs below_def)
next
  case (Running p req x)
  with assms txn_reserved show ?thesis by simp
qed

lemma threads_kept:
  assumes "list_all (bank_thread_ok d) ts" and "grows d d'" and "leaves_alone ts d d'"
    and "\<And>P Q. reserved P Q d \<Longrightarrow> reserved P Q d'" and "wf_db d"
  shows "list_all (bank_thread_ok d') ts"
  unfolding list_all_iff
proof
  fix t
  assume t: "t \<in> set ts"
  with assms(1) have ok: "bank_thread_ok d t" by (simp add: list_all_iff)
  show "bank_thread_ok d' t"
    by (rule thread_kept [OF ok assms(2)]) (use assms(3,4) t thread_reserved [OF assms(5) ok] in \<open>auto simp: leaves_alone_def\<close>)
qed

text \<open>A step that writes no account, entry or transfer disturbs no transaction.\<close>

lemma reads_leave_alone: "accounts d' = accounts d \<Longrightarrow> leaves_alone ts d d'"
  by (simp add: leaves_alone_def)

lemma CreateSession_writes:
  "c_tx c = Autocommit \<Longrightarrow> CreateSession E arg c = (r, c') \<Longrightarrow>
   c_tx c' = Autocommit \<and> (c_db c' = c_db c \<or> (\<exists>now. c_db c' = snd (sql_create_session arg now (c_db c))))"
  using query_row_autocommit(1,3) [of c E "sql_create_session arg" r c'] by (auto simp: CreateSession_def)

lemma thread_step_writes:
  assumes run: "thread_step E t c = (t', c')" and c: "c_tx c = Autocommit" and t: "\<And>p req. t \<noteq> RunTx p req"
  shows "c_tx c' = Autocommit \<and> (c_db c' = c_db c \<or> (\<exists>arg now. c_db c' = snd (sql_create_session arg now (c_db c))))"
proof (cases t)
  case (RunTx p req)
  with t show ?thesis by blast
next
  case (CheckFrom p req)
  with run c show ?thesis by (auto split: http_splits dest!: validAccount_seen)
next
  case (CheckTo p req)
  with run c show ?thesis by (auto split: http_splits dest!: validAccount_seen)
next
  case (LoginGet L server rv ua ip req)
  with run c show ?thesis by (auto split: http_splits dest!: user_seen)
next
  case (GLoginGet G maker config rv ctx req)
  with run c show ?thesis by (auto split: http_splits dest!: user_seen)
next
  case (LoginCreate arg resp)
  with run obtain r where "CreateSession E arg c = (r, c')" by (auto split: http_splits)
  from CreateSession_writes [OF c this] show ?thesis by blast
next
  case (GLoginCreate arg resp)
  with run obtain r where "CreateSession E arg c = (r, c')" by (auto split: http_splits)
  from CreateSession_writes [OF c this] show ?thesis by blast
qed (use run c in simp_all)

lemma create_session_frame:
  assumes "d' = d \<or> (\<exists>arg now. d' = snd (sql_create_session arg now d))"
  shows "accounts d' = accounts d" "reserved P Q d \<Longrightarrow> reserved P Q d'"
  using assms reserved_others(3) by (auto simp: sql_create_session_def Let_def)

subsection \<open>A transaction and its own statements\<close>

lemma tx_view_simps [simp]:
  "users (tx_view x d) = users d" "sessions (tx_view x d) = sessions d" "accounts_seq (tx_view x d) = accounts_seq d"
  "transfers_seq (tx_view x d) = transfers_seq d" "entries_seq (tx_view x d) = entries_seq d"
  by (simp_all add: tx_view_def)

lemma with_seqs_simps [simp]:
  "users (with_seqs d d') = users d" "accounts (with_seqs d d') = accounts d" "entries (with_seqs d d') = entries d"
  "transfers (with_seqs d d') = transfers d" "sessions (with_seqs d d') = sessions d"
  "accounts_seq (with_seqs d d') = accounts_seq d'" "entries_seq (with_seqs d d') = entries_seq d'"
  "transfers_seq (with_seqs d d') = transfers_seq d'"
  by (simp_all add: with_seqs_def)

lemma with_seqs_self [simp]: "with_seqs d d = d"
  by (simp add: with_seqs_def)

lemma tx_stmt_cases:
  assumes "tx_stmt x d = (x', d')" and "addMoney_args (tn_arg x) = (i1, a1, i2, a2)"
  obtains (transfer) "tn_pc x = InsertTransfer" "insert_transfer x d = (x', d')"
  | (from_entry) "tn_pc x = InsertFrom"
      "insert_entry (ttp_FromAccountID (tn_arg x)) (- ttp_Amount (tn_arg x)) InsertTo (\<lambda>e. ttr_FromEntry_update (\<lambda>_. e)) x d = (x', d')"
  | (to_entry) "tn_pc x = InsertTo"
      "insert_entry (ttp_ToAccountID (tn_arg x)) (ttp_Amount (tn_arg x)) UpdateFirst (\<lambda>e. ttr_ToEntry_update (\<lambda>_. e)) x d = (x', d')"
  | (first) "tn_pc x = UpdateFirst" "update_balance i1 a1 UpdateSecond (first_row (tn_arg x)) x d = (x', d')"
  | (second) "tn_pc x = UpdateSecond" "update_balance i2 a2 CommitTx (second_row (tn_arg x)) x d = (x', d')"
  | (ended) "tn_pc x = CommitTx \<or> tn_pc x = RollbackTx" "x' = x" "d' = d"
  using assms by (cases "tn_pc x") (simp_all add: tx_stmt_def Let_def)

lemma tx_stmt_seqs:
  assumes "tx_stmt x d = (x', d')"
  shows "\<exists>s. d' = with_seqs d s \<and> seqs_le d s \<and> accounts_seq s = accounts_seq d"
proof -
  have insert: "\<exists>s. d' = with_seqs d s \<and> seqs_le d s \<and> accounts_seq s = accounts_seq d"
    if "d' = with_seqs d (snd (sql_create_entry p now (tx_view x d)))" for p now
    using that seqs_le_statements(4) [of "tx_view x d" p now]
    by (auto simp: seqs_le_def sql_create_entry_def Let_def split: option.splits intro!: exI [of _ "snd (sql_create_entry p now (tx_view x d))"])
  have transfer: "\<exists>s. d' = with_seqs d s \<and> seqs_le d s \<and> accounts_seq s = accounts_seq d"
    if "d' = with_seqs d (snd (sql_create_transfer p now (tx_view x d)))" for p now
    using that seqs_le_statements(5) [of "tx_view x d" p now]
    by (auto simp: seqs_le_def sql_create_transfer_def Let_def split: option.splits intro!: exI [of _ "snd (sql_create_transfer p now (tx_view x d))"])
  have none: "\<exists>s. d' = with_seqs d s \<and> seqs_le d s \<and> accounts_seq s = accounts_seq d" if "d' = d"
    using that by (intro exI [of _ d]) simp
  have entry: "d' = with_seqs d (snd (sql_create_entry \<lparr>cep_AccountID = i, cep_Amount = a\<rparr> (tn_now x) (tx_view x d)))"
    if "insert_entry i a p upd x d = (x', d')" for i a p upd
    using that by (auto simp: insert_entry_def split: prod.splits sum.splits list.splits)
  have inserted: "d' = with_seqs d (snd (sql_create_transfer \<lparr>ctp_FromAccountID = ttp_FromAccountID (tn_arg x),
      ctp_ToAccountID = ttp_ToAccountID (tn_arg x), ctp_Amount = ttp_Amount (tn_arg x)\<rparr> (tn_now x) (tx_view x d)))"
    if "insert_transfer x d = (x', d')"
    using that by (auto simp: insert_transfer_def split: prod.splits sum.splits list.splits)
  have updated: "d' = d" if "update_balance i a p upd x d = (x', d')" for i a p upd
    using that by (auto simp: update_balance_def split: prod.splits sum.splits list.splits)
  obtain i1 a1 i2 a2 where "addMoney_args (tn_arg x) = (i1, a1, i2, a2)" by (metis surj_pair)
  with assms show ?thesis
    by (cases rule: tx_stmt_cases) (rule none insert transfer, (erule entry inserted updated | assumption))+
qed

lemma create_transfer_new:
  "sql_create_transfer p now d = (Inr [t], d') \<Longrightarrow> nextval (transfers_seq d) = Some (tr_ID t) \<and>
   d' = d\<lparr>transfers_seq := transfers_seq d + 1, transfers := transfers d @ [t]\<rparr> \<and>
   transfer_key t = (ctp_FromAccountID p, ctp_ToAccountID p, ctp_Amount p)"
  by (auto simp: sql_create_transfer_def Let_def transfer_key_def split: option.splits if_splits)

lemma create_entry_new:
  "sql_create_entry p now d = (Inr [e], d') \<Longrightarrow> nextval (entries_seq d) = Some (ent_ID e) \<and>
   d' = d\<lparr>entries_seq := entries_seq d + 1, entries := entries d @ [e]\<rparr> \<and> entry_key e = (cep_AccountID p, cep_Amount p)"
  by (auto simp: sql_create_entry_def Let_def entry_key_def split: option.splits if_splits)

lemma uncommitted_later: "uncommitted key new rs s \<Longrightarrow> s \<le> s' \<Longrightarrow> uncommitted key new rs s'"
  by (fastforce simp: uncommitted_def)

lemma uncommitted_append:
  assumes "uncommitted key new rs s" and "below key rs s" and "nextval s = Some (key r)"
  shows "uncommitted key (new @ [r]) rs (s + 1)"
  using assms below_fresh [OF assms(2,3)] by (fastforce simp: uncommitted_def below_def)

lemma wf_below:
  "wf_db d \<Longrightarrow> below tr_ID (transfers d) (transfers_seq d)" "wf_db d \<Longrightarrow> below ent_ID (entries d) (entries_seq d)"
  by (simp_all add: wf_db_defs)

text \<open>A statement that fails leaves a transaction that can only be rolled back.\<close>

lemma failed_ok:
  assumes "txn_ok d x" and "tx_stmt x d = (x', d')" and "x' = x\<lparr>tn_pc := RollbackTx\<rparr>"
  shows "txn_ok d' x'"
proof -
  obtain s where "d' = with_seqs d s" "seqs_le d s" using tx_stmt_seqs [OF assms(2)] by blast
  with assms show ?thesis by (auto simp: txn_ok_def seqs_le_def intro: uncommitted_later)
qed

lemma txn_balances_cong:
  assumes "txn_balances d x" and "accounts d' = accounts d" and "tn_balances x' = tn_balances x" "tn_arg x' = tn_arg x"
    and "phase (tn_pc x') = phase (tn_pc x)"
  shows "txn_balances d' x'"
  using assms(1) unfolding txn_balances_def assms(2-5) .

lemma insert_transfer_ok:
  assumes wf: "wf_db d" and ok: "txn_ok d x" and pc: "tn_pc x = InsertTransfer" and run: "insert_transfer x d = (x', d')"
    and stmt: "tx_stmt x d = (x', d')"
  shows "txn_ok d' x'"
  using run
proof (cases rule: insert_transfer_cases)
  case failed
  then show ?thesis by (intro failed_ok [OF ok stmt])
next
  case (inserted t)
  obtain s where d': "d' = with_seqs d s" using tx_stmt_seqs [OF stmt] by blast
  note N = create_transfer_new [OF inserted(1)]
  from N have key: "transfer_key t = (ttp_FromAccountID (tn_arg x), ttp_ToAccountID (tn_arg x), ttp_Amount (tn_arg x))"
    and new: "nextval (transfers_seq d) = Some (tr_ID t)" by simp_all
  have "transfers_seq (tx_view x' d') = transfers_seq d + 1" "entries_seq (tx_view x' d') = entries_seq d"
    unfolding conjunct1 [OF conjunct2 [OF N]] by simp_all
  moreover have "uncommitted tr_ID (tn_transfers x @ [t]) (transfers d) (transfers_seq d + 1)"
    using ok wf_below(1) [OF wf] new by (auto simp: txn_ok_def intro: uncommitted_append)
  moreover have "txn_balances d' x'"
    by (rule txn_balances_cong [of d x]) (use ok pc inserted(2) d' in \<open>simp_all add: txn_ok_def\<close>)
  ultimately show ?thesis
    using ok pc inserted(2) key d'
    by (auto simp: txn_ok_def txn_rows_def txn_accounts_def Let_def)
qed

lemma insert_entry_ok:
  assumes wf: "wf_db d" and ok: "txn_ok d x" and run: "insert_entry i a q upd x d = (x', d')"
    and stmt: "tx_stmt x d = (x', d')"
    and pc: "phase (tn_pc x) = Ready" "phase q = Ready" "tn_pc x \<noteq> RollbackTx"
    and rows: "\<And>e. txn_rows x \<Longrightarrow> entry_key e = (i, a) \<Longrightarrow>
      txn_rows (x\<lparr>tn_pc := q, tn_entries := tn_entries x @ [e], tn_result := upd e (tn_result x)\<rparr>)"
  shows "txn_ok d' x'"
  using run
proof (cases rule: insert_entry_cases)
  case failed
  then show ?thesis by (intro failed_ok [OF ok stmt])
next
  case (inserted e)
  obtain s where d': "d' = with_seqs d s" using tx_stmt_seqs [OF stmt] by blast
  note N = create_entry_new [OF inserted(1)]
  from N have key: "entry_key e = (i, a)" and new: "nextval (entries_seq d) = Some (ent_ID e)" by simp_all
  have "transfers_seq (tx_view x' d') = transfers_seq d" "entries_seq (tx_view x' d') = entries_seq d + 1"
    unfolding conjunct1 [OF conjunct2 [OF N]] by simp_all
  moreover have "uncommitted ent_ID (tn_entries x @ [e]) (entries d) (entries_seq d + 1)"
    using ok wf_below(2) [OF wf] new by (auto simp: txn_ok_def intro: uncommitted_append)
  moreover have "txn_rows x'" unfolding inserted(2) by (rule rows [OF _ key]) (use ok pc(3) in \<open>simp add: txn_ok_def\<close>)
  moreover have "q \<noteq> UpdateSecond" "q \<noteq> CommitTx" using pc(2) by auto
  moreover have "txn_balances d' x'"
    by (rule txn_balances_cong [of d x]) (use ok pc inserted(2) d' in \<open>simp_all add: txn_ok_def\<close>)
  ultimately show ?thesis
    using ok pc inserted(2) d' by (simp add: txn_ok_def txn_accounts_def Let_def)
qed

lemma shift_unheld: "k \<notin> held arg p \<Longrightarrow> shift arg p k = 0"
  by (cases p) (auto simp: idelta_args split: prod.splits)

lemma own_balance_shift:
  assumes "txn_balances d x" and "row_of acc_ID k (accounts d) = Some r"
  shows "sint (acc_Balance (own_balance (tn_balances x) r)) = sint (acc_Balance r) + shift (tn_arg x) (phase (tn_pc x)) k"
proof -
  have "acc_ID r = k" using row_of_SomeD [OF assms(2)] by simp
  moreover have "k \<notin> held (tn_arg x) (phase (tn_pc x))" if "tn_balances x k = None"
    using assms(1) that by (auto simp: txn_balances_def)
  ultimately show ?thesis
    using assms by (auto simp: own_balance_def txn_balances_def shift_unheld split: option.split)
qed

lemma updated_balances:
  assumes bal: "txn_balances d x" and r: "row_of acc_ID i (accounts d) = Some r"
    and b: "pg_add (acc_Balance (own_balance (tn_balances x) r)) a = Some b"
    and held: "held (tn_arg x) (phase q) = insert i (held (tn_arg x) (phase (tn_pc x)))"
    and shift: "\<And>j. shift (tn_arg x) (phase q) j = shift (tn_arg x) (phase (tn_pc x)) j + (if j = i then sint a else 0)"
  shows "txn_balances d (x\<lparr>tn_pc := q, tn_balances := (tn_balances x)(i \<mapsto> b), tn_result := res\<rparr>)"
  using bal r held shift [of i] sint_pg_add [OF b] own_balance_shift [OF bal r]
  by (auto simp: txn_balances_def shift)

lemma updated_row:
  assumes "row_of acc_ID i (accounts d) = Some r"
  shows "own_row d (x\<lparr>tn_pc := q, tn_balances := (tn_balances x)(i \<mapsto> b), tn_result := res\<rparr>) k =
    (if k = i then Some ((own_balance (tn_balances x) r)\<lparr>acc_Balance := b\<rparr>) else own_row d x k)"
  using assms row_of_SomeD [of acc_ID k "accounts d"]
  by (cases "row_of acc_ID k (accounts d)") (auto simp: own_row_def own_balance_upd)

lemma update_first_ok:
  assumes ok: "txn_ok d x" and pc: "tn_pc x = UpdateFirst" and args: "addMoney_args (tn_arg x) = (i1, a1, i2, a2)"
    and row: "has_key acc_ID i1 (accounts d)"
    and run: "update_balance i1 a1 UpdateSecond (first_row (tn_arg x)) x d = (x', d')" and stmt: "tx_stmt x d = (x', d')"
  shows "txn_ok d' x'"
  using run row
proof (cases rule: update_balance_cases)
  case failed
  then show ?thesis by (intro failed_ok [OF ok stmt])
next
  case (updated r b)
  have "txn_balances d x'" unfolding updated(5)
    by (rule updated_balances [OF _ updated(2,3)]) (use ok pc args in \<open>auto simp: txn_ok_def\<close>)
  moreover have "txn_accounts d x'" unfolding updated(5)
    using updated_row [OF updated(2)] args
    by (auto simp: txn_accounts_def Let_def addMoney_args_def first_row_def split: if_splits)
  moreover have "txn_rows x'" unfolding updated(5)
    using ok pc by (auto simp: txn_ok_def txn_rows_def Let_def first_row_def)
  ultimately show ?thesis
    using ok updated(1,5) by (simp add: txn_ok_def)
qed

lemma update_second_ok:
  assumes ok: "txn_ok d x" and pc: "tn_pc x = UpdateSecond" and args: "addMoney_args (tn_arg x) = (i1, a1, i2, a2)"
    and row: "has_key acc_ID i2 (accounts d)"
    and run: "update_balance i2 a2 CommitTx (second_row (tn_arg x)) x d = (x', d')" and stmt: "tx_stmt x d = (x', d')"
  shows "txn_ok d' x'"
  using run row
proof (cases rule: update_balance_cases)
  case failed
  then show ?thesis by (intro failed_ok [OF ok stmt])
next
  case (updated r b)
  have "txn_balances d x'" unfolding updated(5)
    by (rule updated_balances [OF _ updated(2,3)]) (use ok pc args in \<open>auto simp: txn_ok_def idelta_args\<close>)
  moreover have "txn_accounts d x" using ok pc by (simp add: txn_ok_def)
  then have "txn_accounts d x'" unfolding updated(5)
    using updated_row [OF updated(2)] args pc
    by (auto simp: txn_accounts_def Let_def addMoney_args_def second_row_def split: if_splits)
  moreover have "txn_rows x'" unfolding updated(5)
    using ok pc by (auto simp: txn_ok_def txn_rows_def Let_def second_row_def)
  ultimately show ?thesis
    using ok updated(1,5) by (simp add: txn_ok_def)
qed

lemma tx_stmt_ok:
  assumes wf: "wf_db d" and ok: "txn_ok d x" and run: "tx_stmt x d = (x', d')"
    and rows: "has_key acc_ID (ttp_FromAccountID (tn_arg x)) (accounts d)" "has_key acc_ID (ttp_ToAccountID (tn_arg x)) (accounts d)"
  shows "txn_ok d' x'"
proof -
  obtain i1 a1 i2 a2 where args: "addMoney_args (tn_arg x) = (i1, a1, i2, a2)" by (metis surj_pair)
  have i: "has_key acc_ID i1 (accounts d)" "has_key acc_ID i2 (accounts d)"
    using rows args by (auto simp: addMoney_args_def split: if_splits)
  from run args show ?thesis
  proof (cases rule: tx_stmt_cases)
    case transfer
    then show ?thesis by (intro insert_transfer_ok [OF wf ok _ _ run])
  next
    case from_entry
    then show ?thesis by (intro insert_entry_ok [OF wf ok _ run]) (auto simp: txn_rows_def Let_def)
  next
    case to_entry
    then show ?thesis by (intro insert_entry_ok [OF wf ok _ run]) (auto simp: txn_rows_def Let_def eval_nat_numeral)
  next
    case first
    then show ?thesis by (intro update_first_ok [OF ok _ args i(1) _ run])
  next
    case second
    then show ?thesis by (intro update_second_ok [OF ok _ args i(2) _ run])
  next
    case ended
    with ok show ?thesis by simp
  qed
qed

text \<open>What a statement may take: the row it wanted, the next id of a sequence.\<close>

lemma tx_stmt_takes:
  assumes run: "tx_stmt x d = (x', d')"
    and rows: "has_key acc_ID (ttp_FromAccountID (tn_arg x)) (accounts d)" "has_key acc_ID (ttp_ToAccountID (tn_arg x)) (accounts d)"
  shows "tn_arg x' = tn_arg x" and "tn_now x' = tn_now x"
    and "dom (tn_balances x') \<subseteq> dom (tn_balances x) \<union> {k. wants_row x = Some k}"
    and "tr_ID ` set (tn_transfers x') \<subseteq> tr_ID ` set (tn_transfers x) \<union> {i. nextval (transfers_seq d) = Some i}"
    and "ent_ID ` set (tn_entries x') \<subseteq> ent_ID ` set (tn_entries x) \<union> {i. nextval (entries_seq d) = Some i}"
proof -
  let ?takes = "tn_arg x' = tn_arg x \<and> tn_now x' = tn_now x \<and>
    dom (tn_balances x') \<subseteq> dom (tn_balances x) \<union> {k. wants_row x = Some k} \<and>
    tr_ID ` set (tn_transfers x') \<subseteq> tr_ID ` set (tn_transfers x) \<union> {i. nextval (transfers_seq d) = Some i} \<and>
    ent_ID ` set (tn_entries x') \<subseteq> ent_ID ` set (tn_entries x) \<union> {i. nextval (entries_seq d) = Some i}"
  obtain i1 a1 i2 a2 where args: "addMoney_args (tn_arg x) = (i1, a1, i2, a2)" by (metis surj_pair)
  have i: "has_key acc_ID i1 (accounts d)" "has_key acc_ID i2 (accounts d)"
    using rows args by (auto simp: addMoney_args_def split: if_splits)
  have entry: ?takes if "insert_entry i a q upd x d = (x', d')" for i a q upd
    using that by (cases rule: insert_entry_cases) (auto dest: create_entry_new)
  have update: ?takes if "update_balance i a q upd x d = (x', d')" "has_key acc_ID i (accounts d)" "wants_row x = Some i" for i a q upd
    using that by (cases rule: update_balance_cases) auto
  from run args have ?takes
  proof (cases rule: tx_stmt_cases)
    case transfer
    from transfer(2) show ?thesis by (cases rule: insert_transfer_cases) (auto dest: create_transfer_new)
  next
    case from_entry
    from entry [OF from_entry(2)] show ?thesis .
  next
    case to_entry
    from entry [OF to_entry(2)] show ?thesis .
  next
    case first
    from update [OF first(2) i(1)] show ?thesis using first(1) args by (simp add: wants_row_def)
  next
    case second
    from update [OF second(2) i(2)] show ?thesis using second(1) args by (simp add: wants_row_def)
  qed simp
  then show "tn_arg x' = tn_arg x" "tn_now x' = tn_now x"
    "dom (tn_balances x') \<subseteq> dom (tn_balances x) \<union> {k. wants_row x = Some k}"
    "tr_ID ` set (tn_transfers x') \<subseteq> tr_ID ` set (tn_transfers x) \<union> {i. nextval (transfers_seq d) = Some i}"
    "ent_ID ` set (tn_entries x') \<subseteq> ent_ID ` set (tn_entries x) \<union> {i. nextval (entries_seq d) = Some i}"
    by blast+
qed

subsection \<open>Commit\<close>

lemma distinct_uncommitted: "distinct (map key rs) \<Longrightarrow> uncommitted key new rs s \<Longrightarrow> distinct (map key (rs @ new))"
  by (auto simp: uncommitted_iff has_key_iff) (metis imageI)

lemma wf_tx_view:
  assumes wf: "wf_db d" and t: "uncommitted tr_ID (tn_transfers x) (transfers d) (transfers_seq d)"
    and e: "uncommitted ent_ID (tn_entries x) (entries d) (entries_seq d)"
    and fk: "tr_FromAccountID ` set (tn_transfers x) \<union> tr_ToAccountID ` set (tn_transfers x) \<union>
      ent_AccountID ` set (tn_entries x) \<subseteq> acc_ID ` set (accounts d)"
  shows "wf_db (tx_view x d)"
proof -
  have "keys_unique (tx_view x d)"
  proof -
    have "distinct (map tr_ID (transfers d @ tn_transfers x))" "distinct (map ent_ID (entries d @ tn_entries x))"
      using wf by (auto intro: distinct_uncommitted [OF _ t] distinct_uncommitted [OF _ e] simp: wf_db_defs simp del: map_append distinct_append)
    with wf show ?thesis by (simp add: wf_db_defs tx_view_def comp_def)
  qed
  moreover have "acc_ID ` set (accounts (tx_view x d)) = acc_ID ` set (accounts d)"
    "acc_Owner ` set (accounts (tx_view x d)) = acc_Owner ` set (accounts d)"
    by (simp_all add: tx_view_def image_image)
  then have "fks_ok (tx_view x d)"
    using wf fk by (simp add: wf_db_def fks_ok_def image_Un) (simp add: tx_view_def image_Un)
  moreover have "seqs_ok (tx_view x d)"
    using wf t e by (auto simp: wf_db_defs tx_view_def uncommitted_def below_def)
  ultimately show ?thesis by (simp add: wf_db_def)
qed

lemma grows_tx_view: "grows d (tx_view x d)"
  by (simp add: grows_def tx_view_def account_key_def [abs_def] comp_def)

lemma row_tx_view: "row_of acc_ID k (accounts (tx_view x d)) = own_row d x k"
  by (simp add: tx_view_def own_row_def row_of_map_keep)

lemma currency_tx_view: "currency_of k (tx_view x d) = currency_of k d"
  by (simp add: currency_of_def row_tx_view own_row_def option.map_comp comp_def)

lemma same_currency_tx_view: "same_currency i j (tx_view x d) = same_currency i j d"
  by (simp add: same_currency_def currency_tx_view cong: option.case_cong)

text \<open>The rows a transaction commits, when it has done everything.\<close>

lemma commit_rows:
  assumes ok: "txn_ok d x" and pc: "tn_pc x = CommitTx"
  defines "arg \<equiv> tn_arg x" and "res \<equiv> tn_result x"
  shows "transfers (tx_view x d) = transfers d @ [ttr_Transfer res]"
    and "entries (tx_view x d) = entries d @ [ttr_FromEntry res, ttr_ToEntry res]"
    and "transfer_key (ttr_Transfer res) = (ttp_FromAccountID arg, ttp_ToAccountID arg, ttp_Amount arg)"
    and "entry_key (ttr_FromEntry res) = (ttp_FromAccountID arg, - ttp_Amount arg)"
    and "entry_key (ttr_ToEntry res) = (ttp_ToAccountID arg, ttp_Amount arg)"
  using ok pc by (simp_all add: txn_ok_def txn_rows_def tx_view_def arg_def res_def Let_def numeral_2_eq_2)

lemma commit_balance:
  assumes ok: "txn_ok d x" and pc: "tn_pc x = CommitTx" and wf: "wf_db d" and r: "r \<in> set (accounts d)"
  shows "sint (acc_Balance (own_balance (tn_balances x) r)) = sint (acc_Balance r) + idelta (tn_arg x) (acc_ID r)"
proof -
  have "row_of acc_ID (acc_ID r) (accounts d) = Some r"
    using wf r by (intro row_of_member) (simp_all add: wf_db_defs)
  moreover have "txn_balances d x" using ok pc by (simp add: txn_ok_def)
  ultimately show ?thesis using own_balance_shift pc by fastforce
qed

lemma bank_inv_commit:
  assumes inv: "bank_inv d" and ok: "txn_ok d x" and pc: "tn_pc x = CommitTx"
    and amount: "0 < sint (ttp_Amount (tn_arg x))"
    and currency: "same_currency (ttp_FromAccountID (tn_arg x)) (ttp_ToAccountID (tn_arg x)) d"
  shows "bank_inv (tx_view x d)"
proof -
  let ?from = "ttp_FromAccountID (tn_arg x)" and ?to = "ttp_ToAccountID (tn_arg x)" and ?amt = "ttp_Amount (tn_arg x)"
  let ?res = "tn_result x"
  note I = bank_invD [OF inv]
  note R = commit_rows [OF ok pc]
  have neg: "sint (- ?amt) = - sint ?amt" using amount by (intro sint64_neg) simp
  have rows: "has_key acc_ID ?from (accounts d)" "has_key acc_ID ?to (accounts d)"
    using currency by (auto simp: same_currency_def currency_of_def row_of_Some_has_key split: option.splits)
  have news: "tn_transfers x = [ttr_Transfer ?res]" "tn_entries x = [ttr_FromEntry ?res, ttr_ToEntry ?res]"
    using R(1,2) by (simp_all add: tx_view_def)
  have wf: "wf_db (tx_view x d)"
    by (rule wf_tx_view [OF I(1)])
      (use ok rows R(3-5) news in \<open>auto simp: txn_ok_def transfer_key_def entry_key_def has_key_iff\<close>)
  have "ledger_ok (tx_view x d)"
    using I(2) commit_balance [OF ok pc I(1)] R(2,4,5)
    by (auto simp: ledger_ok_def tx_view_def entry_sum_def entry_key_def idelta_def)
  moreover have "total_balance (tx_view x d) = 0"
  proof -
    have "total_balance (tx_view x d) = (\<Sum>r \<leftarrow> accounts d. sint (acc_Balance r) +
        (if acc_ID r = ?from then sint (- ?amt) else 0) + (if acc_ID r = ?to then sint ?amt else 0))"
      using commit_balance [OF ok pc I(1)]
      by (simp add: total_balance_def tx_view_def comp_def idelta_def add.assoc cong: map_cong)
    also have "\<dots> = total_balance d + sint (- ?amt) + sint ?amt"
      using rows I(1) by (simp add: total_balance_def sum_list_addf sum_indicator wf_db_defs)
    finally show ?thesis using I(3) neg by simp
  qed
  moreover have "double_entry (tx_view x d)"
    using I(4) R by (simp add: double_entry_def entry_pair_def transfer_key_def entry_key_def)
  moreover have "transfers_ok (tx_view x d)"
    using I(5) R(1,3) amount currency
    by (auto simp: transfers_ok_def same_currency_tx_view transfer_key_def)
  moreover have "currencies_ok (tx_view x d)"
    using I(6) by (simp add: currencies_ok_def tx_view_def)
  ultimately show ?thesis using wf by (simp add: bank_inv_def)
qed

subsection \<open>The invariant holds in every reachable state\<close>

definition conc_inv :: "'w bank_state \<Rightarrow> bool" where
  "conc_inv s = (case s of (w, c, ts) \<Rightarrow> c_tx c = Autocommit \<and> bank_inv (c_db c) \<and>
     list_all (bank_thread_ok (c_db c)) ts \<and> all_apart ts)"

lemma running_rows:
  assumes "bank_thread_ok d (Running p req x)"
  shows "has_key acc_ID (ttp_FromAccountID (tn_arg x)) (accounts d)" "has_key acc_ID (ttp_ToAccountID (tn_arg x)) (accounts d)"
    and "0 < sint (ttp_Amount (tn_arg x))"
    and "same_currency (ttp_FromAccountID (tn_arg x)) (ttp_ToAccountID (tn_arg x)) d"
  using assms owns_same_currency
  by (auto simp: tx_args_def owns_def currency_of_def row_of_Some_has_key split: option.splits)

lemma begin_ok: "thread_ok d (RunTx p req) \<Longrightarrow> bank_thread_ok d (Running p req (begin_txn now (tx_args req)))"
  by (simp add: txn_ok_def txn_rows_def txn_balances_def txn_accounts_def uncommitted_def begin_txn_def Let_def)

lemma seq_step_kept:
  assumes "list_all (bank_thread_ok d) ts" and "wf_db d" and "d' = with_seqs d s" "seqs_le d s"
  shows "list_all (bank_thread_ok d') ts"
proof (rule threads_kept [OF assms(1)])
  show "reserved P Q d'" if "reserved P Q d" for P Q
    using that by (rule reserved_frame) (use assms(3,4) in \<open>simp_all add: seqs_le_def\<close>)
qed (use assms in \<open>simp_all add: grows_def leaves_alone_def\<close>)

lemma disjoint_grows: "A' \<subseteq> A \<union> {k. P k} \<Longrightarrow> A \<inter> B = {} \<Longrightarrow> (\<And>k. P k \<Longrightarrow> k \<notin> B) \<Longrightarrow> A' \<inter> B = {}"
  by blast

text \<open>A statement keeps its transaction apart from the others: a row lock is waited for, an id is new.\<close>

lemma statement_apart:
  assumes inv: "bank_inv d" and ts: "list_all (bank_thread_ok d) ts" and apart: "all_apart ts" and i: "i < length ts"
    and x: "ts ! i = Running p req x" and free: "row_free ts i x" and run: "tx_stmt x d = (x', d')"
  shows "all_apart (ts[i := Running p req x'])"
proof (rule all_apart_update [OF apart])
  fix j
  assume j: "j < length ts" "j \<noteq> i"
  note A = all_apartD [OF apart i j, unfolded x apart_def]
  have ok: "bank_thread_ok d (Running p req x)" using ts i x by (auto simp: list_all_length)
  note T = tx_stmt_takes [OF run running_rows(1,2) [OF ok]]
  have "reserved (fst (new_ids (ts ! j))) (snd (new_ids (ts ! j))) d"
    by (rule thread_reserved [OF bank_invD(1) [OF inv]]) (use ts j in \<open>simp add: list_all_length\<close>)
  then have new: "nextval (transfers_seq d) = Some k \<Longrightarrow> k \<notin> fst (new_ids (ts ! j))"
    "nextval (entries_seq d) = Some k \<Longrightarrow> k \<notin> snd (new_ids (ts ! j))" for k
    using nextval_SomeD by (fastforce simp: reserved_def)+
  have lock: "k \<notin> locks (ts ! j)" if "wants_row x = Some k" for k
    using free that j by (auto simp: row_free_def)
  have "dom (tn_balances x') \<inter> locks (ts ! j) = {}"
    by (rule disjoint_grows [OF T(3)]) (use A lock in auto)
  moreover have "tr_ID ` set (tn_transfers x') \<inter> fst (new_ids (ts ! j)) = {}"
    by (rule disjoint_grows [OF T(4)]) (use A new(1) in auto)
  moreover have "ent_ID ` set (tn_entries x') \<inter> snd (new_ids (ts ! j)) = {}"
    by (rule disjoint_grows [OF T(5)]) (use A new(2) in auto)
  ultimately show "apart (Running p req x') (ts ! j)" by (simp add: apart_def)
qed

lemma commit_kept:
  assumes wf: "wf_db d" and t: "bank_thread_ok d t" and x: "bank_thread_ok d (Running p req x)" and apart: "apart (Running p req x) t"
  shows "bank_thread_ok (tx_view x d) t"
proof (rule thread_kept [OF t grows_tx_view])
  fix k
  assume "k \<in> locks t"
  with apart have "tn_balances x k = None" by (auto simp: apart_def)
  then have "own_row d x k = row_of acc_ID k (accounts d)"
    using row_of_SomeD [of acc_ID k "accounts d"] by (cases "row_of acc_ID k (accounts d)") (auto simp: own_row_def own_balance_def)
  then show "map_option acc_Balance (row_of acc_ID k (accounts (tx_view x d))) = map_option acc_Balance (row_of acc_ID k (accounts d))"
    by (simp add: row_tx_view)
next
  have "transfers (tx_view x d) = transfers d @ tn_transfers x" "entries (tx_view x d) = entries d @ tn_entries x"
    by (simp_all add: tx_view_def)
  with thread_reserved [OF wf t] apart
  show "reserved (fst (new_ids t)) (snd (new_ids t)) (tx_view x d)"
    by (auto simp: reserved_def apart_def has_key_iff)
qed

lemma list_all_update':
  assumes "\<And>j. j < length ts \<Longrightarrow> j \<noteq> i \<Longrightarrow> P (ts ! j)" and "P t"
  shows "list_all P (ts[i := t])"
  unfolding list_all_length
proof (intro allI impI)
  fix j
  assume "j < length (ts[i := t])"
  with assms show "P (ts[i := t] ! j)" by (cases "j = i") simp_all
qed

lemma conc_invI:
  "c_tx c = Autocommit \<Longrightarrow> bank_inv (c_db c) \<Longrightarrow> list_all (bank_thread_ok (c_db c)) ts \<Longrightarrow> all_apart ts \<Longrightarrow> conc_inv (w, c, ts)"
  by (simp add: conc_inv_def)

lemma call_apart: "all_apart ts \<Longrightarrow> all_apart (ts[i := Call t])"
  by (rule all_apart_update) auto

text \<open>A thread moves to a call without a step of the database.\<close>

lemma call_inv:
  assumes "conc_inv (w, c, ts)" and "thread_ok (c_db c) t"
  shows "conc_inv (w, c, ts[i := Call t])" "conc_inv (w, c, ts @ [Call t])"
  using assms by (auto simp: conc_inv_def call_apart all_apart_append list_all_update)

interpretation transactions: invariant_of bank_started bank_conc_step conc_inv
proof
  fix s :: "'w bank_state"
  assume "bank_started s"
  then show "conc_inv s" by (auto simp: bank_started_def conc_inv_def bank_inv_empty all_apart_def)
next
  fix s s' :: "'w bank_state"
  assume inv: "conc_inv s" and "bank_conc_step s s'"
  note invD = inv [unfolded conc_inv_def]
  from \<open>bank_conc_step s s'\<close> show "conc_inv s'"
  proof cases
    case (conc_other w c w' c' ts)
    with invD have c: "c_tx c = Autocommit" "bank_inv (c_db c)" and ts: "list_all (bank_thread_ok (c_db c)) ts" "all_apart ts"
      by simp_all
    have "grows (c_db c) (c_db c')" by (rule bank_run_grows [OF bank_run.run_step [OF bank_run.run_none conc_other(3)]])
    then have "list_all (bank_thread_ok (c_db c')) ts"
      by (rule threads_kept [OF ts(1) _ conc_other(4) reserved.bank_step_keeps_stmt [OF conc_other(3)] bank_invD(1) [OF c(2)]])
    with bank_step_keeps [OF conc_other(3) c] ts(2) conc_other(2) show ?thesis by (simp add: conc_inv_def)
  next
    case conc_transfer
    with inv show ?thesis by (simp add: call_inv(2) start_transfer_ok)
  next
    case conc_login
    with inv show ?thesis by (simp add: call_inv(2) start_login_ok)
  next
    case conc_gapi_login
    with inv show ?thesis by (simp add: call_inv(2) start_login_ok)
  next
    case (conc_call i ts t E c t' c' w)
    with invD have c: "c_tx c = Autocommit" "bank_inv (c_db c)" and ts: "list_all (bank_thread_ok (c_db c)) ts" "all_apart ts"
      by simp_all
    have t: "thread_ok (c_db c) t" using ts(1) conc_call(3,4) by (auto simp: list_all_length)
    note W = create_session_frame [OF conjunct2 [OF thread_step_writes [OF conc_call(6) c(1) conc_call(5)]]]
    have "list_all (bank_thread_ok (c_db c')) ts"
      by (rule threads_kept [OF ts(1) thread_step_grows [OF conc_call(6)] reads_leave_alone [OF W(1)] W(2) bank_invD(1) [OF c(2)]])
    with thread_step_ok [OF c t conc_call(6)] ts(2) conc_call(2) show ?thesis
      by (simp add: conc_inv_def call_apart list_all_update)
  next
    case (conc_begin i ts p req w c now)
    with invD have ts: "list_all (bank_thread_ok (c_db c)) ts" "all_apart ts" by simp_all
    have "thread_ok (c_db c) (RunTx p req)" using ts(1) conc_begin(3,4) by (auto simp: list_all_length)
    moreover have "all_apart (ts[i := Running p req (begin_txn now (tx_args req))])"
      by (rule all_apart_update [OF ts(2)]) (simp add: apart_def begin_txn_def)
    ultimately show ?thesis
      using ts invD conc_begin by (simp add: conc_inv_def list_all_update begin_ok del: bank_thread_ok.simps)
  next
    case conc_begin_fails
    with inv show ?thesis by (simp add: call_inv(1))
  next
    case (conc_statement i ts p req x c x' d' w)
    with invD have c: "c_tx c = Autocommit" "bank_inv (c_db c)" and ts: "list_all (bank_thread_ok (c_db c)) ts" "all_apart ts"
      by simp_all
    have x: "bank_thread_ok (c_db c) (Running p req x)" using ts(1) conc_statement(3,4) by (metis list_all_length)
    note wf = bank_invD(1) [OF c(2)]
    obtain q where d': "d' = with_seqs (c_db c) q" "seqs_le (c_db c) q" using tx_stmt_seqs [OF conc_statement(6)] by blast
    have kept: "list_all (bank_thread_ok d') ts" by (rule seq_step_kept [OF ts(1) wf d'])
    then have run: "bank_thread_ok d' (Running p req x)" using conc_statement(3,4) by (metis list_all_length)
    have "txn_ok d' x'"
      by (rule tx_stmt_ok [OF wf _ conc_statement(6) running_rows(1,2) [OF x]]) (use x in simp)
    with run have "bank_thread_ok d' (Running p req x')"
      using tx_stmt_takes(1) [OF conc_statement(6) running_rows(1,2) [OF x]] by simp
    moreover have "all_apart (ts[i := Running p req x'])"
      by (rule statement_apart [OF c(2) ts conc_statement(3-6)])
    moreover have "bank_inv d'" using bank.advance [OF c(2) d'(2)] d'(1) by simp
    ultimately show ?thesis
      using c(1) kept conc_statement(2) by (simp add: conc_inv_def list_all_update del: bank_thread_ok.simps)
  next
    case (conc_commit i ts p req x resp e w c)
    with invD have c: "c_tx c = Autocommit" "bank_inv (c_db c)" and ts: "list_all (bank_thread_ok (c_db c)) ts" "all_apart ts"
      by simp_all
    have x: "bank_thread_ok (c_db c) (Running p req x)" using ts(1) conc_commit(3,4) by (metis list_all_length)
    have "bank_inv (tx_view x (c_db c))"
      by (rule bank_inv_commit [OF c(2) _ conc_commit(5) running_rows(3,4) [OF x]]) (use x in simp)
    moreover have "list_all (bank_thread_ok (tx_view x (c_db c))) (ts[i := Call (Answered resp)])"
    proof (rule list_all_update')
      fix j
      assume j: "j < length ts" "j \<noteq> i"
      then show "bank_thread_ok (tx_view x (c_db c)) (ts ! j)"
        using all_apartD [OF ts(2) conc_commit(3) j] ts(1) conc_commit(4)
        by (intro commit_kept [OF bank_invD(1) [OF c(2)] _ x]) (simp_all add: list_all_length)
    qed simp
    ultimately show ?thesis
      using c(1) ts(2) conc_commit(2) by (simp add: conc_inv_def call_apart)
  next
    case conc_rollback
    with inv show ?thesis by (simp add: call_inv(1))
  qed
qed

end
