(* ===== verification/Sessions.thy ===== *)
theory Sessions
  imports Bank_System
begin

text \<open>
  Sessions and passwords across requests and across the two servers: how long a session lives, where
  a changed password counts, and what the routes can answer at all.
\<close>

subsection \<open>The life time of a session\<close>

lemma bank_run_keeps:
  "bank_run w c w' c' \<Longrightarrow> c_tx c = Autocommit \<Longrightarrow> bank_inv (c_db c) \<Longrightarrow> c_tx c' = Autocommit \<and> bank_inv (c_db c')"
  by (induction rule: bank_run.induct) (simp_all add: bank_step_keeps)

text \<open>
  Whatever is served after a login, in whatever order and with whatever faults (a change of the
  user's password included), the refresh token keeps buying access tokens until it or its session expires (the latter is
  stored to the microsecond): no
  request blocks, changes or removes a session.
\<close>

theorem session_renews_until_expiry:
  assumes "bank_reach w c" and "maker_ok (srv_tokenMaker srv)"
    and login: "api_loginUser L srv E rv ua ip decoded c = ((StatusOK, LoginBody resp), c1)"
    and run: "bank_run w1 c1 w2 d" and "no_faults E'" and "lr_RefreshToken resp \<noteq> ''''"
    and "rv_verify_now rv' \<le> lr_RefreshTokenExpiredAt resp" and "rv_now rv' \<le> timestamptz (lr_RefreshTokenExpiredAt resp)"
    and "mk_CreateToken (srv_tokenMaker srv) (rv_access rv') (ur_Username (lr_User resp)) (AccessTokenDuration (srv_config srv))
      = Inr (at, ap)"
  shows "api_reNewAccessToken L srv E' rv' (Inr \<lparr>rnr_RefreshToken = lr_RefreshToken resp\<rparr>) d =
    ((StatusOK, RenewBody \<lparr>rn_AccessToken = at, rn_AccessTokenExpiredAt = pl_ExpiredAt ap\<rparr>), ticked d)"
proof -
  note c = bank_reach_inv [OF assms(1)]
  note c1 = servesD [OF loginUser_serves login conjunct1 [OF c] conjunct2 [OF c]]
  have d: "c_tx d = Autocommit" using bank_run_keeps [OF run] c1 by simp
  from login conjunct1 [OF c] obtain session where
    "row_of ses_ID (lr_SessionID resp) (sessions (c_db c1)) = Some session"
    by (rule loginUser_ok) auto
  with grows_session [OF bank_run_grows [OF run]]
  have "row_of ses_ID (lr_SessionID resp) (sessions (c_db d)) = row_of ses_ID (lr_SessionID resp) (sessions (c_db c1))"
    by simp
  from login_can_be_renewed [OF conjunct1 [OF c] assms(2) login d assms(5,6) this assms(7-9)] show ?thesis .
qed

definition ann_created :: conn where
  "ann_created = snd (serve sample_libs sample_server good_env sample_rv '''' (CreateUserReq (Inr ann_registers)) empty_conn)"

lemma ann_created_reach: "bank_reach w ann_created"
proof -
  obtain r where run: "serve sample_libs sample_server good_env sample_rv '''' (CreateUserReq (Inr ann_registers)) empty_conn = (r, ann_created)"
    by (metis ann_created_def prod.collapse)
  have "bank_reach w empty_conn" by (rule bank_reach.started) (simp_all add: empty_conn_def)
  then show ?thesis by (rule bank_reach.stepped [OF _ bank_step.http_request [OF run]])
qed

lemma ann_created_user:
  "row_of usr_Username ''ann'' (users (c_db ann_created)) = Some (user_row 0 (sample_params ''ann'' ''ann@x.org'')\<lparr>usr_FullName := ''Ann''\<rparr>)"
  "sessions (c_db ann_created) = []" "c_tx ann_created = Autocommit"
  by code_simp+

lemma ann_logs_in:
  "fst (api_loginUser sample_libs sample_server good_env sample_rv ''curl'' ''10.0.0.1''
     (Inr \<lparr>lur_UserName = ''ann'', lur_Password = ''secret''\<rparr>) ann_created) =
   (StatusOK, LoginBody (ann_login\<lparr>lr_User := newUserResponse (user_row 0 (sample_params ''ann'' ''ann@x.org'')\<lparr>usr_FullName := ''Ann''\<rparr>)\<rparr>))"
  by code_simp

theorem session_renews_witness:
  "\<exists>c1 d. snd (api_loginUser sample_libs sample_server good_env sample_rv ''curl'' ''10.0.0.1''
       (Inr \<lparr>lur_UserName = ''ann'', lur_Password = ''secret''\<rparr>) ann_created) = c1 \<and>
     snd (gapi_UpdateUser sample_glibs sample_gserver good_env sample_rv ann_ctx ann_update c1) = d \<and>
     api_reNewAccessToken sample_libs sample_server good_env (sample_rv\<lparr>rv_access := sample_renewed\<rparr>)
       (Inr \<lparr>rnr_RefreshToken = ''refresh.ann''\<rparr>) d =
     ((StatusOK, RenewBody \<lparr>rn_AccessToken = ''renewed.ann'', rn_AccessTokenExpiredAt = 3900\<rparr>), ticked d)"
proof -
  let ?resp = "ann_login\<lparr>lr_User := newUserResponse (user_row 0 (sample_params ''ann'' ''ann@x.org'')\<lparr>usr_FullName := ''Ann''\<rparr>)\<rparr>"
  obtain c1 where login: "api_loginUser sample_libs sample_server good_env sample_rv ''curl'' ''10.0.0.1''
      (Inr \<lparr>lur_UserName = ''ann'', lur_Password = ''secret''\<rparr>) ann_created = ((StatusOK, LoginBody ?resp), c1)"
    using ann_logs_in by (metis prod.collapse)
  obtain r d where upd: "gapi_UpdateUser sample_glibs sample_gserver good_env sample_rv ann_ctx ann_update c1 = (r, d)"
    by fastforce
  have "bank_run empty_redis c1 empty_redis d"
    by (rule bank_run.run_step [OF bank_run.run_none bank_step.update_user [OF upd]])
  from session_renews_until_expiry [OF ann_created_reach sample_maker_ok login this good_env_simps(1),
      of "sample_rv\<lparr>rv_access := sample_renewed\<rparr>"] login upd show ?thesis
    using sample_created(3)
    by (auto simp: ann_login_def sample_rv_def newUserResponse_def user_row_def sample_params_def renewed_payload_def timestamptz_def)
qed

subsection \<open>A changed password\<close>

text \<open>What a login needs, on either server.\<close>

lemma api_login_succeeds:
  assumes "no_faults E" and "c_tx c = Autocommit"
    and "tags_ok (lib_email_tag L) (loginUserRequest_tags \<lparr>lur_UserName = n, lur_Password = pw\<rparr>)"
    and "row_of usr_Username n (users (c_db c)) = Some user" and "CheckPassword (lib_bcrypt L) pw (usr_HashedPassword user) = None"
    and "mk_CreateToken (srv_tokenMaker srv) (rv_access rv) n (AccessTokenDuration (srv_config srv)) = Inr (at, ap)"
    and "mk_CreateToken (srv_tokenMaker srv) (rv_refresh rv) n (RefreshTokenDuration (srv_config srv)) = Inr (rt, rp)"
    and "\<not> has_key ses_ID (pl_ID rp) (sessions (c_db c))"
  shows "\<exists>resp c'. api_loginUser L srv E rv ua ip (Inr \<lparr>lur_UserName = n, lur_Password = pw\<rparr>) c = ((StatusOK, LoginBody resp), c') \<and>
    lr_AccessToken resp = at \<and> lr_RefreshToken resp = rt"
proof -
  have "usr_Username user = n" "has_key usr_Username n (users (c_db c))"
    using row_of_SomeD [OF assms(4)] row_of_Some_has_key [OF assms(4)] by auto
  then show ?thesis
    using assms unfolding api_loginUser_def CreateSession_def should_bind_def
    by (simp add: reads_no_faults [OF assms(1,2)] query_row_no_faults [OF assms(1)] sql_create_session_def Let_def)
qed

lemma gapi_login_succeeds:
  assumes "no_faults E" and "c_tx c = Autocommit"
    and "validateLoginUserRequest \<lparr>lq_Username = n, lq_Password = pw\<rparr> = []"
    and "row_of usr_Username n (users (c_db c)) = Some user" and "CheckPassword (gl_bcrypt G) pw (usr_HashedPassword user) = None"
    and "mk_CreateToken (gs_tokenMaker server) (rv_access rv) n (AccessTokenDuration (gs_config server)) = Inr (at, ap)"
    and "mk_CreateToken (gs_tokenMaker server) (rv_refresh rv) n (RefreshTokenDuration (gs_config server)) = Inr (rt, rp)"
    and "\<not> has_key ses_ID (pl_ID rp) (sessions (c_db c))"
  shows "\<exists>resp c'. gapi_LoginUser G server E rv ctx \<lparr>lq_Username = n, lq_Password = pw\<rparr> c = (Inr resp, c') \<and>
    ls_AccessToken resp = at \<and> ls_RefreshToken resp = rt"
proof -
  have "usr_Username user = n" "has_key usr_Username n (users (c_db c))"
    using row_of_SomeD [OF assms(4)] row_of_Some_has_key [OF assms(4)] by auto
  then show ?thesis
    using assms unfolding gapi_LoginUser_def CreateSession_def
    by (simp add: reads_no_faults [OF assms(1,2)] query_row_no_faults [OF assms(1)] sql_create_session_def Let_def)
qed

text \<open>
  A password changed over gRPC counts on both servers from then on: without faults, and if tokens can
  be made and the session id is new, the new password logs the user in over gRPC and, if it passes the
  stricter binding tags there, over HTTP.
\<close>

theorem password_change_on_both_servers:
  assumes "bcrypt_ok (gl_bcrypt G)" and "lib_bcrypt L = gl_bcrypt G" and "c_tx c = Autocommit"
    and "gapi_UpdateUser G server E rv ctx req c = (Inr v, c1)" and "uq_Password req = Some pw"
    and srv: "srv_config srv = gs_config server" "srv_tokenMaker srv = gs_tokenMaker server"
    and "no_faults E'"
    and "mk_CreateToken (gs_tokenMaker server) (rv_access rv') (uq_Username req) (AccessTokenDuration (gs_config server)) = Inr (at, ap)"
    and "mk_CreateToken (gs_tokenMaker server) (rv_refresh rv') (uq_Username req) (RefreshTokenDuration (gs_config server)) = Inr (rt, rp)"
    and "\<not> has_key ses_ID (pl_ID rp) (sessions (c_db c1))"
  shows "(\<exists>resp c2. gapi_LoginUser G server E' rv' ctx' \<lparr>lq_Username = uq_Username req, lq_Password = pw\<rparr> c1 = (Inr resp, c2)) \<and>
    (tags_ok (lib_email_tag L) (loginUserRequest_tags \<lparr>lur_UserName = uq_Username req, lur_Password = pw\<rparr>) \<longrightarrow>
     (\<exists>resp c2. api_loginUser L srv E' rv' ua ip (Inr \<lparr>lur_UserName = uq_Username req, lur_Password = pw\<rparr>) c1 =
        ((StatusOK, LoginBody resp), c2)))"
proof -
  have "validateUpdateUserRequest (gl_parse_address G) req = []"
    using assms(4) by (auto simp: gapi_UpdateUser_def Let_def split: sum.splits if_splits)
  then have valid: "validateLoginUserRequest \<lparr>lq_Username = uq_Username req, lq_Password = pw\<rparr> = []"
    using assms(5) by (simp add: validateUpdateUserRequest_def validateLoginUserRequest_def GetPassword_def get_opt_def)
  from assms(4,3) show ?thesis
  proof (cases rule: gapi_UpdateUser_ok)
    case (1 p args old)
    have user: "row_of usr_Username (uq_Username req) (users (c_db c1)) = Some (user_after_update args old)"
      unfolding 1(6) using users_tbl.lookup_update [of "user_after_update args" "uq_Username req" "uq_Username req" "c_db c"] 1(4)
      by (simp add: user_after_update_def)
    have "CheckPassword (gl_bcrypt G) pw (usr_HashedPassword (user_after_update args old)) = None"
      using fill_password_update [OF 1(3)] check_hashed_password [OF assms(1)] assms(5)
      by (simp add: user_after_update_def)
    note pw = this this [folded assms(2)]
    show ?thesis
      using gapi_login_succeeds [OF assms(8) 1(7) valid user pw(1) assms(9-11), of ctx']
        api_login_succeeds [OF assms(8) 1(7) _ user pw(2) assms(9-11) [folded srv], of ua ip] by blast
  qed
qed

theorem password_change_witness:
  "\<exists>v c1 resp c2. gapi_UpdateUser sample_glibs sample_gserver good_env sample_rv ann_ctx ann_update (sample_conn 100 5) = (Inr v, c1) \<and>
     api_loginUser sample_libs sample_server good_env sample_rv ''curl'' ''10.0.0.1''
       (Inr \<lparr>lur_UserName = ''ann'', lur_Password = ''changed''\<rparr>) c1 = ((StatusOK, LoginBody resp), c2)"
proof -
  obtain v c1 where run: "gapi_UpdateUser sample_glibs sample_gserver good_env sample_rv ann_ctx ann_update (sample_conn 100 5) = (Inr v, c1)"
    using ann_updates by blast
  have b: "bcrypt_ok (gl_bcrypt sample_glibs)" "lib_bcrypt sample_libs = gl_bcrypt sample_glibs"
    using sample_bcrypt_ok by (simp_all add: sample_glibs_def sample_libs_def)
  have s: "srv_config sample_server = gs_config sample_gserver" "srv_tokenMaker sample_server = gs_tokenMaker sample_gserver"
    by (simp_all add: sample_gserver_def)
  have upd: "uq_Password ann_update = Some ''changed''" "uq_Username ann_update = ''ann''" by (simp_all add: ann_update_def)
  have new: "\<not> has_key ses_ID (pl_ID refresh_payload) (sessions (c_db c1))"
    using run sample_conn_simps(2)
    by (cases rule: gapi_UpdateUser_ok) (simp add: sample_db_def empty_db_def has_key_def)
  have tags: "tags_ok (lib_email_tag sample_libs) (loginUserRequest_tags \<lparr>lur_UserName = ''ann'', lur_Password = ''changed''\<rparr>)"
    by code_simp
  have rv: "rv_access sample_rv = sample_access" "rv_refresh sample_rv = sample_refresh" by (simp_all add: sample_rv_def)
  from password_change_on_both_servers [OF b sample_conn_simps(2) run upd(1) s good_env_simps(1),
      where rv' = sample_rv and ua = "''curl''" and ip = "''10.0.0.1''", unfolded upd(2) rv, OF sample_created(1,2) [unfolded s] new] tags run
  show ?thesis by blast
qed

end
