(* ===== verification/Processor.thy ===== *)
theory Processor
  imports Sessions
begin

text \<open>
  The task processor as a server (worker/processor.go, worker/logger.go): its queues and their
  weights, the handler it registers, its error handler and the logger it hands to asynq; and what the
  producer of tasks, the gRPC server, can rely on. asynq's scheduler is not modelled: the property
  below holds whenever it runs the task.
\<close>

subsection \<open>The logger (logger.go)\<close>

datatype work_level = DebugL | InfoL | WarnL | ErrorL | FatalL

text \<open>Lines of the global logger, each \<open>Msgf("%v", args)\<close>; a fatal line ends the process.\<close>

record 'a work_log =
  wl_lines :: "(work_level \<times> string \<times> 'a list) list"
  wl_exited :: bool

definition log_line :: "work_level \<Rightarrow> 'a list \<Rightarrow> 'a work_log \<Rightarrow> 'a work_log" where
  "log_line level args log = log\<lparr>wl_lines := wl_lines log @ [(level, ''%v'', args)]\<rparr>"

definition WorkLogger_Debug :: "'a list \<Rightarrow> 'a work_log \<Rightarrow> 'a work_log" where
  "WorkLogger_Debug args log = log_line DebugL args log"

definition WorkLogger_Info :: "'a list \<Rightarrow> 'a work_log \<Rightarrow> 'a work_log" where
  "WorkLogger_Info args log = log_line InfoL args log"

definition WorkLogger_Warn :: "'a list \<Rightarrow> 'a work_log \<Rightarrow> 'a work_log" where
  "WorkLogger_Warn args log = log_line WarnL args log"

definition WorkLogger_Error :: "'a list \<Rightarrow> 'a work_log \<Rightarrow> 'a work_log" where
  "WorkLogger_Error args log = log_line ErrorL args log"

definition WorkLogger_Fatal :: "'a list \<Rightarrow> 'a work_log \<Rightarrow> 'a work_log" where
  "WorkLogger_Fatal args log = (log_line FatalL args log)\<lparr>wl_exited := True\<rparr>"

record 'a Logger =
  lg_Debug :: "'a list \<Rightarrow> 'a work_log \<Rightarrow> 'a work_log"
  lg_Info :: "'a list \<Rightarrow> 'a work_log \<Rightarrow> 'a work_log"
  lg_Warn :: "'a list \<Rightarrow> 'a work_log \<Rightarrow> 'a work_log"
  lg_Error :: "'a list \<Rightarrow> 'a work_log \<Rightarrow> 'a work_log"
  lg_Fatal :: "'a list \<Rightarrow> 'a work_log \<Rightarrow> 'a work_log"

definition NewLogger :: "'a Logger" where
  "NewLogger = \<lparr>lg_Debug = WorkLogger_Debug, lg_Info = WorkLogger_Info, lg_Warn = WorkLogger_Warn,
     lg_Error = WorkLogger_Error, lg_Fatal = WorkLogger_Fatal\<rparr>"

subsection \<open>The processor (processor.go)\<close>

record failed_task_log =
  ft_err :: go_error
  ft_type :: string
  ft_payload :: string
  ft_msg :: string

record 'a asynq_Config =
  ac_Queues :: "(string \<times> nat) list"
  ac_ErrorHandler :: "task \<Rightarrow> go_error \<Rightarrow> failed_task_log"
  ac_Logger :: "'a Logger"

definition processor_config :: "'a asynq_Config" where
  "processor_config =
     \<lparr>ac_Queues = [(''critical'', 6), (''default'', 3), (''low'', 1)],
      ac_ErrorHandler = (\<lambda>task err. \<lparr>ft_err = err, ft_type = tk_Type task, ft_payload = tk_Payload task,
        ft_msg = ''process task failed''\<rparr>),
      ac_Logger = NewLogger\<rparr>"

text \<open>
  asynq's server: made from an address and a configuration, started with a mux, shut down. The server
  value is a parameter type \<open>'v\<close>.
\<close>

type_synonym mux = "(string \<times> (task \<Rightarrow> conn \<Rightarrow> go_error option \<times> conn)) list"

record ('v, 'a) asynq_server =
  as_NewServer :: "string \<Rightarrow> 'a asynq_Config \<Rightarrow> 'v"
  as_Start :: "mux \<Rightarrow> 'v \<Rightarrow> go_error option \<times> 'v"
  as_Shutdown :: "'v \<Rightarrow> 'v"

record 'v RedisTaskProcessor =
  tp_server :: 'v
  tp_store :: env

definition NewRedisTaskProcessor :: "('v, 'a) asynq_server \<Rightarrow> string \<Rightarrow> env \<Rightarrow> 'v RedisTaskProcessor" where
  "NewRedisTaskProcessor S redisOpt store =
     (let server = as_NewServer S redisOpt processor_config in \<lparr>tp_server = server, tp_store = store\<rparr>)"

definition processor_Start ::
  "('v, 'a) asynq_server \<Rightarrow> asynq_lib \<Rightarrow> 'v RedisTaskProcessor \<Rightarrow> go_error option \<times> 'v RedisTaskProcessor"
where
  "processor_Start S A processor =
     (let mux = [(TaskSendVerifyEmail, ProcessTaskSendVerifyEmail A (tp_store processor))]
      in case as_Start S mux (tp_server processor) of (err, v) \<Rightarrow> (err, processor\<lparr>tp_server := v\<rparr>))"

definition processor_ShutDown :: "('v, 'a) asynq_server \<Rightarrow> 'v RedisTaskProcessor \<Rightarrow> 'v RedisTaskProcessor" where
  "processor_ShutDown S processor = processor\<lparr>tp_server := as_Shutdown S (tp_server processor)\<rparr>"

lemma processor_Start_mux:
  "processor_Start S A (NewRedisTaskProcessor S opt E) =
     (case as_Start S (processor_mux A E) (as_NewServer S opt processor_config) of
        (err, v) \<Rightarrow> (err, \<lparr>tp_server = v, tp_store = E\<rparr>))"
  by (simp add: processor_Start_def NewRedisTaskProcessor_def processor_mux_def Let_def split: prod.split)

subsection \<open>What is queued is served\<close>

text \<open>The queue a task asks for.\<close>

fun wants_queue :: "task_option list \<Rightarrow> string option" where
  "wants_queue [] = None"
| "wants_queue (Queue q # opts) = Some q"
| "wants_queue (_ # opts) = wants_queue opts"

lemma distributed_task:
  assumes "DistributeTaskSendVerifyEmail A p opts r = (None, r')"
  obtains s where "json_Marshal A p = Inr s"
    "rd_tasks r' = rd_tasks r @ [\<lparr>tk_Type = TaskSendVerifyEmail, tk_Payload = s, tk_Opts = opts\<rparr>]"
  using assms
  by (auto simp: DistributeTaskSendVerifyEmail_def EnqueueContext_def Let_def split: sum.splits outcome.splits prod.splits option.splits)

text \<open>The task of a created user, and the user in every later state.\<close>

lemma created_task:
  assumes "bank_reach r c" and "reports_failed_commit E" and "json_ok A"
    and "gs_taskDistributor server = DistributeTaskSendVerifyEmail A"
    and call: "gapi_CreateUser G server E rv req r c = (Inr v, r', c')"
  obtains s where "rd_tasks r' = rd_tasks r @ [\<lparr>tk_Type = TaskSendVerifyEmail, tk_Payload = s, tk_Opts = verify_email_opts\<rparr>]"
    and "json_Unmarshal A s = Inr \<lparr>pve_Username = cr_Username req\<rparr>"
    and "\<And>r'' d. bank_run r' c' r'' d \<Longrightarrow>
      c_tx d = Autocommit \<and> (\<exists>u. row_of usr_Username (cr_Username req) (users (c_db d)) = Some u)"
proof -
  note c = bank_reach_inv [OF assms(1)]
  have c': "c_tx c' = Autocommit" "bank_inv (c_db c')" using gapi_CreateUser_keeps_bank [OF call] c by simp_all
  have valid: "validateCreateUserRequest (gl_parse_address G) req = []"
    using call by (auto simp: gapi_CreateUser_def Let_def split: if_splits)
  obtain hash u where tx: "CreateUserTx E \<lparr>cup_Username = cr_Username req, cup_HashedPassword = hash,
      cup_FullName = cr_FullName req, cup_Email = cr_Email req\<rparr> (send_verify_email server) r c = (((u, None), r'), c')"
    using call by (auto simp: gapi_CreateUser_def Let_def split: sum.splits prod.splits option.splits if_splits)
  from CreateUserTx_outcome [OF conjunct1 [OF c] assms(2) tx]
  have u: "usr_Username u = cr_Username req" "send_verify_email server u r = (None, r')"
    "users (c_db c') = users (c_db c) @ [u]" by (auto simp: user_row_def)
  then obtain s where s: "json_Marshal A \<lparr>pve_Username = cr_Username req\<rparr> = Inr s"
    "rd_tasks r' = rd_tasks r @ [\<lparr>tk_Type = TaskSendVerifyEmail, tk_Payload = s, tk_Opts = verify_email_opts\<rparr>]"
    by (auto simp: send_verify_email_def assms(4) elim: distributed_task)
  have "has_key usr_Username (cr_Username req) (users (c_db c'))" using u by (simp add: has_key_iff)
  then obtain x where x: "row_of usr_Username (cr_Username req) (users (c_db c')) = Some x"
    by (blast dest: has_key_row_of)
  have "json_Unmarshal A s = Inr \<lparr>pve_Username = cr_Username req\<rparr>"
    using assms(3) s(1) valid_create_graphic [OF valid] unfolding json_ok_def by force
  moreover have "c_tx d = Autocommit \<and> (\<exists>u. row_of usr_Username (cr_Username req) (users (c_db d)) = Some u)"
    if run: "bank_run r' c' r'' d" for r'' d
    using bank_run_keeps [OF run] c' grows_user [OF bank_run_grows [OF run] x] by blast
  ultimately show thesis using s(2) by (intro that)
qed

text \<open>
  C27: the verification task of a user created with status OK is served: its type is one the processor
  registers, it goes to a queue the processor polls, with the largest weight, and in every later state
  of the bank, whatever was served since, processing it succeeds if nothing fails.
\<close>

theorem created_task_is_served:
  assumes "bank_reach r c" and "reports_failed_commit E" and "json_ok A"
    and "gs_taskDistributor server = DistributeTaskSendVerifyEmail A"
    and call: "gapi_CreateUser G server E rv req r c = (Inr v, r', c')"
    and run: "bank_run r' c' r'' d" and "no_faults E'"
  shows "\<exists>t handler q n. rd_tasks r' = rd_tasks r @ [t] \<and> map_of (processor_mux A E') (tk_Type t) = Some handler \<and>
    fst (handler t d) = None \<and> wants_queue (tk_Opts t) = Some q \<and>
    map_of (ac_Queues processor_config) q = Some n \<and> (\<forall>(q', n') \<in> set (ac_Queues processor_config). n' \<le> n)"
proof -
  obtain s where s: "rd_tasks r' = rd_tasks r @ [\<lparr>tk_Type = TaskSendVerifyEmail, tk_Payload = s, tk_Opts = verify_email_opts\<rparr>]"
    "json_Unmarshal A s = Inr \<lparr>pve_Username = cr_Username req\<rparr>"
    and later: "c_tx d = Autocommit" "\<exists>u. row_of usr_Username (cr_Username req) (users (c_db d)) = Some u"
    using created_task [OF assms(1-4) call] run by metis
  then have "fst (ProcessTaskSendVerifyEmail A E' \<lparr>tk_Type = TaskSendVerifyEmail, tk_Payload = s, tk_Opts = verify_email_opts\<rparr> d) = None"
    by (auto simp: ProcessTaskSendVerifyEmail_def reads_no_faults [OF assms(7) later(1)])
  with s(1) show ?thesis
    by (simp add: processor_mux_def verify_email_opts_def processor_config_def)
qed

lemma carl_ok: "\<exists>v r c. gapi_CreateUser sample_glibs sample_gserver good_env sample_rv carl_request empty_redis empty_conn = (Inr v, r, c)"
proof -
  have "\<not> isl (fst (gapi_CreateUser sample_glibs sample_gserver good_env sample_rv carl_request empty_redis empty_conn))"
    by code_simp
  then show ?thesis
    by (cases "gapi_CreateUser sample_glibs sample_gserver good_env sample_rv carl_request empty_redis empty_conn")
      (auto simp: isl_def, metis sum.exhaust_sel)
qed

theorem created_task_witness:
  "\<exists>v r c t handler. gapi_CreateUser sample_glibs sample_gserver good_env sample_rv carl_request empty_redis empty_conn = (Inr v, r, c) \<and>
     rd_tasks r = [t] \<and> map_of (processor_mux sample_asynq good_env) (tk_Type t) = Some handler \<and> fst (handler t c) = None"
proof -
  obtain v r c where run: "gapi_CreateUser sample_glibs sample_gserver good_env sample_rv carl_request empty_redis empty_conn = (Inr v, r, c)"
    using carl_ok by blast
  have reach: "bank_reach empty_redis empty_conn" by (rule bank_reach.started) (simp_all add: empty_conn_def)
  have "gs_taskDistributor sample_gserver = DistributeTaskSendVerifyEmail sample_asynq" by (simp add: sample_gserver_def)
  from created_task_is_served [OF reach good_env_simps(2) sample_json_ok this run bank_run.run_none good_env_simps(1)] run
  show ?thesis by (fastforce simp: empty_redis_def)
qed

end
