(* ===== verification/Retries.thy ===== *)
theory Retries
  imports Processor
begin

text \<open>
  What a task goes through until it is completed or given up. asynq decides whether a failed task is
  tried again (a parameter, with its documented behaviour: not after \<open>SkipRetry\<close>, not after the
  \<open>MaxRetry\<close> of the task's options); the program chooses the options (gapi/rpc_create_user.go), the
  error (worker/task_send_verify_email.go) and what is logged of it (worker/processor.go).
\<close>

record asynq_retry =
  ar_default :: nat
  ar_again :: "nat \<Rightarrow> nat \<Rightarrow> go_error \<Rightarrow> bool"
  ar_not_found :: "task \<Rightarrow> go_error"

definition retries_documented :: "asynq_retry \<Rightarrow> bool" where
  "retries_documented P \<longleftrightarrow> (\<forall>limit n err. ar_again P limit n err \<longleftrightarrow> n < limit \<and> retried (Some err))"

text \<open>The last \<open>MaxRetry\<close> counts; without one it is the library's default.\<close>

fun given_retries :: "task_option list \<Rightarrow> nat option" where
  "given_retries [] = None"
| "given_retries (MaxRetry n # opts) = (case given_retries opts of None \<Rightarrow> Some n | Some m \<Rightarrow> Some m)"
| "given_retries (_ # opts) = given_retries opts"

definition retry_limit :: "asynq_retry \<Rightarrow> task \<Rightarrow> nat" where
  "retry_limit P t = (case given_retries (tk_Opts t) of None \<Rightarrow> ar_default P | Some n \<Rightarrow> n)"

text \<open>One attempt: the handler the mux has for the type, or the mux's own error.\<close>

definition attempt_task :: "asynq_retry \<Rightarrow> asynq_lib \<Rightarrow> env \<Rightarrow> task \<Rightarrow> conn \<Rightarrow> go_error option \<times> conn" where
  "attempt_task P A E t c =
     (case map_of (processor_mux A E) (tk_Type t) of
        None \<Rightarrow> (Some (ar_not_found P t), c)
      | Some handler \<Rightarrow> handler t c)"

datatype task_state = Waiting nat | Completed | Archived

text \<open>
  One run by the worker of a task with \<open>n\<close> failures behind it: the state it is left in, and the line the
  error handler of the processor's configuration logs (asynq calls it with every error of an attempt).
\<close>

definition run_task ::
  "asynq_retry \<Rightarrow> asynq_lib \<Rightarrow> env \<Rightarrow> task \<Rightarrow> nat \<Rightarrow> conn \<Rightarrow> (task_state \<times> failed_task_log list) \<times> conn"
where
  "run_task P A E t n c =
     (case attempt_task P A E t c of
        (None, c') \<Rightarrow> ((Completed, []), c')
      | (Some err, c') \<Rightarrow>
          ((if ar_again P (retry_limit P t) n err then Waiting (Suc n) else Archived,
            [ac_ErrorHandler (processor_config :: unit asynq_Config) t err]), c'))"

text \<open>
  \<open>task_life P A t n chances\<close>: the task with \<open>n\<close> failures behind it, given the environments and
  connections of the next attempts; the state afterwards and what has been logged.
\<close>

fun task_life ::
  "asynq_retry \<Rightarrow> asynq_lib \<Rightarrow> task \<Rightarrow> nat \<Rightarrow> (env \<times> conn) list \<Rightarrow> task_state \<times> failed_task_log list"
where
  "task_life P A t n [] = (Waiting n, [])"
| "task_life P A t n ((E, c) # chances) =
     (case run_task P A E t n c of
        ((Waiting m, logs), _) \<Rightarrow> (case task_life P A t m chances of (s, later) \<Rightarrow> (s, logs @ later))
      | (ended, _) \<Rightarrow> ended)"

lemma attempt_reads:
  assumes "attempt_task P A E t c = (err, c')" and "c_tx c = Autocommit"
  shows "c_db c' = c_db c"
  using assms GetUser_read(1) [OF assms(2)]
  by (fastforce simp: attempt_task_def processor_mux_def ProcessTaskSendVerifyEmail_def split: sum.splits prod.splits if_splits)

text \<open>Errors of the connection are not asynq's \<open>SkipRetry\<close>.\<close>

definition db_errors :: "env \<Rightarrow> bool" where
  "db_errors E \<longleftrightarrow> (\<forall>n. case reply E n of Delivered \<Rightarrow> True | NotDone e \<Rightarrow> \<not> errors_is e ErrSkipRetry
     | AckLost e \<Rightarrow> \<not> errors_is e ErrSkipRetry)"

lemma GetUser_retried:
  assumes "GetUser E n c = (Inl e, c')" and "c_tx c = Autocommit" and "db_errors E"
  shows "\<not> errors_is e ErrSkipRetry"
  using assms(1,2) spec [OF assms(3) [unfolded db_errors_def], of "c_tick c"]
  by (auto simp: GetUser_def query_row_def run_stmt_def Let_def sql_get_user_def split: outcome.splits list.splits)

lemma decoded_retried:
  assumes "json_Unmarshal A (tk_Payload t) = Inr p" and "tk_Type t = TaskSendVerifyEmail"
    and "fst (attempt_task P A E t c) = Some err" and "c_tx c = Autocommit" and "db_errors E"
  shows "retried (Some err)"
  using assms(1-3) GetUser_retried [OF _ assms(4,5)]
  by (auto simp: attempt_task_def processor_mux_def ProcessTaskSendVerifyEmail_def retried_def split: sum.splits prod.splits)

lemma life_logged:
  assumes "retries_documented P" and "n \<le> retry_limit P t" and "task_life P A t n chances = (s, log)"
  shows "\<exists>errs. log = map (\<lambda>err. \<lparr>ft_err = err, ft_type = tk_Type t, ft_payload = tk_Payload t,
        ft_msg = ''process task failed''\<rparr>) errs \<and>
    map (\<lambda>(E, c). fst (attempt_task P A E t c)) (take (length errs) chances) = map Some errs \<and>
    (\<forall>err \<in> set (if s = Archived then butlast errs else errs). retried (Some err)) \<and>
    n + length errs \<le> Suc (retry_limit P t) \<and>
    (case s of Waiting m \<Rightarrow> m = n + length errs \<and> length errs = length chances \<and> m \<le> retry_limit P t
     | Completed \<Rightarrow> length errs < length chances \<and>
         (case chances ! length errs of (E, c) \<Rightarrow> fst (attempt_task P A E t c) = None)
     | Archived \<Rightarrow> errs \<noteq> [] \<and> (n + length errs = Suc (retry_limit P t) \<or> \<not> retried (Some (last errs))))"
    (is "\<exists>errs. ?life n chances s log errs")
  using assms(2,3)
proof (induction chances arbitrary: n s log)
  case (Cons ch chances)
  obtain E c where ch: "ch = (E, c)" by (cases ch)
  obtain err c' where run: "attempt_task P A E t c = (err, c')" by (cases "attempt_task P A E t c")
  show ?case
  proof (cases err)
    case None
    with Cons.prems ch run show ?thesis by (intro exI [of _ "[]"]) (auto simp: run_task_def)
  next
    case (Some e)
    show ?thesis
    proof (cases "ar_again P (retry_limit P t) n e")
      case True
      then have "Suc n \<le> retry_limit P t" and e: "retried (Some e)"
        using assms(1) by (auto simp: retries_documented_def)
      moreover obtain s1 log1 where rest: "task_life P A t (Suc n) chances = (s1, log1)" by fastforce
      ultimately obtain errs where "?life (Suc n) chances s1 log1 errs" using Cons.IH by blast
      with Cons.prems(2) rest e ch run Some True show ?thesis
        by (intro exI [of _ "e # errs"])
          (auto simp: run_task_def processor_config_def split: task_state.splits if_splits prod.splits)
    next
      case False
      with Cons.prems ch run Some assms(1) show ?thesis
        by (intro exI [of _ "[e]"]) (auto simp: run_task_def processor_config_def retries_documented_def)
    qed
  qed
qed auto


text \<open>An attempt that succeeds within the limit completes the task, if no failure before it is final.\<close>

lemma life_completes:
  assumes "retries_documented P" and "n + i \<le> retry_limit P t" and "i < length chances"
    and "\<And>E c err. (E, c) \<in> set (take i chances) \<Longrightarrow> fst (attempt_task P A E t c) = Some err \<Longrightarrow> retried (Some err)"
    and "case chances ! i of (E, c) \<Rightarrow> fst (attempt_task P A E t c) = None"
  shows "fst (task_life P A t n chances) = Completed \<and> length (snd (task_life P A t n chances)) \<le> i"
  using assms(2-5)
proof (induction chances arbitrary: n i)
  case (Cons ch chances)
  obtain E c where ch: "ch = (E, c)" by (cases ch)
  obtain err c' where run: "attempt_task P A E t c = (err, c')" by (cases "attempt_task P A E t c")
  show ?case
  proof (cases err)
    case None
    with ch run show ?thesis by (simp add: run_task_def)
  next
    case (Some e)
    with Cons.prems(4) ch run obtain j where j: "i = Suc j" by (cases i) auto
    have "retried (Some e)" using Cons.prems(3) [of E c e] ch run Some j by simp
    then have again: "ar_again P (retry_limit P t) n e" using assms(1) Cons.prems(1) j by (simp add: retries_documented_def)
    have "fst (task_life P A t (Suc n) chances) = Completed \<and> length (snd (task_life P A t (Suc n) chances)) \<le> j"
      by (rule Cons.IH) (use Cons.prems j in \<open>auto\<close>)
    with again Some ch run j show ?thesis by (auto simp: run_task_def split: prod.split)
  qed
qed simp

text \<open>
  C28: the verification task of a user created with status OK is completed unless eleven attempts in a
  row fail. Attempts made too early, while the transaction that queued the task is still open or the
  database cannot be reached, cost nothing but a retry: if one of the first eleven attempts is made in
  any state after the call and meets no fault, the task is completed by then, with at most the attempts
  before it logged as failures.
\<close>

theorem verification_task_completes:
  assumes "bank_reach r c" and "reports_failed_commit E" and "json_ok A" and "retries_documented P"
    and "gs_taskDistributor server = DistributeTaskSendVerifyEmail A"
    and call: "gapi_CreateUser G server E rv req r c = (Inr v, r', c')"
    and early: "\<And>E' d. (E', d) \<in> set (take i chances) \<Longrightarrow> db_errors E' \<and> c_tx d = Autocommit"
    and i: "i < length chances" "i \<le> 10" "chances ! i = (E1, d1)" "no_faults E1" "bank_run r' c' r'' d1"
  shows "\<exists>t. rd_tasks r' = rd_tasks r @ [t] \<and> fst (task_life P A t 0 chances) = Completed \<and>
    length (snd (task_life P A t 0 chances)) \<le> i"
proof -
  obtain s where s: "rd_tasks r' = rd_tasks r @ [\<lparr>tk_Type = TaskSendVerifyEmail, tk_Payload = s, tk_Opts = verify_email_opts\<rparr>]"
    "json_Unmarshal A s = Inr \<lparr>pve_Username = cr_Username req\<rparr>"
    and d: "c_tx d1 = Autocommit" "\<exists>u. row_of usr_Username (cr_Username req) (users (c_db d1)) = Some u"
    using created_task [OF assms(1-3,5) call] i(5) by metis
  let ?t = "\<lparr>tk_Type = TaskSendVerifyEmail, tk_Payload = s, tk_Opts = verify_email_opts\<rparr>"
  have "fst (attempt_task P A E1 ?t d1) = None"
    using d s(2)
    by (auto simp: attempt_task_def processor_mux_def ProcessTaskSendVerifyEmail_def reads_no_faults [OF i(4) d(1)])
  moreover have "0 + i \<le> retry_limit P ?t" using i(2) by (simp add: retry_limit_def verify_email_opts_def)
  moreover have "retried (Some err)" if "(E', d) \<in> set (take i chances)" "fst (attempt_task P A E' ?t d) = Some err" for E' d err
    using that(2) early [OF that(1)] by (intro decoded_retried [of A ?t]) (auto simp: s(2))
  ultimately have "fst (task_life P A ?t 0 chances) = Completed \<and> length (snd (task_life P A ?t 0 chances)) \<le> i"
    using i(3) by (intro life_completes [OF assms(4) _ i(1)]) auto
  with s(1) show ?thesis by blast
qed

text \<open>carl's task: one attempt before the commit, one without a connection, and one that succeeds.\<close>

definition sample_retry :: asynq_retry where
  "sample_retry = \<lparr>ar_default = 25, ar_again = (\<lambda>limit n err. n < limit \<and> retried (Some err)),
     ar_not_found = (\<lambda>t. ExtError ''handler not found'')\<rparr>"

definition down_env :: env where
  "down_env = \<lparr>clock = int, reply = (\<lambda>_. NotDone (ExtError ''connection refused'')), failed_commit = (\<lambda>_. Some (ExtError ''closed''))\<rparr>"

lemma sample_retry_ok: "retries_documented sample_retry"
  by (simp add: retries_documented_def sample_retry_def)


theorem verification_task_witness:
  "\<exists>v r c t. gapi_CreateUser sample_glibs sample_gserver good_env sample_rv carl_request empty_redis empty_conn = (Inr v, r, c) \<and>
     rd_tasks r = [t] \<and> fst (task_life sample_retry sample_asynq t 0 [(good_env, empty_conn), (down_env, c), (good_env, c)]) = Completed"
proof -
  obtain v r c where run: "gapi_CreateUser sample_glibs sample_gserver good_env sample_rv carl_request empty_redis empty_conn = (Inr v, r, c)"
    using carl_ok by blast
  let ?chances = "[(good_env, empty_conn), (down_env, c), (good_env, c)]"
  have reach: "bank_reach empty_redis empty_conn" by (rule bank_reach.started) (simp_all add: empty_conn_def)
  have d: "gs_taskDistributor sample_gserver = DistributeTaskSendVerifyEmail sample_asynq" by (simp add: sample_gserver_def)
  have "c_tx c = Autocommit" using gapi_CreateUser_keeps_bank [OF run] by (simp add: empty_conn_def bank_inv_empty)
  then have early: "db_errors E' \<and> c_tx d = Autocommit" if "(E', d) \<in> set (take 2 ?chances)" for E' d
    using that by (auto simp: db_errors_def down_env_def good_env_def empty_conn_def numeral_2_eq_2)
  have "\<exists>t. rd_tasks r = rd_tasks empty_redis @ [t] \<and> fst (task_life sample_retry sample_asynq t 0 ?chances) = Completed \<and>
      length (snd (task_life sample_retry sample_asynq t 0 ?chances)) \<le> 2"
    by (rule verification_task_completes [OF reach good_env_simps(2) sample_json_ok sample_retry_ok d run early _ _ _ good_env_simps(1)
          bank_run.run_none]) simp_all
  then obtain t where "rd_tasks r = [t]" "fst (task_life sample_retry sample_asynq t 0 ?chances) = Completed"
    by (auto simp: empty_redis_def simp del: task_life.simps)
  with run show ?thesis by blast
qed

end
