(* ===== verification/Work_Queue.thy ===== *)
theory Work_Queue
  imports Retries
begin

text \<open>
  The worker as the consumer of the queue (worker/processor.go, which main.go starts beside the servers): a
  task is run with the store of the processor and leaves the list it was in, completed, to be tried again,
  or given up. The interface \<open>TaskDistributor\<close> is extended by what its clients rely on of the consumer.
\<close>

subsection \<open>Steps of the worker\<close>

fun settle :: "task \<Rightarrow> nat \<Rightarrow> task_state \<Rightarrow> redis \<Rightarrow> redis" where
  "settle t n Completed w = w\<lparr>rd_completed := rd_completed w @ [t]\<rparr>"
| "settle t n (Waiting m) w = w\<lparr>rd_retry := rd_retry w @ [(t, m)]\<rparr>"
| "settle t n Archived w = w\<lparr>rd_archived := rd_archived w @ [(t, Suc n)]\<rparr>"

text \<open>
  Any task may be next: asynq's weights and delays only make some orders likelier. A run whose outcome
  does not reach redis leaves the task where it is; it is a step of Bank_System that runs the handler.
\<close>

inductive worker_step :: "asynq_retry \<Rightarrow> asynq_lib \<Rightarrow> env \<Rightarrow> redis \<Rightarrow> conn \<Rightarrow> redis \<Rightarrow> conn \<Rightarrow> bool" for P A E where
  work_first: "rd_tasks w = xs @ t # ys \<Longrightarrow> run_task P A E t 0 c = ((s, logs), c') \<Longrightarrow>
    worker_step P A E w c (settle t 0 s (w\<lparr>rd_tasks := xs @ ys\<rparr>)) c'"
| work_again: "rd_retry w = xs @ (t, n) # ys \<Longrightarrow> run_task P A E t n c = ((s, logs), c') \<Longrightarrow>
    worker_step P A E w c (settle t n s (w\<lparr>rd_retry := xs @ ys\<rparr>)) c'"

definition all_tasks :: "redis \<Rightarrow> task set" where
  "all_tasks w = set (rd_tasks w) \<union> fst ` set (rd_retry w) \<union> fst ` set (rd_archived w) \<union> set (rd_completed w)"

text \<open>A task for a user, as its payload decodes.\<close>

definition task_for :: "asynq_lib \<Rightarrow> string \<Rightarrow> task_option list \<Rightarrow> task \<Rightarrow> bool" where
  "task_for A name opts t \<longleftrightarrow> tk_Type t = TaskSendVerifyEmail \<and> tk_Opts t = opts \<and>
     json_Unmarshal A (tk_Payload t) = Inr \<lparr>pve_Username = name\<rparr>"

definition known :: "asynq_lib \<Rightarrow> redis \<Rightarrow> (string \<times> task_option list) set" where
  "known A w = {(name, opts). \<exists>t \<in> all_tasks w. task_for A name opts t}"

subsection \<open>The queue with its consumer\<close>

locale task_worker = task_distributor distribute waiting lib_ok
  for distribute :: "'l \<Rightarrow> 'w TaskDistributor" and waiting :: "'l \<Rightarrow> 'w \<Rightarrow> (string \<times> task_option list) list"
    and lib_ok :: "'l \<Rightarrow> bool" +
  fixes work :: "'l \<Rightarrow> 'w \<Rightarrow> conn \<Rightarrow> 'w \<Rightarrow> conn \<Rightarrow> bool" and accounted :: "'l \<Rightarrow> 'w \<Rightarrow> (string \<times> task_option list) set"
  assumes waiting_accounted: "set (waiting l w) \<subseteq> accounted l w"
    and distribute_forgets_none: "distribute l p opts w = (err, w') \<Longrightarrow> accounted l w \<subseteq> accounted l w'"
    and work_forgets_none: "work l w c w' c' \<Longrightarrow> accounted l w' = accounted l w"
    and work_reads: "work l w c w' c' \<Longrightarrow> c_tx c = Autocommit \<Longrightarrow> c_db c' = c_db c \<and> c_tx c' = Autocommit"
begin

lemma nil_accounts:
  assumes "lib_ok l" and "list_all graphic (pve_Username p)" and "distribute l p opts w = (None, w')"
  shows "(pve_Username p, opts) \<in> accounted l w'"
  using nil_enqueues [OF assms] waiting_accounted [of l w'] by auto

end

lemma run_task_reads:
  assumes "run_task P A E t n c = (res, c')" and "c_tx c = Autocommit"
  shows "c' = c \<or> c' = ticked c"
proof -
  have "snd (attempt_task P A E t c) = c \<or> snd (attempt_task P A E t c) = ticked c"
    using GetUser_read(1) [OF assms(2)]
    by (auto simp: attempt_task_def processor_mux_def ProcessTaskSendVerifyEmail_def split: sum.splits prod.splits)
  with assms(1) show ?thesis by (auto simp: run_task_def split: prod.splits option.splits)
qed

lemma all_tasks_settle: "all_tasks (settle t n s w) = insert t (all_tasks w)"
  by (cases s) (auto simp: all_tasks_def)

lemma all_tasks_work: "worker_step P A E w c w' c' \<Longrightarrow> all_tasks w' = all_tasks w"
  by (induction rule: worker_step.induct) (auto simp: all_tasks_settle, auto simp: all_tasks_def)

lemma all_tasks_distribute:
  assumes "DistributeTaskSendVerifyEmail A p opts w = (err, w')"
  shows "all_tasks w \<subseteq> all_tasks w' \<and> rd_retry w' = rd_retry w \<and> rd_archived w' = rd_archived w \<and> rd_completed w' = rd_completed w"
  using assms
  by (auto simp: DistributeTaskSendVerifyEmail_def EnqueueContext_def Let_def all_tasks_def
      split: sum.splits outcome.splits prod.splits option.splits)

lemma pending_known: "set (pending A w) \<subseteq> known A w"
proof
  fix q assume "q \<in> set (pending A w)"
  then obtain t p where t: "t \<in> set (rd_tasks w)" "tk_Type t = TaskSendVerifyEmail"
    "json_Unmarshal A (tk_Payload t) = Inr p" "q = (pve_Username p, tk_Opts t)"
    by (auto simp: pending_def split: if_splits sum.splits) metis
  then have "task_for A (pve_Username p) (tk_Opts t) t" by (simp add: task_for_def)
  with t(1,4) show "q \<in> known A w" by (auto simp: known_def all_tasks_def)
qed

interpretation worked: task_worker DistributeTaskSendVerifyEmail pending json_ok "\<lambda>A. worker_step P A E" known for P E
proof
  fix A w w' c c' opts err and p :: PayloadSendVerifyEmail
  show "set (pending A w) \<subseteq> known A w" by (rule pending_known)
  show "known A w \<subseteq> known A w'" if "DistributeTaskSendVerifyEmail A p opts w = (err, w')"
    using all_tasks_distribute [OF that] by (auto simp: known_def)
  show "known A w' = known A w" if "worker_step P A E w c w' c'"
    using all_tasks_work [OF that] by (simp add: known_def)
  show "c_db c' = c_db c \<and> c_tx c' = Autocommit" if "worker_step P A E w c w' c'" "c_tx c = Autocommit"
    using that by (cases rule: worker_step.cases) (auto dest!: run_task_reads)
qed

lemma attempt_grows:
  assumes "attempt_task P A E t c = (err, c')"
  shows "grows (c_db c) (c_db c')"
  using assms keepsD [OF history.process_task_keeps [of "c_db c"], of A E t c err c']
  by (auto simp: attempt_task_def processor_mux_def split: if_splits)

lemma worker_grows: "worker_step P A E w c w' c' \<Longrightarrow> grows (c_db c) (c_db c')"
  by (induction rule: worker_step.induct) (auto simp: run_task_def dest!: attempt_grows split: prod.splits option.splits)

subsection \<open>How tasks end\<close>

text \<open>
  With asynq's documented policy and a database that does not answer with asynq's errors: a task is tried
  again at most \<open>MaxRetry\<close> times, one that decodes is given up only after one failure more, and a
  completed one has found its user.
\<close>

definition untouched :: "redis \<Rightarrow> bool" where
  "untouched w \<longleftrightarrow> rd_retry w = [] \<and> rd_archived w = [] \<and> rd_completed w = []"

definition handled :: "asynq_retry \<Rightarrow> asynq_lib \<Rightarrow> database \<Rightarrow> redis \<Rightarrow> bool" where
  "handled P A d w \<longleftrightarrow>
     (\<forall>(t, n) \<in> set (rd_retry w). 0 < n \<and> n \<le> retry_limit P t) \<and>
     (\<forall>(t, n) \<in> set (rd_archived w). \<forall>name opts. task_for A name opts t \<longrightarrow> n = Suc (retry_limit P t)) \<and>
     (\<forall>t \<in> set (rd_completed w). \<forall>name opts. task_for A name opts t \<longrightarrow> has_key usr_Username name (users d))"

lemma handled_untouched: "untouched w \<Longrightarrow> handled P A d w"
  by (simp add: untouched_def handled_def)

lemma handled_grows: "handled P A d w \<Longrightarrow> grows d d' \<Longrightarrow> handled P A d' w"
  using set_mono_prefix [OF grows_columns(4)] by (fastforce simp: handled_def has_key_iff)

lemma handled_distribute:
  "handled P A d w \<Longrightarrow> DistributeTaskSendVerifyEmail A p opts w = (err, w') \<Longrightarrow> handled P A d w'"
  by (simp add: handled_def all_tasks_distribute)

lemma run_task_ends:
  assumes P: "retries_documented P" "db_errors E" and c: "c_tx c = Autocommit"
    and t: "task_for A name opts t" and run: "run_task P A E t n c = ((s, logs), c')" and n: "n \<le> retry_limit P t"
  shows "case s of Waiting m \<Rightarrow> m = Suc n \<and> n < retry_limit P t | Archived \<Rightarrow> n = retry_limit P t
    | Completed \<Rightarrow> has_key usr_Username name (users (c_db c))"
proof (cases "fst (attempt_task P A E t c)")
  case (Some err)
  with t have "retried (Some err)" using decoded_retried [OF _ _ Some c P(2)] by (auto simp: task_for_def)
  with P(1) run n Some show ?thesis
    by (auto simp: run_task_def retries_documented_def split: prod.splits if_splits)
next
  case None
  with t have "\<exists>u. row_of usr_Username name (users (c_db c)) = Some u"
    using GetUser_read(2) [OF c]
    by (fastforce simp: task_for_def attempt_task_def processor_mux_def ProcessTaskSendVerifyEmail_def split: sum.splits prod.splits)
  with None run show ?thesis
    by (auto simp: run_task_def split: prod.splits dest!: row_of_Some_has_key)
qed

lemma handled_settle:
  assumes "handled P A d w" and "\<And>m. s = Waiting m \<Longrightarrow> 0 < m \<and> m \<le> retry_limit P t"
    and "\<And>name opts. task_for A name opts t \<Longrightarrow> s = Archived \<Longrightarrow> n = retry_limit P t"
    and "\<And>name opts. task_for A name opts t \<Longrightarrow> s = Completed \<Longrightarrow> has_key usr_Username name (users d)"
  shows "handled P A d (settle t n s w)"
  using assms by (cases s) (auto simp: handled_def)

lemma run_task_waits:
  assumes "retries_documented P" and "run_task P A E t n c = ((Waiting m, logs), c')"
  shows "m = Suc n \<and> n < retry_limit P t"
  using assms by (auto simp: run_task_def retries_documented_def split: prod.splits option.splits if_splits)

lemma handled_work:
  assumes P: "retries_documented P" "db_errors E" and c: "c_tx c = Autocommit"
    and ok: "handled P A (c_db c) w" and work: "worker_step P A E w c w' c'"
  shows "handled P A (c_db c) w'"
proof -
  have settles: "handled P A (c_db c) (settle t n s v)"
    if v: "handled P A (c_db c) v" and run: "run_task P A E t n c = ((s, logs), c')" and n: "n \<le> retry_limit P t" for t n s logs v
    using run_task_waits [OF P(1), of A E t n c _ logs c'] run_task_ends [OF P c _ run n] run
    by (intro handled_settle [OF v]) auto
  show ?thesis
    using work
  proof cases
    case (work_first xs t ys s logs)
    have "handled P A (c_db c) (w\<lparr>rd_tasks := xs @ ys\<rparr>)" using ok by (simp add: handled_def)
    from settles [OF this work_first(3)] work_first(1) show ?thesis by simp
  next
    case (work_again xs t n ys s logs)
    have "handled P A (c_db c) (w\<lparr>rd_retry := xs @ ys\<rparr>)" "n \<le> retry_limit P t"
      using ok work_again(2) by (auto simp: handled_def)
    from settles [OF this(1) work_again(3) this(2)] work_again(1) show ?thesis by simp
  qed
qed

end
