(* ===== verification/Registrations.thy ===== *)
theory Registrations
  imports Concurrent_Inv Work_Queue
begin

text \<open>
  \<open>CreateUser\<close> of the gRPC server, one statement of its transaction at a time. The row is inserted, then
  the hook queues the verification task, and only then is the row committed: in between others see the
  task but not the user. An insert waits for a running transaction that has inserted the same name or
  email. A registration is a call of \<open>CreateUser\<close> on its way through \<open>CreateUserTx\<close>; any number of them
  run beside everything that Concurrent_Bank interleaves, and beside the worker that empties the queue.
\<close>

subsection \<open>Registrations and their steps\<close>

datatype 'w registration =
    BeginUser "'w gServer" CreateUserParams
  | InsertUser "'w gServer" CreateUserParams instant
  | AfterCreate "'w gServer" User
  | CommitUser "'w gServer" User
  | Registered "'w gServer" User "grpc_status + pb_User"
  | Refused grpc_status

text \<open>rpc_create_user.go: what comes before the transaction, and the answer for its error.\<close>

definition start_registration :: "glibs \<Rightarrow> 'w gServer \<Rightarrow> req_env \<Rightarrow> CreateUserRequest \<Rightarrow> 'w registration" where
  "start_registration L server rv req =
     (let violations = validateCreateUserRequest (gl_parse_address L) req
      in if violations \<noteq> [] then Refused (invalidArgumentError (gl_with_details L) violations)
         else
     (case HashPassword (gl_bcrypt L) (rv_salt rv) (cr_Password req) of
        Inl err \<Rightarrow> Refused (status_Errorf Internal ''failed to hash password %s '' [FErr err])
      | Inr hashedPassword \<Rightarrow>
          BeginUser server \<lparr>cup_Username = cr_Username req, cup_HashedPassword = hashedPassword,
            cup_FullName = cr_FullName req, cup_Email = cr_Email req\<rparr>))"

definition create_user_error :: "go_error \<Rightarrow> grpc_status" where
  "create_user_error err =
     (if errors_as_pq err = Some ''unique_violation''
      then status_Errorf AlreadyExists ''username already exists %s '' [FErr err]
      else status_Errorf Internal ''failed to create user %s '' [FErr err])"

text \<open>
  tx_create_user.go under execTX of store.go, when nothing fails but the statement or the hook: the
  queue changes when the hook runs, the committed tables at the commit.
\<close>

fun reg_stmt :: "instant \<Rightarrow> 'w registration \<Rightarrow> 'w \<Rightarrow> database \<Rightarrow> 'w registration \<times> 'w \<times> database" where
  "reg_stmt now (BeginUser server arg) w d = (InsertUser server arg now, w, d)"
| "reg_stmt now (InsertUser server arg begun) w d =
     (case fst (sql_create_user arg begun d) of
        Inr (u # us) \<Rightarrow> (AfterCreate server u, w, d)
      | Inr [] \<Rightarrow> (Refused (create_user_error ErrNoRows), w, d)
      | Inl err \<Rightarrow> (Refused (create_user_error err), w, d))"
| "reg_stmt now (AfterCreate server u) w d =
     (case send_verify_email server u w of
        (Some err, w') \<Rightarrow> (Refused (create_user_error err), w', d)
      | (None, w') \<Rightarrow> (CommitUser server u, w', d))"
| "reg_stmt now (CommitUser server u) w d =
     (Registered server u (Inr (ConvertUser u)), w, d\<lparr>users := users d @ [u]\<rparr>)"
| "reg_stmt now r w d = (r, w, d)"

fun reg_answer :: "'w registration \<Rightarrow> (grpc_status + pb_User) option" where
  "reg_answer (Registered server u res) = Some res"
| "reg_answer (Refused st) = Some (Inl st)"
| "reg_answer r = None"

fun uncommitted_user :: "'w registration \<Rightarrow> User option" where
  "uncommitted_user (AfterCreate server u) = Some u"
| "uncommitted_user (CommitUser server u) = Some u"
| "uncommitted_user r = None"

fun uncommitted_users :: "'w registration list \<Rightarrow> User list" where
  "uncommitted_users [] = []"
| "uncommitted_users (r # rs) =
     (case uncommitted_user r of None \<Rightarrow> uncommitted_users rs | Some u \<Rightarrow> u # uncommitted_users rs)"

text \<open>
  The unique keys are checked in the order of their indexes, the name first: an insert fails on a
  committed row and waits for an uncommitted one.
\<close>

definition keys_wait :: "CreateUserParams \<Rightarrow> database \<Rightarrow> User \<Rightarrow> bool" where
  "keys_wait arg d u \<longleftrightarrow> \<not> has_key usr_Username (cup_Username arg) (users d) \<and>
     (usr_Username u = cup_Username arg \<or>
      \<not> has_key usr_Email (cup_Email arg) (users d) \<and> usr_Email u = cup_Email arg)"

fun reg_waits :: "database \<Rightarrow> 'w registration \<Rightarrow> 'w registration \<Rightarrow> bool" where
  "reg_waits d (InsertUser server arg now) r = (case uncommitted_user r of None \<Rightarrow> False | Some u \<Rightarrow> keys_wait arg d u)"
| "reg_waits d q r = False"

definition reg_free :: "'w registration list \<Rightarrow> nat \<Rightarrow> database \<Rightarrow> bool" where
  "reg_free rs k d \<longleftrightarrow> (\<forall>j < length rs. j \<noteq> k \<longrightarrow> \<not> reg_waits d (rs ! k) (rs ! j))"

definition keys_free :: "'w registration list \<Rightarrow> database \<Rightarrow> bool" where
  "keys_free rs d \<longleftrightarrow> (\<forall>r \<in> set rs. \<forall>u. uncommitted_user r = Some u \<longrightarrow>
     \<not> has_key usr_Username (usr_Username u) (users d) \<and> \<not> has_key usr_Email (usr_Email u) (users d))"

type_synonym 'w reg_state = "'w bank_state \<times> 'w registration list"

definition reg_started :: "'w reg_state \<Rightarrow> bool" where
  "reg_started s \<longleftrightarrow> bank_started (fst s) \<and> snd s = []"

text \<open>
  Every other request of the program is a step of Concurrent_Bank that leaves the queue to the
  registrations (of the requests \<open>CreateUser\<close> alone writes to it) and takes no name or email that is being
  registered. A transaction may be rolled back at any point (a fault, a failed statement or commit), and
  the answer to a commit that is done may be lost. All servers distribute tasks by \<open>D\<close>; the worker runs
  them by \<open>T\<close>, on the same database, at any time.
\<close>

inductive reg_step ::
  "'w TaskDistributor \<Rightarrow> ('w \<Rightarrow> conn \<Rightarrow> 'w \<Rightarrow> conn \<Rightarrow> bool) \<Rightarrow> 'w reg_state \<Rightarrow> 'w reg_state \<Rightarrow> bool"
  for D T
where
  reg_bank: "bank_conc_step (w, c, ts) (w, c', ts') \<Longrightarrow> keys_free rs (c_db c') \<Longrightarrow>
    reg_step D T ((w, c, ts), rs) ((w, c', ts'), rs)"
| reg_arrive: "gs_taskDistributor server = D \<Longrightarrow>
    reg_step D T (s, rs) (s, rs @ [start_registration G server rv creq])"
| reg_move: "k < length rs \<Longrightarrow> reg_free rs k (c_db c) \<Longrightarrow> reg_stmt now (rs ! k) w (c_db c) = (r, w', d') \<Longrightarrow>
    reg_step D T ((w, c, ts), rs) ((w', c\<lparr>c_db := d'\<rparr>, ts), rs[k := r])"
| reg_ack_lost: "k < length rs \<Longrightarrow> rs ! k = CommitUser server u \<Longrightarrow>
    reg_step D T ((w, c, ts), rs)
      ((w, c\<lparr>c_db := (c_db c)\<lparr>users := users (c_db c) @ [u]\<rparr>\<rparr>, ts), rs[k := Registered server u (Inl (create_user_error e))])"
| reg_rollback: "k < length rs \<Longrightarrow> reg_answer (rs ! k) = None \<Longrightarrow>
    reg_step D T (s, rs) (s, rs[k := Refused (create_user_error e)])"
| reg_work: "T w c w' c' \<Longrightarrow> reg_step D T ((w, c, ts), rs) ((w', c', ts), rs)"

subsection \<open>Undisturbed, the steps are \<open>CreateUser\<close>\<close>

fun reg_run :: "instant \<Rightarrow> nat \<Rightarrow> 'w registration \<Rightarrow> 'w \<Rightarrow> database \<Rightarrow> 'w registration \<times> 'w \<times> database" where
  "reg_run now 0 r w d = (r, w, d)"
| "reg_run now (Suc n) r w d = (case reg_stmt now r w d of (r', w', d') \<Rightarrow> reg_run now n r' w' d')"

lemma reg_run_answered: "reg_answer r \<noteq> None \<Longrightarrow> reg_run now n r w d = (r, w, d)"
  by (induction n; cases r) simp_all

lemma start_registration_cases:
  obtains (refused) st where "start_registration L server rv req = Refused st"
    "\<And>E w c. gapi_CreateUser L server E rv req w c = (Inl st, w, c)"
  | (begins) arg where "start_registration L server rv req = BeginUser server arg"
    "list_all graphic (cup_Username arg)"
    "\<And>E w c. gapi_CreateUser L server E rv req w c =
      (case CreateUserTx E arg (send_verify_email server) w c of
         (((user, Some err), w1), c1) \<Rightarrow> (Inl (create_user_error err), w1, c1)
       | (((user, None), w1), c1) \<Rightarrow> (Inr (ConvertUser user), w1, c1))"
proof (cases "validateCreateUserRequest (gl_parse_address L) req = []")
  case True
  show ?thesis
  proof (cases "HashPassword (gl_bcrypt L) (rv_salt rv) (cr_Password req)")
    case (Inl err)
    with True show ?thesis by (intro refused) (auto simp: start_registration_def gapi_CreateUser_def)
  next
    case (Inr hash)
    with True valid_create_graphic [OF True] show ?thesis
      by (intro begins) (auto simp: start_registration_def gapi_CreateUser_def create_user_error_def split: prod.splits option.splits)
  qed
next
  case False
  then show ?thesis by (intro refused) (auto simp: start_registration_def gapi_CreateUser_def)
qed

text \<open>
  Run without interruption and without faults, a registration is a call of \<open>CreateUser\<close>: the same answer, the
  same queue and the same tables.
\<close>

theorem registration_is_CreateUser:
  assumes "no_faults E" and "reports_failed_commit E" and "c_tx c = Autocommit"
    and "reg_run (clock E (c_tick c)) 4 (start_registration L server rv req) w (c_db c) = (r, w', d')"
  shows "\<exists>res c'. gapi_CreateUser L server E rv req w c = (res, w', c') \<and> reg_answer r = Some res \<and> same_tables d' (c_db c')"
proof (cases rule: start_registration_cases [of L server rv req])
  case (refused st)
  with assms(4) have "r = Refused st" "w' = w" "d' = c_db c" by (simp_all add: reg_run_answered)
  with refused(2) show ?thesis by (auto simp: same_tables_def)
next
  case (begins arg)
  let ?u = "user_row (clock E (c_tick c)) arg"
  note run = assms(4) [unfolded begins(1) eval_nat_numeral BitM.simps]
  obtain c' where tx: "CreateUserTx E arg (send_verify_email server) w c =
    (if user_possible arg (c_db c)
     then (case send_verify_email server ?u w of (err, w') \<Rightarrow> (((?u, err), w'), c'))
     else (((zero_user, Some (if has_key usr_Username (cup_Username arg) (users (c_db c))
                              then unique_violation ''users_pkey'' else unique_violation ''users_email_key'')), w), c'))"
    and same: "\<not> user_possible arg (c_db c) \<longrightarrow> same_tables (c_db c) (c_db c')"
    using CreateUserTx_no_faults [OF assms(1,3), of arg "send_verify_email server" w] by blast
  obtain err w1 where hook: "send_verify_email server ?u w = (err, w1)" by fastforce
  obtain v w2 c2 where tx': "CreateUserTx E arg (send_verify_email server) w c = ((v, w2), c2)" by (metis surj_pair)
  from CreateUserTx_outcome [OF assms(3,2), of arg "send_verify_email server" w "fst v" "snd v" w2 c2] tx' tx hook same
  show ?thesis
    using run begins(3) [of E w c]
    by (auto simp: sql_create_user_possible same_tables_def split: if_splits option.splits)
qed

subsection \<open>What is true of every registration\<close>

text \<open>\<open>W\<close> is what redis accounts for: the tasks it holds or has seen ended; \<open>ok\<close> is what is relied on of its library.\<close>

definition accounted_for :: "('w \<Rightarrow> (string \<times> task_option list) set) \<Rightarrow> 'w \<Rightarrow> User \<Rightarrow> bool" where
  "accounted_for W w u \<longleftrightarrow> (usr_Username u, verify_email_opts) \<in> W w"

fun reg_ok :: "'w TaskDistributor \<Rightarrow> ('w \<Rightarrow> (string \<times> task_option list) set) \<Rightarrow> bool \<Rightarrow> 'w \<Rightarrow> database \<Rightarrow> 'w registration \<Rightarrow> bool" where
  "reg_ok D W ok w d (BeginUser server arg) \<longleftrightarrow> gs_taskDistributor server = D \<and> list_all graphic (cup_Username arg)"
| "reg_ok D W ok w d (InsertUser server arg now) \<longleftrightarrow> gs_taskDistributor server = D \<and> list_all graphic (cup_Username arg)"
| "reg_ok D W ok w d (AfterCreate server u) \<longleftrightarrow> gs_taskDistributor server = D \<and> list_all graphic (usr_Username u) \<and>
     (\<exists>now arg. u = user_row now arg)"
| "reg_ok D W ok w d (CommitUser server u) \<longleftrightarrow> (ok \<longrightarrow> accounted_for W w u) \<and> (\<exists>now arg. u = user_row now arg)"
| "reg_ok D W ok w d (Registered server u res) \<longleftrightarrow> (ok \<longrightarrow> accounted_for W w u) \<and>
     has_key usr_Username (usr_Username u) (users d) \<and> (\<forall>v. res = Inr v \<longrightarrow> v = ConvertUser u)"
| "reg_ok D W ok w d (Refused st) \<longleftrightarrow> True"

text \<open>Rows not yet committed clash neither with each other nor with committed ones.\<close>

definition no_clash :: "'w registration \<Rightarrow> 'w registration \<Rightarrow> bool" where
  "no_clash q r \<longleftrightarrow> (\<forall>u v. uncommitted_user q = Some u \<longrightarrow> uncommitted_user r = Some v \<longrightarrow>
     usr_Username u \<noteq> usr_Username v \<and> usr_Email u \<noteq> usr_Email v)"

definition none_clash :: "'w registration list \<Rightarrow> bool" where
  "none_clash rs \<longleftrightarrow> (\<forall>i < length rs. \<forall>j < length rs. i \<noteq> j \<longrightarrow> no_clash (rs ! i) (rs ! j))"

lemma no_clash_sym: "no_clash q r \<Longrightarrow> no_clash r q"
  by (auto simp: no_clash_def)

lemma no_clash_none: "uncommitted_user q = None \<Longrightarrow> no_clash q r" "uncommitted_user q = None \<Longrightarrow> no_clash r q"
  by (simp_all add: no_clash_def)

lemma none_clash_append: "none_clash rs \<Longrightarrow> uncommitted_user r = None \<Longrightarrow> none_clash (rs @ [r])"
  by (auto simp: none_clash_def nth_append less_Suc_eq no_clash_none)

lemma none_clash_update:
  assumes "none_clash rs" and "\<And>j. j < length rs \<Longrightarrow> j \<noteq> k \<Longrightarrow> no_clash r (rs ! j)"
  shows "none_clash (rs[k := r])"
  unfolding none_clash_def length_list_update
proof (intro allI impI)
  fix i j
  assume "i < length rs" "j < length rs" "i \<noteq> j"
  with assms show "no_clash (rs[k := r] ! i) (rs[k := r] ! j)"
    by (cases "i = k"; cases "j = k") (auto simp: none_clash_def intro: no_clash_sym)
qed

lemma keys_free_update:
  assumes "keys_free rs d" and "\<And>u. uncommitted_user r = Some u \<Longrightarrow>
      \<not> has_key usr_Username (usr_Username u) (users d) \<and> \<not> has_key usr_Email (usr_Email u) (users d)"
  shows "keys_free (rs[k := r]) d"
  using assms set_update_subset_insert [of rs k r] by (fastforce simp: keys_free_def)

definition reg_inv :: "'w TaskDistributor \<Rightarrow> ('w \<Rightarrow> (string \<times> task_option list) set) \<Rightarrow> bool \<Rightarrow> 'w reg_state \<Rightarrow> bool" where
  "reg_inv D W ok s \<longleftrightarrow> (case s of ((w, c, ts), rs) \<Rightarrow> conc_inv (w, c, ts) \<and> keys_free rs (c_db c) \<and> none_clash rs \<and>
     list_all (reg_ok D W ok w (c_db c)) rs)"

text \<open>A committed row is that of an \<open>INSERT\<close> at the moment of the commit.\<close>

lemma commit_is_insert:
  assumes "u = user_row now arg" and "\<not> has_key usr_Username (usr_Username u) (users d)" "\<not> has_key usr_Email (usr_Email u) (users d)"
  shows "sql_create_user arg now d = (Inr [u], d\<lparr>users := users d @ [u]\<rparr>)"
  using assms by (simp add: sql_create_user_possible user_possible_def user_row_def)

lemma user_commit_inv:
  assumes inv: "conc_inv (w, c, ts)" and u: "sql_create_user arg now (c_db c) = (Inr [u], d')"
  shows "conc_inv (w', c\<lparr>c_db := d'\<rparr>, ts)"
proof -
  have c: "c_tx c = Autocommit" "bank_inv (c_db c)" and ts: "list_all (bank_thread_ok (c_db c)) ts" "all_apart ts"
    using inv by (simp_all add: conc_inv_def)
  have d': "d' = snd (sql_create_user arg now (c_db c))" using u by simp
  have "bank_inv d'" using bank_sql_create_user [of arg] c(2) by (simp add: d' stmt_keeps_def)
  moreover have "accounts d' = accounts (c_db c)" unfolding d' by (simp add: sql_create_user_def Let_def)
  then have "list_all (bank_thread_ok d') ts"
    using threads_kept [OF ts(1) statements_grow(6) [of "c_db c" arg now] reads_leave_alone reserved_others(4) bank_invD(1) [OF c(2)]]
    by (simp add: d')
  ultimately show ?thesis using c(1) ts(2) by (simp add: conc_inv_def)
qed

text \<open>No step of the others loses a user.\<close>

lemma conc_step_grows:
  assumes "bank_conc_step (w, c, ts) (w', c', ts')"
  shows "grows (c_db c) (c_db c')"
  using assms
proof cases
  case conc_other
  then show ?thesis by (auto intro: bank_run_grows [OF bank_run.run_step [OF bank_run.run_none]])
next
  case conc_call
  then show ?thesis by (auto intro: thread_step_grows)
next
  case (conc_statement i p req x x' d')
  then show ?thesis using tx_stmt_seqs [OF conc_statement(7)] by (auto simp: grows_def)
next
  case conc_commit
  then show ?thesis by (auto intro: grows_tx_view)
qed (simp_all add: grows_def)

lemma grows_users: "grows d d' \<Longrightarrow> has_key usr_Username n (users d) \<Longrightarrow> has_key usr_Username n (users d')"
  using set_mono_prefix [OF grows_columns(4)] by (force simp: has_key_iff)

lemma reg_ok_grows: "reg_ok D W ok w d r \<Longrightarrow> grows d d' \<Longrightarrow> W w \<subseteq> W w' \<or> \<not> ok \<Longrightarrow> reg_ok D W ok w' d' r"
  by (cases r) (auto simp: accounted_for_def grows_users)

end
