(* ===== verification/Concurrent_Props.thy ===== *)
theory Concurrent_Props
  imports Concurrent_Inv
begin

text \<open>
  What the invariant of the interleaved transfers guarantees: the committed tables are a balanced bank;
  every step is one of a program whose transfers happen at once; and some running transaction can always
  go on. Registration_Props states it of the reachable states.
\<close>

text \<open>The request a thread is serving, seen without its running transaction.\<close>

fun request_of :: "bank_thread \<Rightarrow> thread" where
  "request_of (Call t) = t"
| "request_of (Running p req x) = RunTx p req"

lemma request_of_ok: "bank_thread_ok d t \<Longrightarrow> thread_ok d (request_of t)"
  by (cases t) simp_all

text \<open>
  With the statements of any number of transfers interleaved with each other and with any other
  requests the committed balances are those of the entries and sum to zero,
  entries and transfers are a double-entry ledger, transfers are positive and within one currency, no
  two transactions hold the lock of the same account, and what was checked before is still true: the
  caller of a running transfer owns the debited account, both accounts are in the currency requested,
  and a login about to store its session is for an existing user.
\<close>

lemma interleaved_facts:
  assumes "conc_inv (w, c, ts)"
  shows "(\<Sum>a \<leftarrow> accounts (c_db c). sint (acc_Balance a)) = 0 \<and>
    map (\<lambda>e. (ent_AccountID e, ent_Amount e)) (entries (c_db c)) = concat (map entry_pair (transfers (c_db c))) \<and>
    (\<forall>a \<in> set (accounts (c_db c)). sint (acc_Balance a) =
       (\<Sum>e \<leftarrow> filter (\<lambda>e. ent_AccountID e = acc_ID a) (entries (c_db c)). sint (ent_Amount e))) \<and>
    (\<forall>t \<in> set (transfers (c_db c)). 0 < sint (tr_Amount t) \<and>
       same_currency (tr_FromAccountID t) (tr_ToAccountID t) (c_db c)) \<and>
    (\<forall>i < length ts. \<forall>j < length ts. i \<noteq> j \<longrightarrow> locks (ts ! i) \<inter> locks (ts ! j) = {}) \<and>
    (\<forall>t \<in> set ts. \<forall>p req. request_of t = RunTx p req \<longrightarrow> 0 < sint (trq_Amount req) \<and>
       (\<exists>a b. row_of acc_ID (trq_FromAccountID req) (accounts (c_db c)) = Some a \<and>
         row_of acc_ID (trq_ToAccountID req) (accounts (c_db c)) = Some b \<and>
         acc_Owner a = pl_Username p \<and> acc_Currency a = trq_Currency req \<and> acc_Currency b = trq_Currency req)) \<and>
    (\<forall>t \<in> set ts. \<forall>arg. (\<exists>resp. request_of t = LoginCreate arg resp) \<or> (\<exists>resp. request_of t = GLoginCreate arg resp) \<longrightarrow>
       csp_Username arg \<in> usr_Username ` set (users (c_db c)) \<and> \<not> csp_IsBlocked arg)"
proof -
  have inv: "bank_inv (c_db c)" and ts: "all_apart ts" "list_all (bank_thread_ok (c_db c)) ts"
    using assms by (simp_all add: conc_inv_def)
  have ok: "thread_ok (c_db c) (request_of t)" if "t \<in> set ts" for t
    using ts(2) that by (auto simp: list_all_iff intro: request_of_ok)
  have runs: "0 < sint (trq_Amount req) \<and>
      (\<exists>a b. row_of acc_ID (trq_FromAccountID req) (accounts (c_db c)) = Some a \<and>
        row_of acc_ID (trq_ToAccountID req) (accounts (c_db c)) = Some b \<and>
        acc_Owner a = pl_Username p \<and> acc_Currency a = trq_Currency req \<and> acc_Currency b = trq_Currency req)"
    if "t \<in> set ts" "request_of t = RunTx p req" for t p req
    using ok [OF that(1)] that(2) by (auto simp: owns_def currency_of_def split: option.splits)
  have logins: "csp_Username arg \<in> usr_Username ` set (users (c_db c)) \<and> \<not> csp_IsBlocked arg"
    if "t \<in> set ts" "(\<exists>resp. request_of t = LoginCreate arg resp) \<or> (\<exists>resp. request_of t = GLoginCreate arg resp)" for t arg
    using ok [OF that(1)] that(2) by (auto simp: has_key_iff)
  show ?thesis
    using bank_invD(2-5) [OF inv] all_apartD [OF ts(1)] runs logins
    by (simp add: total_balance_def double_entry_def transfers_ok_def ledger_ok_def entry_sum_def apart_def)
qed

subsection \<open>Transfers at once\<close>

text \<open>
  The abstract transfer on the committed tables, up to the ids and dates of the rows it appends (with
  several transactions running they are taken when a statement runs, not at the commit).
\<close>

definition transferred :: "TransferTxParams \<Rightarrow> TransferTxResult \<Rightarrow> database \<Rightarrow> database \<Rightarrow> bool" where
  "transferred arg res d d' \<longleftrightarrow>
     accounts d' = map (\<lambda>r. r\<lparr>acc_Balance := acc_Balance r + transfer_delta arg (acc_ID r)\<rparr>) (accounts d) \<and>
     (\<forall>r \<in> set (accounts d). sint (acc_Balance r + transfer_delta arg (acc_ID r)) = sint (acc_Balance r) + idelta arg (acc_ID r)) \<and>
     entries d' = entries d @ [ttr_FromEntry res, ttr_ToEntry res] \<and> transfers d' = transfers d @ [ttr_Transfer res] \<and>
     users d' = users d \<and> sessions d' = sessions d \<and>
     transfer_key (ttr_Transfer res) = (ttp_FromAccountID arg, ttp_ToAccountID arg, ttp_Amount arg) \<and>
     entry_key (ttr_FromEntry res) = (ttp_FromAccountID arg, - ttp_Amount arg) \<and>
     entry_key (ttr_ToEntry res) = (ttp_ToAccountID arg, ttp_Amount arg) \<and>
     row_of acc_ID (ttp_FromAccountID arg) (accounts d') = Some (ttr_FromAccount res) \<and>
     (ttp_FromAccountID arg \<noteq> ttp_ToAccountID arg \<longrightarrow> row_of acc_ID (ttp_ToAccountID arg) (accounts d') = Some (ttr_ToAccount res))"

definition atomic_view :: "'w bank_state \<Rightarrow> 'w system" where
  "atomic_view s = (case s of (w, c, ts) \<Rightarrow> (w, c, map request_of ts))"

text \<open>
  The program whose transfers happen at once: the steps of Interleaved, a transfer that is done in one
  step or not at all, and steps nobody sees (a sequence advances).
\<close>

inductive atomic_step :: "'w system \<Rightarrow> 'w system \<Rightarrow> bool" where
  atomic_request: "sys_step s s' \<Longrightarrow> atomic_step s s'"
| atomic_wait: "same_tables (c_db c) (c_db c') \<Longrightarrow> c_tx c' = c_tx c \<Longrightarrow> atomic_step (w, c, ts) (w, c', ts)"
| atomic_transfer: "i < length ts \<Longrightarrow> ts ! i = RunTx p req \<Longrightarrow> transferred (tx_args req) res (c_db c) (c_db c') \<Longrightarrow>
    c_tx c' = c_tx c \<Longrightarrow> resp = (StatusOK, TransferBody res) \<or> resp = errResponse StatusInternalServerError e \<Longrightarrow>
    atomic_step (w, c, ts) (w, c', ts[i := Answered resp])"
| atomic_no_transfer: "i < length ts \<Longrightarrow> ts ! i = RunTx p req \<Longrightarrow>
    atomic_step (w, c, ts) (w, c, ts[i := Answered (errResponse StatusInternalServerError e)])"

lemma word_of_idelta: "word_of_int (idelta arg k) = transfer_delta arg k"
  by (simp add: idelta_def transfer_delta_def)

lemma commit_transferred:
  assumes wf: "wf_db d" and ok: "bank_thread_ok d (Running p req x)" and pc: "tn_pc x = CommitTx"
  shows "transferred (tx_args req) (tn_result x) d (tx_view x d)"
proof -
  have arg: "tx_args req = tn_arg x" and txn: "txn_ok d x" using ok by simp_all
  note bal = commit_balance [OF txn pc wf]
  have new: "acc_Balance (own_balance (tn_balances x) r) = acc_Balance r + transfer_delta (tn_arg x) (acc_ID r)"
    if "r \<in> set (accounts d)" for r
    using arg_cong [OF bal [OF that], of "word_of_int :: int \<Rightarrow> int64"] by (simp add: word_of_idelta)
  have "own_balance (tn_balances x) r = r\<lparr>acc_Balance := acc_Balance (own_balance (tn_balances x) r)\<rparr>" for r
    by (simp add: own_balance_def split: option.split)
  with new have "accounts (tx_view x d) =
      map (\<lambda>r. r\<lparr>acc_Balance := acc_Balance r + transfer_delta (tn_arg x) (acc_ID r)\<rparr>) (accounts d)"
    by (simp add: tx_view_def cong: map_cong)
  moreover have "txn_accounts d x" using txn pc by (simp add: txn_ok_def)
  then have "row_of acc_ID (ttp_FromAccountID (tn_arg x)) (accounts (tx_view x d)) = Some (ttr_FromAccount (tn_result x)) \<and>
      (ttp_FromAccountID (tn_arg x) \<noteq> ttp_ToAccountID (tn_arg x) \<longrightarrow>
       row_of acc_ID (ttp_ToAccountID (tn_arg x)) (accounts (tx_view x d)) = Some (ttr_ToAccount (tn_result x)))"
    using pc by (simp add: row_tx_view txn_accounts_def Let_def)
  ultimately show ?thesis
    using commit_rows [OF txn pc] new bal by (simp add: transferred_def arg)
qed

text \<open>
  The interleaved program refines the one whose transfers happen at once: seen without the running
  transactions, every step is a step of that program. In particular a commit posts
  the transfer to whatever balances are committed at that moment, so no update is lost, and a caller
  told that the transfer succeeded is given its rows.
\<close>

lemma conc_step_atomic:
  assumes inv: "conc_inv s" and step: "bank_conc_step s s'"
  shows "atomic_step (atomic_view s) (atomic_view s')"
proof -
  note inv = inv [unfolded conc_inv_def]
  note atomic_simps = atomic_view_def map_update
  from step show ?thesis
  proof cases
    case (conc_other w c w' c' ts)
    then show ?thesis by (auto simp: atomic_simps intro: atomic_request other)
  next
    case (conc_transfer maker now header payload w c ts L decoded)
    then show ?thesis by (auto simp: atomic_simps intro: atomic_request arrive)
  next
    case conc_login
    then show ?thesis by (auto simp: atomic_simps intro: atomic_request arrive_login)
  next
    case conc_gapi_login
    then show ?thesis by (auto simp: atomic_simps intro: atomic_request arrive_gapi_login)
  next
    case (conc_call i ts t E c t' c' w)
    then show ?thesis by (auto simp: atomic_simps intro!: atomic_request move)
  next
    case (conc_begin i ts p req w c now)
    then have "map request_of (ts[i := Running p req (begin_txn now (tx_args req))]) = map request_of ts"
      by (metis list_update_id map_update request_of.simps)
    with conc_begin show ?thesis by (auto simp: atomic_view_def intro: atomic_wait)
  next
    case (conc_begin_fails i ts p req w c e)
    then show ?thesis by (auto simp: atomic_simps intro!: atomic_no_transfer)
  next
    case (conc_statement i ts p req x c x' d' w)
    then have "map request_of (ts[i := Running p req x']) = map request_of ts"
      by (metis list_update_id map_update request_of.simps)
    with conc_statement tx_stmt_seqs [OF conc_statement(6)] show ?thesis
      by (auto simp: atomic_view_def intro!: atomic_wait)
  next
    case (conc_commit i ts p req x resp e w c)
    have "transferred (tx_args req) (tn_result x) (c_db c) (tx_view x (c_db c))"
      by (rule commit_transferred) (use inv conc_commit bank_invD(1) in \<open>auto simp: list_all_length\<close>)
    with conc_commit show ?thesis
      by (auto simp: atomic_simps intro!: atomic_transfer)
  next
    case (conc_rollback i ts p req x w c e)
    then show ?thesis by (auto simp: atomic_simps intro!: atomic_no_transfer)
  qed
qed

subsection \<open>Progress\<close>

lemma tx_stmt_progress:
  assumes "tn_pc x \<noteq> CommitTx" "tn_pc x \<noteq> RollbackTx"
  shows "stmts_left (tn_pc (fst (tx_stmt x d))) < stmts_left (tn_pc x)"
  using assms
  by (cases "tn_pc x")
    (auto simp: tx_stmt_def Let_def insert_transfer_def insert_entry_def update_balance_def split: prod.split sum.split list.split)

lemma running_locks:
  assumes "bank_thread_ok d (Running p req x)" and "tn_pc x \<noteq> RollbackTx"
  shows "locks (Running p req x) = held (tn_arg x) (phase (tn_pc x))"
  using assms by (simp add: txn_ok_def txn_balances_def)

lemma wants_row_cases:
  assumes "wants_row x = Some k" and "addMoney_args (tn_arg x) = (i1, a1, i2, a2)"
  shows "tn_pc x = UpdateFirst \<and> k = i1 \<or> tn_pc x = UpdateSecond \<and> k = i2"
  using assms by (cases "tn_pc x") (simp_all add: wants_row_def)

text \<open>
  When every running transaction waits for a row, the one that holds the row with the largest id waits
  in vain for nobody: the row it wants is no smaller.
\<close>

lemma waiting_thread_free:
  assumes ts: "list_all (bank_thread_ok d) ts" "all_apart ts" and i: "i < length ts" "ts ! i = Running p req x"
    and wait: "\<And>j p req x. j < length ts \<Longrightarrow> ts ! j = Running p req x \<Longrightarrow> wants_row x \<noteq> None"
  shows "\<exists>j p req y. j < length ts \<and> ts ! j = Running p req y \<and> row_free ts j y"
proof (cases "\<forall>j < length ts. locks (ts ! j) = {}")
  case True
  with i show ?thesis by (auto simp: row_free_def)
next
  case False
  let ?S = "\<Union>j < length ts. sint ` locks (ts ! j)"
  have second: "\<exists>p req y. ts ! j = Running p req y \<and> tn_pc y = UpdateSecond \<and>
      locks (ts ! j) = {fst (addMoney_args (tn_arg y))}" if j: "j < length ts" "k \<in> locks (ts ! j)" for j k
  proof -
    obtain p req y where y: "ts ! j = Running p req y" using j(2) by (cases "ts ! j") auto
    obtain r where "wants_row y = Some r" using wait [OF j(1) y] by blast
    moreover obtain i1 a1 i2 a2 where args: "addMoney_args (tn_arg y) = (i1, a1, i2, a2)" by (metis surj_pair)
    ultimately have pc: "tn_pc y = UpdateFirst \<or> tn_pc y = UpdateSecond" using wants_row_cases by blast
    moreover have "bank_thread_ok d (Running p req y)" using ts(1) j(1) y by (metis list_all_length)
    moreover have "tn_pc y \<noteq> RollbackTx" using pc by auto
    ultimately have held: "locks (ts ! j) = held (tn_arg y) (phase (tn_pc y))" using running_locks y by metis
    from pc show ?thesis
    proof
      assume "tn_pc y = UpdateFirst"
      with held j(2) show ?thesis by simp
    next
      assume second: "tn_pc y = UpdateSecond"
      with held args have "locks (ts ! j) = {fst (addMoney_args (tn_arg y))}" by simp
      with y second show ?thesis by blast
    qed
  qed
  have "finite (locks (ts ! j))" if "j < length ts" for j
    using second [OF that] by (cases "locks (ts ! j) = {}") (simp, metis all_not_in_conv finite.emptyI finite.insertI)
  then have fin: "finite ?S" by (intro finite_UN_I finite_imageI) auto
  moreover have "?S \<noteq> {}" using False by auto
  ultimately obtain m where "m \<in> ?S" and max: "\<And>s. s \<in> ?S \<Longrightarrow> m \<le> s \<Longrightarrow> m = s" using finite_has_maximal [of ?S] by blast
  then obtain j k where j: "j < length ts" "k \<in> locks (ts ! j)" and top: "m = sint k" by auto
  have max: "s \<le> sint k" if "s \<in> ?S" for s using max [OF that] top by linarith
  from second [OF j] obtain p req y where y: "ts ! j = Running p req y" "tn_pc y = UpdateSecond"
    and k: "locks (ts ! j) = {fst (addMoney_args (tn_arg y))}" by blast
  obtain i1 a1 i2 a2 where args: "addMoney_args (tn_arg y) = (i1, a1, i2, a2)" by (metis surj_pair)
  have "i2 \<notin> locks (ts ! m)" if m: "m < length ts" "m \<noteq> j" for m
  proof
    assume "i2 \<in> locks (ts ! m)"
    with m(1) have "sint i2 \<le> sint k" by (intro max) auto
    with addMoney_args_ordered [OF args] j(2) k args have "i2 = k" by (auto intro: sint64_inject)
    with \<open>i2 \<in> locks (ts ! m)\<close> j all_apartD [OF ts(2) j(1) m] show False by (auto simp: apart_def)
  qed
  then have "row_free ts j y" using y(2) args by (simp add: row_free_def wants_row_def)
  with j(1) y(1) show ?thesis by blast
qed

text \<open>
  No deadlock, whatever else is being served: when a transaction is running, one of the running transactions is at its end or can take the row it needs, and then runs one
  of the at most five statements it has left.
\<close>

lemma some_transfer_proceeds:
  assumes inv: "conc_inv (w, c, ts)" and i: "i < length ts" "ts ! i = Running p req x"
  shows "\<exists>j p req y. j < length ts \<and> ts ! j = Running p req y \<and> row_free ts j y \<and>
    (tn_pc y = CommitTx \<or> tn_pc y = RollbackTx \<or>
     stmts_left (tn_pc (fst (tx_stmt y (c_db c)))) < stmts_left (tn_pc y))"
proof -
  have ts: "list_all (bank_thread_ok (c_db c)) ts" "all_apart ts"
    using inv by (simp_all add: conc_inv_def)
  have "\<exists>j p req y. j < length ts \<and> ts ! j = Running p req y \<and> row_free ts j y"
  proof (cases "\<exists>j p req y. j < length ts \<and> ts ! j = Running p req y \<and> wants_row y = None")
    case True
    then show ?thesis by (fastforce simp: row_free_def)
  next
    case False
    show ?thesis by (rule waiting_thread_free [OF ts i]) (use False in auto)
  qed
  then show ?thesis using tx_stmt_progress by blast
qed

end
