(* ===== verification/Registration_Props.thy ===== *)
theory Registration_Props
  imports Registrations Concurrent_Props
begin

text \<open>
  What holds of the program with the transactions of transfers and of new users interleaved statement by
  statement: the contract of the task distributor and the invariant of Concurrent_Inv carry over to it.
\<close>

subsection \<open>The invariant\<close>

lemma conc_inv_queue: "conc_inv (w, c, ts) \<Longrightarrow> conc_inv (w', c, ts)"
  by (simp add: conc_inv_def)

lemma reg_invD:
  assumes "reg_inv D W ok ((w, c, ts), rs)"
  shows "conc_inv (w, c, ts)" "keys_free rs (c_db c)" "none_clash rs" "k < length rs \<Longrightarrow> reg_ok D W ok w (c_db c) (rs ! k)"
  using assms by (simp_all add: reg_inv_def list_all_length)

lemma keys_freeD:
  assumes "keys_free rs d" and "k < length rs" and "uncommitted_user (rs ! k) = Some u"
  shows "\<not> has_key usr_Username (usr_Username u) (users d)" "\<not> has_key usr_Email (usr_Email u) (users d)"
  using assms nth_mem by (auto simp: keys_free_def)

lemma reg_inv_update:
  assumes inv: "reg_inv D W ok ((w, c, ts), rs)" and conc: "conc_inv (w', c', ts)" and grows: "grows (c_db c) (c_db c')"
    and queue: "W w \<subseteq> W w' \<or> \<not> ok" and r: "reg_ok D W ok w' (c_db c') r"
    and clash: "\<And>j. j < length rs \<Longrightarrow> j \<noteq> k \<Longrightarrow> no_clash r (rs ! j)"
    and own: "\<And>u. uncommitted_user r = Some u \<Longrightarrow> \<not> has_key usr_Username (usr_Username u) (users (c_db c')) \<and>
      \<not> has_key usr_Email (usr_Email u) (users (c_db c'))"
    and others: "\<And>j u. j < length rs \<Longrightarrow> j \<noteq> k \<Longrightarrow> uncommitted_user (rs ! j) = Some u \<Longrightarrow>
      \<not> has_key usr_Username (usr_Username u) (users (c_db c')) \<and> \<not> has_key usr_Email (usr_Email u) (users (c_db c'))"
  shows "reg_inv D W ok ((w', c', ts), rs[k := r])"
proof -
  have "none_clash (rs[k := r])" using reg_invD(3) [OF inv] clash by (rule none_clash_update)
  moreover have "list_all (reg_ok D W ok w' (c_db c')) (rs[k := r])"
    by (rule list_all_update') (simp_all add: reg_ok_grows [OF reg_invD(4) [OF inv] grows queue] r)
  moreover have "list_all (\<lambda>q. \<forall>u. uncommitted_user q = Some u \<longrightarrow> \<not> has_key usr_Username (usr_Username u) (users (c_db c')) \<and>
      \<not> has_key usr_Email (usr_Email u) (users (c_db c'))) (rs[k := r])"
    by (rule list_all_update') (use own others in auto)
  then have "keys_free (rs[k := r]) (c_db c')" by (simp add: keys_free_def list_all_iff)
  ultimately show ?thesis using conc by (simp add: reg_inv_def)
qed

text \<open>A step of one registration that commits nothing.\<close>

lemma reg_inv_moved:
  assumes inv: "reg_inv D W ok ((w, c, ts), rs)"
    and queue: "W w \<subseteq> W w' \<or> \<not> ok" and r: "reg_ok D W ok w' (c_db c) r"
    and clash: "\<And>j. j < length rs \<Longrightarrow> j \<noteq> k \<Longrightarrow> no_clash r (rs ! j)"
    and own: "\<And>u. uncommitted_user r = Some u \<Longrightarrow> \<not> has_key usr_Username (usr_Username u) (users (c_db c)) \<and>
      \<not> has_key usr_Email (usr_Email u) (users (c_db c))"
  shows "reg_inv D W ok ((w', c, ts), rs[k := r])"
  by (rule reg_inv_update [OF inv conc_inv_queue [OF reg_invD(1) [OF inv]] _ queue r clash own])
    (use keys_freeD [OF reg_invD(2) [OF inv]] in \<open>auto simp: grows_def\<close>)

text \<open>A commit, whatever is answered.\<close>

lemma reg_inv_committed:
  assumes inv: "reg_inv D W ok ((w, c, ts), rs)" and k: "k < length rs" "rs ! k = CommitUser server u"
    and answer: "\<And>v. res = Inr v \<Longrightarrow> v = ConvertUser u"
  shows "reg_inv D W ok ((w, c\<lparr>c_db := (c_db c)\<lparr>users := users (c_db c) @ [u]\<rparr>\<rparr>, ts), rs[k := Registered server u res])"
proof (rule reg_inv_update [OF inv])
  obtain now arg where u: "u = user_row now arg" and task: "ok \<Longrightarrow> accounted_for W w u"
    using reg_invD(4) [OF inv k(1)] k(2) by auto
  note own = keys_freeD [OF reg_invD(2) [OF inv] k(1), of u]
  note insert = commit_is_insert [OF u, of "c_db c"]
  show "conc_inv (w, c\<lparr>c_db := (c_db c)\<lparr>users := users (c_db c) @ [u]\<rparr>\<rparr>, ts)"
    by (rule user_commit_inv [OF reg_invD(1) [OF inv] insert]) (use own k(2) in simp_all)
  show "grows (c_db c) (c_db (c\<lparr>c_db := (c_db c)\<lparr>users := users (c_db c) @ [u]\<rparr>\<rparr>))" by (simp add: grows_def)
  show "reg_ok D W ok w (c_db (c\<lparr>c_db := (c_db c)\<lparr>users := users (c_db c) @ [u]\<rparr>\<rparr>)) (Registered server u res)"
    using task answer by (simp add: has_key_iff)
  fix j v
  assume j: "j < length rs" "j \<noteq> k" "uncommitted_user (rs ! j) = Some v"
  have "no_clash (rs ! k) (rs ! j)" using reg_invD(3) [OF inv] j k(1) by (simp add: none_clash_def)
  with j(3) k(2) keys_freeD [OF reg_invD(2) [OF inv] j(1,3)]
  show "\<not> has_key usr_Username (usr_Username v) (users (c_db (c\<lparr>c_db := (c_db c)\<lparr>users := users (c_db c) @ [u]\<rparr>\<rparr>))) \<and>
      \<not> has_key usr_Email (usr_Email v) (users (c_db (c\<lparr>c_db := (c_db c)\<lparr>users := users (c_db c) @ [u]\<rparr>\<rparr>)))"
    by (auto simp: no_clash_def has_key_iff)
qed (simp_all add: no_clash_none)

text \<open>The unique keys, over committed and uncommitted users together.\<close>

lemma uncommitted_keys:
  "set (uncommitted_users rs) = {u. \<exists>k < length rs. uncommitted_user (rs ! k) = Some u}"
proof (induction rs)
  case (Cons r rs)
  then show ?case by (auto simp: Ex_less_Suc2 split: option.split)
qed simp

lemma none_clash_Cons: "none_clash (r # rs) \<longleftrightarrow> (\<forall>j < length rs. no_clash r (rs ! j)) \<and> none_clash rs"
  by (auto simp: none_clash_def All_less_Suc2 no_clash_sym)

lemma distinct_with_uncommitted:
  assumes "keys_free rs d" and "none_clash rs"
  shows "distinct (map usr_Username (users d)) \<Longrightarrow> distinct (map usr_Username (users d @ uncommitted_users rs))"
    and "distinct (map usr_Email (users d)) \<Longrightarrow> distinct (map usr_Email (users d @ uncommitted_users rs))"
proof -
  have "distinct (map usr_Username (uncommitted_users rs)) \<and> distinct (map usr_Email (uncommitted_users rs))"
    using assms(2)
  proof (induction rs)
    case (Cons r rs)
    then show ?case
      by (cases "uncommitted_user r") (auto simp: none_clash_Cons no_clash_def uncommitted_keys)
  qed simp
  moreover have "\<not> has_key usr_Username (usr_Username u) (users d) \<and> \<not> has_key usr_Email (usr_Email u) (users d)"
    if "u \<in> set (uncommitted_users rs)" for u
    using that assms(1) keys_freeD by (fastforce simp: uncommitted_keys)
  then have "usr_Username ` set (users d) \<inter> usr_Username ` set (uncommitted_users rs) = {}"
    "usr_Email ` set (users d) \<inter> usr_Email ` set (uncommitted_users rs) = {}"
    by (auto simp: has_key_iff) (metis imageI)+
  ultimately show "distinct (map usr_Username (users d)) \<Longrightarrow> distinct (map usr_Username (users d @ uncommitted_users rs))"
    "distinct (map usr_Email (users d)) \<Longrightarrow> distinct (map usr_Email (users d @ uncommitted_users rs))"
    by simp_all
qed

context task_worker begin

lemma reg_move_inv:
  assumes inv: "reg_inv (distribute l) (accounted l) (lib_ok l) ((w, c, ts), rs)" and k: "k < length rs"
    and free: "reg_free rs k (c_db c)" and run: "reg_stmt now (rs ! k) w (c_db c) = (r, w', d')"
  shows "reg_inv (distribute l) (accounted l) (lib_ok l) ((w', c\<lparr>c_db := d'\<rparr>, ts), rs[k := r])"
proof (cases "rs ! k")
  case (BeginUser server arg)
  with run have "r = InsertUser server arg now" "w' = w" "d' = c_db c" by simp_all
  with reg_inv_moved [OF inv, of w r k] reg_invD(4) [OF inv k] BeginUser show ?thesis by (simp add: no_clash_none)
next
  case (InsertUser server arg begun)
  have same: "w' = w" "d' = c_db c" using run InsertUser by (auto split: sum.splits list.splits)
  show ?thesis
  proof (cases "user_possible arg (c_db c)")
    case True
    let ?u = "user_row begun arg"
    from True run InsertUser have r: "r = AfterCreate server ?u" by (simp add: sql_create_user_possible)
    have "no_clash r (rs ! j)" if "j < length rs" "j \<noteq> k" for j
      using free that InsertUser True r
      by (auto simp: reg_free_def no_clash_def user_possible_def user_row_def keys_wait_def)
    with reg_inv_moved [OF inv, of w r k] reg_invD(4) [OF inv k] InsertUser True r same show ?thesis
      by (auto simp: user_possible_def user_row_def)
  next
    case False
    with run InsertUser have "\<exists>st. r = Refused st" by (auto simp: sql_create_user_possible)
    with reg_inv_moved [OF inv, of w r k] same show ?thesis by (auto simp: no_clash_none)
  qed
next
  case (AfterCreate server u)
  obtain err w1 where hook: "distribute l \<lparr>pve_Username = usr_Username u\<rparr> verify_email_opts w = (err, w1)" by fastforce
  have ok: "gs_taskDistributor server = distribute l" "list_all graphic (usr_Username u)" "\<exists>now arg. u = user_row now arg"
    using reg_invD(4) [OF inv k] AfterCreate by simp_all
  have queue: "accounted l w \<subseteq> accounted l w1 \<or> \<not> lib_ok l" using distribute_forgets_none [OF hook] by simp
  have same: "w' = w1" "d' = c_db c" using AfterCreate run hook ok(1) by (auto simp: send_verify_email_def split: option.splits)
  show ?thesis
  proof (cases err)
    case (Some e)
    then have "r = Refused (create_user_error e)" using AfterCreate run hook ok(1) by (simp add: send_verify_email_def)
    with reg_inv_moved [OF inv queue, of r k] same show ?thesis by (simp add: no_clash_none)
  next
    case None
    then have r: "r = CommitUser server u" using AfterCreate run hook ok(1) by (simp add: send_verify_email_def)
    have task: "lib_ok l \<Longrightarrow> accounted_for (accounted l) w1 u"
      using nil_accounts [of l "\<lparr>pve_Username = usr_Username u\<rparr>" verify_email_opts w w1] ok(2) hook None
      by (simp add: accounted_for_def)
    have clash: "no_clash r (rs ! j)" if "j < length rs" "j \<noteq> k" for j
      using reg_invD(3) [OF inv] that k AfterCreate r by (simp add: none_clash_def no_clash_def)
    have "reg_inv (distribute l) (accounted l) (lib_ok l) ((w1, c, ts), rs[k := r])"
      by (rule reg_inv_moved [OF inv queue _ clash])
        (use task ok(3) r keys_freeD [OF reg_invD(2) [OF inv] k, of u] AfterCreate in simp_all)
    with same show ?thesis by simp
  qed
next
  case (CommitUser server u)
  with run reg_inv_committed [OF inv k CommitUser, of "Inr (ConvertUser u)"] show ?thesis by simp
qed (use inv run k in \<open>auto simp: list_update_same_conv\<close>)

lemma reg_step_inv:
  assumes inv: "reg_inv (distribute l) (accounted l) (lib_ok l) s" and step: "reg_step (distribute l) (work l) s s'"
  shows "reg_inv (distribute l) (accounted l) (lib_ok l) s'"
  using step
proof cases
  case (reg_bank w c ts c' ts' rs)
  note inv = inv [unfolded reg_bank(1)]
  have "conc_inv (w, c', ts')" by (rule transactions.inv_step [OF reg_invD(1) [OF inv] reg_bank(3)])
  moreover have "list_all (reg_ok (distribute l) (accounted l) (lib_ok l) w (c_db c')) rs"
    using reg_ok_grows [OF reg_invD(4) [OF inv] conc_step_grows [OF reg_bank(3)]] by (simp add: list_all_length)
  ultimately show ?thesis using reg_bank(2,4) reg_invD(3) [OF inv] by (simp add: reg_inv_def)
next
  case (reg_arrive server z rs G rv creq)
  obtain w c ts where z: "z = (w, c, ts)" by (cases z)
  note inv = inv [unfolded reg_arrive(1) z]
  have "uncommitted_user (start_registration G server rv creq) = None \<and>
      reg_ok (distribute l) (accounted l) (lib_ok l) w (c_db c) (start_registration G server rv creq)"
    by (cases rule: start_registration_cases [of G server rv creq]) (use reg_arrive(3) in auto)
  with reg_arrive(2) z inv show ?thesis by (auto simp: reg_inv_def keys_free_def none_clash_append)
next
  case (reg_move k rs c now w r w' d' ts)
  with reg_move_inv inv show ?thesis by blast
next
  case (reg_ack_lost k rs server u w c ts e)
  with reg_inv_committed [of "distribute l" "accounted l" "lib_ok l" w c ts rs k server u "Inl (create_user_error e)"] inv
  show ?thesis by simp
next
  case (reg_rollback k rs z e)
  obtain w c ts where z: "z = (w, c, ts)" by (cases z)
  with reg_rollback reg_inv_moved [of "distribute l" "accounted l" "lib_ok l" w c ts rs w "Refused (create_user_error e)" k] inv
  show ?thesis by (simp add: no_clash_none)
next
  case (reg_work w c w' c' ts rs)
  note inv = inv [unfolded reg_work(1)]
  have "c_tx c = Autocommit" using reg_invD(1) [OF inv] by (simp add: conc_inv_def)
  from work_reads [OF reg_work(3) this] have c': "c_db c' = c_db c" "c_tx c' = Autocommit" by simp_all
  have "list_all (reg_ok (distribute l) (accounted l) (lib_ok l) w' (c_db c)) rs"
    using inv reg_ok_grows [of "distribute l" "accounted l" "lib_ok l" w "c_db c" _ "c_db c" w'] work_forgets_none [OF reg_work(3)]
    by (auto simp: reg_inv_def list_all_iff grows_def)
  with reg_work(2) inv c' show ?thesis by (simp add: reg_inv_def conc_inv_def)
qed

end

sublocale task_worker \<subseteq> registrations: invariant_of reg_started "reg_step (distribute l) (work l)" "reg_inv (distribute l) (accounted l) (lib_ok l)" for l
proof
  show "reg_inv (distribute l) (accounted l) (lib_ok l) s" if "reg_started s" for s
  proof -
    obtain w c ts rs where s: "s = ((w, c, ts), rs)" by (cases s) auto
    with that have "bank_started (w, c, ts)" "rs = []" by (simp_all add: reg_started_def)
    with transactions.inv_init s show ?thesis by (simp add: reg_inv_def keys_free_def none_clash_def)
  qed
qed (rule reg_step_inv)

end
