(* ===== verification/Concurrent_Program.thy ===== *)
theory Concurrent_Program
  imports Registration_Props
begin

text \<open>
  The properties of the whole program with both kinds of transactions, of transfers and of new users,
  interleaved statement by statement with each other and with every other request, and with redis as
  the queue of the verification tasks.
\<close>

subsection \<open>The program\<close>

text \<open>The distributor of the servers and the worker, on one redis.\<close>

abbreviation program_step :: "asynq_retry \<Rightarrow> asynq_lib \<Rightarrow> env \<Rightarrow> redis reg_state \<Rightarrow> redis reg_state \<Rightarrow> bool" where
  "program_step P A E \<equiv> reg_step (DistributeTaskSendVerifyEmail A) (worker_step P A E)"

definition tables :: "'w reg_state \<Rightarrow> database" where
  "tables s = c_db (fst (snd (fst s)))"

lemma tables_simp [simp]: "tables ((w, c, ts), rs) = c_db c"
  by (simp add: tables_def)

lemma reg_stmt_grows: "reg_stmt now r w d = (r', w', d') \<Longrightarrow> grows d d'"
  by (cases r) (auto simp: grows_def split: sum.splits list.splits prod.splits option.splits)

lemma reg_step_grows:
  assumes "program_step P A E s s'"
  shows "grows (tables s) (tables s')"
  using assms
proof cases
  case reg_bank
  then show ?thesis by (auto intro: conc_step_grows)
next
  case reg_move
  then show ?thesis by (auto intro: reg_stmt_grows)
next
  case reg_work
  then show ?thesis by (simp add: worker_grows)
qed (auto simp: grows_def tables_def)

text \<open>
  C2: with the statements of any number of transfers and new users interleaved with each other and with
  any other requests, in any reachable state the committed balances are those of the entries and sum to
  zero, entries and transfers are a double-entry ledger, transfers are positive and within one currency,
  no two transactions hold the lock of the same account, and what was checked before is still true: the
  caller of a running transfer owns the debited account, both accounts are in the currency requested,
  and a login about to store its session is for an existing user.
\<close>

theorem interleaved_transactions_are_safe:
  assumes "reach reg_started (program_step P A E) ((w, c, ts), rs)"
  shows "(\<Sum>a \<leftarrow> accounts (c_db c). sint (acc_Balance a)) = 0 \<and>
    map (\<lambda>e. (ent_AccountID e, ent_Amount e)) (entries (c_db c)) = concat (map entry_pair (transfers (c_db c))) \<and>
    (\<forall>a \<in> set (accounts (c_db c)). sint (acc_Balance a) =
       (\<Sum>e \<leftarrow> filter (\<lambda>e. ent_AccountID e = acc_ID a) (entries (c_db c)). sint (ent_Amount e))) \<and>
    (\<forall>t \<in> set (transfers (c_db c)). 0 < sint (tr_Amount t) \<and>
       same_currency (tr_FromAccountID t) (tr_ToAccountID t) (c_db c)) \<and>
    (\<forall>i < length ts. \<forall>j < length ts. i \<noteq> j \<longrightarrow> locks (ts ! i) \<inter> locks (ts ! j) = {}) \<and>
    (\<forall>t \<in> set ts. \<forall>p req. request_of t = RunTx p req \<longrightarrow> 0 < sint (trq_Amount req) \<and>
       (\<exists>a b. row_of acc_ID (trq_FromAccountID req) (accounts (c_db c)) = Some a \<and>
         row_of acc_ID (trq_ToAccountID req) (accounts (c_db c)) = Some b \<and>
         acc_Owner a = pl_Username p \<and> acc_Currency a = trq_Currency req \<and> acc_Currency b = trq_Currency req)) \<and>
    (\<forall>t \<in> set ts. \<forall>arg. (\<exists>resp. request_of t = LoginCreate arg resp) \<or> (\<exists>resp. request_of t = GLoginCreate arg resp) \<longrightarrow>
       csp_Username arg \<in> usr_Username ` set (users (c_db c)) \<and> \<not> csp_IsBlocked arg)"
  by (rule interleaved_facts [OF reg_invD(1) [OF worked.registrations.reach_inv [OF assms]]])

text \<open>The worker's part of the program: what it makes of the tasks, whatever else happens.\<close>

definition program_started :: "redis reg_state \<Rightarrow> bool" where
  "program_started s \<longleftrightarrow> reg_started s \<and> untouched (fst (fst s))"

lemma reach_started: "reach program_started step s \<Longrightarrow> reach reg_started step s"
  by (induction rule: reach.induct) (auto simp: program_started_def intro: reach_init reach_step)

definition tasks_handled :: "asynq_retry \<Rightarrow> asynq_lib \<Rightarrow> redis reg_state \<Rightarrow> bool" where
  "tasks_handled P A s \<longleftrightarrow> handled P A (tables s) (fst (fst s))"

lemma reg_step_handled:
  assumes ok: "retries_documented P" "db_errors E" and step: "program_step P A E s s'"
    and inv: "reg_inv (DistributeTaskSendVerifyEmail A) (known A) b s" "tasks_handled P A s"
  shows "tasks_handled P A s'"
  using step
proof cases
  case (reg_move k rs c now w r w' d' ts)
  note reg = inv(1) [unfolded reg_move(1)]
  have "handled P A (c_db c) w'"
  proof (cases "rs ! k")
    case (AfterCreate server u)
    with reg_move(5) reg_invD(4) [OF reg reg_move(3)] obtain err where
      "DistributeTaskSendVerifyEmail A \<lparr>pve_Username = usr_Username u\<rparr> verify_email_opts w = (err, w')"
      by (auto simp: send_verify_email_def split: prod.splits option.splits)
    with handled_distribute inv(2) reg_move(1) show ?thesis by (fastforce simp: tasks_handled_def)
  qed (use reg_move inv(2) in \<open>auto simp: tasks_handled_def split: sum.splits list.splits\<close>)
  moreover have "grows (c_db c) d'" by (rule reg_stmt_grows [OF reg_move(5)])
  ultimately show ?thesis using reg_move(2) by (auto simp: tasks_handled_def intro: handled_grows)
next
  case (reg_work w c w' c' ts rs)
  have "c_tx c = Autocommit" using reg_invD(1) [OF inv(1) [unfolded reg_work(1)]] by (simp add: conc_inv_def)
  with reg_work inv(2) handled_work [OF ok this] worked.work_reads [OF reg_work(3) this] show ?thesis
    by (auto simp: tasks_handled_def)
qed (use inv(2) reg_step_grows [OF step] in \<open>auto simp: tasks_handled_def intro: handled_grows\<close>)

lemma program_handled:
  assumes "retries_documented P" and "db_errors E" and "reach program_started (program_step P A E) ((w, c, ts), rs)"
  shows "handled P A (c_db c) w"
proof -
  have "tasks_handled P A s" if "reach program_started (program_step P A E) s" for s
    using that
  proof (induction rule: reach.induct)
    case (reach_init s)
    then show ?case by (simp add: program_started_def tasks_handled_def handled_untouched)
  next
    case (reach_step s t)
    with reg_step_handled [OF assms(1,2)] worked.registrations.reach_inv [OF reach_started] show ?case by blast
  qed
  from this [OF assms(3)] show ?thesis by (simp add: tasks_handled_def)
qed

lemma known_places:
  assumes "handled P A d w" and "(name, verify_email_opts) \<in> known A w"
  shows "\<exists>t. task_for A name verify_email_opts t \<and>
    (t \<in> set (rd_tasks w) \<or> (\<exists>n. 0 < n \<and> n \<le> 10 \<and> (t, n) \<in> set (rd_retry w)) \<or> (t, 11) \<in> set (rd_archived w) \<or>
     t \<in> set (rd_completed w))"
proof -
  obtain t where t: "t \<in> all_tasks w" "task_for A name verify_email_opts t" using assms(2) by (auto simp: known_def)
  then have "retry_limit P t = 10" by (simp add: task_for_def retry_limit_def verify_email_opts_def)
  with t assms(1) show ?thesis by (fastforce simp: all_tasks_def handled_def)
qed

text \<open>
  C5: no user is lost or invented between the database and the queue, with the worker running. In any
  reachable state of the program started with an empty history of tasks, the verification task of a user
  who is about to be committed waits to be run, or to be run again after at most ten failures, or was
  given up after eleven; it is never completed. So it is for every user whose registration was committed,
  or a run of the worker has completed the task. A completed task's user is in the table, and so is a
  committed registration's, the one answered; and names and emails are unique among committed users and
  the uncommitted ones of running transactions together.
\<close>

theorem registrations_are_safe:
  assumes "reach program_started (program_step P A E) ((w, c, ts), rs)"
    and "json_ok A" and "retries_documented P" and "db_errors E"
  shows "(\<forall>server u. CommitUser server u \<in> set rs \<longrightarrow>
      (\<exists>t. task_for A (usr_Username u) verify_email_opts t \<and> t \<notin> set (rd_completed w) \<and>
        (t \<in> set (rd_tasks w) \<or> (\<exists>n. 0 < n \<and> n \<le> 10 \<and> (t, n) \<in> set (rd_retry w)) \<or> (t, 11) \<in> set (rd_archived w)))) \<and>
    (\<forall>server u res. Registered server u res \<in> set rs \<longrightarrow>
      (\<exists>t. task_for A (usr_Username u) verify_email_opts t \<and>
        (t \<in> set (rd_tasks w) \<or> (\<exists>n. 0 < n \<and> n \<le> 10 \<and> (t, n) \<in> set (rd_retry w)) \<or> (t, 11) \<in> set (rd_archived w) \<or>
         t \<in> set (rd_completed w))) \<and>
      usr_Username u \<in> usr_Username ` set (users (c_db c)) \<and> (\<forall>v. res = Inr v \<longrightarrow> v = ConvertUser u)) \<and>
    (\<forall>t \<in> set (rd_completed w). \<forall>name opts. task_for A name opts t \<longrightarrow> name \<in> usr_Username ` set (users (c_db c))) \<and>
    distinct (map usr_Username (users (c_db c) @ uncommitted_users rs)) \<and>
    distinct (map usr_Email (users (c_db c) @ uncommitted_users rs))"
proof -
  note inv = worked.registrations.reach_inv [OF reach_started [OF assms(1)]]
  have ok: "reg_ok (DistributeTaskSendVerifyEmail A) (known A) True w (c_db c) r" if "r \<in> set rs" for r
    using inv that assms(2) by (simp add: reg_inv_def list_all_iff)
  have found: "name \<in> usr_Username ` set (users (c_db c))" if "t \<in> set (rd_completed w)" "task_for A name opts t" for t name opts
    using program_handled [OF assms(3,4,1)] that unfolding handled_def has_key_iff by blast
  note at = known_places [OF program_handled [OF assms(3,4,1)]]
  have "\<not> has_key usr_Username (usr_Username u) (users (c_db c))" if "CommitUser server u \<in> set rs" for server u
    using reg_invD(2) [OF inv] that by (force simp: keys_free_def)
  then have commit: "\<exists>t. task_for A (usr_Username u) verify_email_opts t \<and> t \<notin> set (rd_completed w) \<and>
        (t \<in> set (rd_tasks w) \<or> (\<exists>n. 0 < n \<and> n \<le> 10 \<and> (t, n) \<in> set (rd_retry w)) \<or> (t, 11) \<in> set (rd_archived w))"
    if "CommitUser server u \<in> set rs" for server u
    using at [of "usr_Username u"] found that ok [OF that] by (fastforce simp: accounted_for_def has_key_iff)
  have "distinct (map usr_Username (users (c_db c)))" "distinct (map usr_Email (users (c_db c)))"
    using reg_invD(1) [OF inv] by (auto simp: conc_inv_def wf_db_defs dest!: bank_invD(1))
  with distinct_with_uncommitted [OF reg_invD(2,3) [OF inv]]
  have "distinct (map usr_Username (users (c_db c) @ uncommitted_users rs))"
    "distinct (map usr_Email (users (c_db c) @ uncommitted_users rs))" by simp_all
  moreover have "(\<exists>t. task_for A (usr_Username u) verify_email_opts t \<and>
        (t \<in> set (rd_tasks w) \<or> (\<exists>n. 0 < n \<and> n \<le> 10 \<and> (t, n) \<in> set (rd_retry w)) \<or> (t, 11) \<in> set (rd_archived w) \<or>
         t \<in> set (rd_completed w))) \<and>
      usr_Username u \<in> usr_Username ` set (users (c_db c)) \<and> (\<forall>v. res = Inr v \<longrightarrow> v = ConvertUser u)"
    if "Registered server u res \<in> set rs" for server u res
    using at [of "usr_Username u"] ok [OF that] by (auto simp: accounted_for_def has_key_iff)
  ultimately show ?thesis using commit found by blast
qed

text \<open>
  The worker may take the task before the commit: it does not find the user then, and the task is
  retried. (\<open>CreateUser\<close> delays the task to make this unlikely.)
\<close>

theorem early_task_is_retried:
  assumes "reach reg_started (program_step P A E) ((w, c, ts), rs)"
    and "CommitUser server u \<in> set rs" and "json_Unmarshal A (tk_Payload task) = Inr \<lparr>pve_Username = usr_Username u\<rparr>"
    and "no_faults E'" and "ProcessTaskSendVerifyEmail A E' task c = (err, c')"
  shows "retried err \<and> c_db c' = c_db c"
proof -
  note inv = worked.registrations.reach_inv [OF assms(1)]
  obtain k where k: "k < length rs" "rs ! k = CommitUser server u" using assms(2) by (auto simp: in_set_conv_nth)
  have "\<not> has_key usr_Username (usr_Username u) (users (c_db c))"
    by (rule keys_freeD(1) [OF reg_invD(2) [OF inv] k(1)]) (simp add: k(2))
  moreover have "c_tx c = Autocommit" using reg_invD(1) [OF inv] by (simp add: conc_inv_def)
  ultimately show ?thesis
    using assms(3,5) reads_no_faults [OF assms(4)]
    by (auto simp: ProcessTaskSendVerifyEmail_def retried_def found_def row_of_None_iff split: option.splits dest: row_of_Some_has_key)
qed

subsection \<open>Transactions at once\<close>

text \<open>
  The program whose transactions happen at once: its transfers are those of \<open>atomic_step\<close>, a user is
  one \<open>INSERT\<close> that succeeds, a task is put into the queue on its own, and the worker takes tasks from it.
\<close>

inductive atomic_bank_step ::
  "'w TaskDistributor \<Rightarrow> ('w \<Rightarrow> conn \<Rightarrow> 'w \<Rightarrow> conn \<Rightarrow> bool) \<Rightarrow> 'w system \<Rightarrow> 'w system \<Rightarrow> bool"
  for D T
where
  atomic_transactions: "atomic_step s s' \<Longrightarrow> atomic_bank_step D T s s'"
| atomic_enqueue: "D p opts w = (err, w') \<Longrightarrow> atomic_bank_step D T (w, c, ts) (w', c, ts)"
| atomic_user: "sql_create_user arg now (c_db c) = (Inr [u], d') \<Longrightarrow> atomic_bank_step D T (w, c, ts) (w, c\<lparr>c_db := d'\<rparr>, ts)"
| atomic_worker: "T w c w' c' \<Longrightarrow> atomic_bank_step D T (w, c, ts) (w', c', ts)"

lemma atomic_stutter: "atomic_bank_step D T (w, c, ts) (w, c, ts)"
  by (rule atomic_transactions [OF atomic_wait]) (simp_all add: same_tables_def)

lemma reg_commit_atomic:
  assumes "reg_inv D W ok ((w, c, ts), rs)" and "k < length rs" "rs ! k = CommitUser server u"
  shows "atomic_bank_step D T (w, c, ts') (w, c\<lparr>c_db := (c_db c)\<lparr>users := users (c_db c) @ [u]\<rparr>\<rparr>, ts')"
proof -
  obtain now arg where "u = user_row now arg" using reg_invD(4) [OF assms(1,2)] assms(3) by auto
  from commit_is_insert [OF this] keys_freeD [OF reg_invD(2) [OF assms(1)] assms(2)] assms(3)
  show ?thesis by (intro atomic_user) auto
qed

text \<open>
  C3: the interleaved program refines the one whose transactions happen at once: seen without the running
  transactions, every step of a reachable state is a step of that program. In particular the commit of a
  transfer posts it to whatever balances are committed at that moment, so no update is lost, a caller
  told that the transfer succeeded is given its rows, and the commit of a user never meets a name or an
  email that was taken in the meantime.
\<close>

theorem transactions_refine_atomic_transfers:
  assumes reached: "reach reg_started (program_step P A E) s"
    and step: "program_step P A E s s'"
  shows "atomic_bank_step (DistributeTaskSendVerifyEmail A) (worker_step P A E) (atomic_view (fst s)) (atomic_view (fst s'))"
proof -
  note inv = worked.registrations.reach_inv [OF reached]
  from step show ?thesis
  proof cases
    case (reg_bank w c ts c' ts' rs)
    with conc_step_atomic reg_invD(1) inv show ?thesis by (fastforce intro: atomic_transactions)
  next
    case (reg_move k rs c now w r w' d' ts)
    note inv = inv [unfolded reg_move(1)]
    show ?thesis
    proof (cases "rs ! k")
      case (AfterCreate server u)
      with reg_move(5) reg_invD(4) [OF inv reg_move(3)] have "d' = c_db c"
        "\<exists>err. DistributeTaskSendVerifyEmail A \<lparr>pve_Username = usr_Username u\<rparr> verify_email_opts w = (err, w')"
        by (auto simp: send_verify_email_def split: prod.splits option.splits)
      with reg_move(1,2) show ?thesis by (auto simp: atomic_view_def intro: atomic_enqueue)
    next
      case (CommitUser server u)
      with reg_move reg_commit_atomic [OF inv reg_move(3) CommitUser] show ?thesis by (simp add: atomic_view_def)
    next
      case (InsertUser server arg begun)
      then have "w' = w" "d' = c_db c" using reg_move(5) by (auto split: sum.splits list.splits)
      with reg_move(1,2) show ?thesis by (simp add: atomic_view_def atomic_stutter)
    qed (use reg_move in \<open>auto simp: atomic_view_def intro: atomic_stutter\<close>)
  next
    case (reg_ack_lost k rs server u w c ts e)
    with reg_commit_atomic inv show ?thesis by (auto simp: atomic_view_def)
  next
    case reg_arrive
    then show ?thesis by (simp add: atomic_view_def atomic_stutter split: prod.split)
  next
    case reg_rollback
    then show ?thesis by (simp add: atomic_view_def atomic_stutter split: prod.split)
  next
    case reg_work
    then show ?thesis by (simp add: atomic_view_def atomic_worker)
  qed
qed

subsection \<open>Progress\<close>

fun reg_left :: "'w registration \<Rightarrow> nat" where
  "reg_left (BeginUser server arg) = 4" | "reg_left (InsertUser server arg now) = 3"
| "reg_left (AfterCreate server u) = 2" | "reg_left (CommitUser server u) = 1" | "reg_left r = 0"

lemma reg_stmt_progress: "reg_answer r = None \<Longrightarrow> reg_left (fst (reg_stmt now r w d)) < reg_left r"
  by (cases r) (auto split: sum.split list.split prod.split option.split)

text \<open>What an insert waits for waits for nothing.\<close>

lemma some_registration_free:
  assumes "k < length rs" "reg_answer (rs ! k) = None"
  shows "\<exists>j < length rs. reg_answer (rs ! j) = None \<and> reg_free rs j d"
proof (cases "reg_free rs k d")
  case False
  then obtain j where "j < length rs" "reg_waits d (rs ! k) (rs ! j)" by (auto simp: reg_free_def)
  moreover from this(2) have "reg_answer (rs ! j) = None \<and> (\<forall>r. \<not> reg_waits d (rs ! j) r)"
    by (cases "rs ! k"; cases "rs ! j") simp_all
  ultimately show ?thesis by (auto simp: reg_free_def)
qed (use assms in blast)

text \<open>
  C4: no deadlock, whatever else is being served. In every reachable state in which a transfer is
  running, one of the running transfers is at its end or can take the row it needs, and then runs one
  of the at most five statements it has left; and while a registration is under way, one of them waits
  for no unique key and takes one of the at most four steps it has left.
\<close>

theorem some_transaction_proceeds:
  assumes "reach reg_started (program_step P A E) ((w, c, ts), rs)"
  shows "((\<exists>i < length ts. \<exists>p req x. ts ! i = Running p req x) \<longrightarrow>
      (\<exists>j p req y. j < length ts \<and> ts ! j = Running p req y \<and> row_free ts j y \<and>
        (tn_pc y = CommitTx \<or> tn_pc y = RollbackTx \<or>
         stmts_left (tn_pc (fst (tx_stmt y (c_db c)))) < stmts_left (tn_pc y)))) \<and>
    ((\<exists>i < length rs. reg_answer (rs ! i) = None) \<longrightarrow>
      (\<exists>j < length rs. reg_free rs j (c_db c) \<and> reg_left (fst (reg_stmt now (rs ! j) w (c_db c))) < reg_left (rs ! j)))"
proof -
  note inv = reg_invD(1) [OF worked.registrations.reach_inv [OF assms]]
  show ?thesis
  proof (rule conjI; rule impI)
    assume "\<exists>i < length ts. \<exists>p req x. ts ! i = Running p req x"
    then obtain i p req x where "i < length ts" "ts ! i = Running p req x" by blast
    then show "\<exists>j p req y. j < length ts \<and> ts ! j = Running p req y \<and> row_free ts j y \<and>
        (tn_pc y = CommitTx \<or> tn_pc y = RollbackTx \<or> stmts_left (tn_pc (fst (tx_stmt y (c_db c)))) < stmts_left (tn_pc y))"
      by (rule some_transfer_proceeds [OF inv])
  next
    assume "\<exists>i < length rs. reg_answer (rs ! i) = None"
    then obtain k where "k < length rs" "reg_answer (rs ! k) = None" by blast
    from some_registration_free [OF this, of "c_db c"] obtain j where
      "j < length rs" "reg_free rs j (c_db c)" "reg_answer (rs ! j) = None" by blast
    with reg_stmt_progress [OF this(3), of now w "c_db c"]
    show "\<exists>j < length rs. reg_free rs j (c_db c) \<and> reg_left (fst (reg_stmt now (rs ! j) w (c_db c))) < reg_left (rs ! j)"
      by (intro exI [of _ j]) simp
  qed
qed

subsection \<open>Two transfers of ann and a registration of carl\<close>

lemma quiet_step:
  "reach I (reg_step D T) ((w, c, ts), []) \<Longrightarrow> bank_conc_step (w, c, ts) (w, c', ts') \<Longrightarrow>
   reach I (reg_step D T) ((w, c', ts'), [])"
  by (erule reach_step, rule reg_bank) (simp_all add: keys_free_def)

lemma ann_conc_reached:
  assumes "I ((w, empty_conn, []), [])"
  shows "reach I (reg_step D T) ((w, ann_conn, []), [])"
proof -
  obtain r1 c1 where 1: "serve sample_libs sample_server good_env sample_rv '''' (CreateUserReq (Inr ann_registers)) empty_conn = (r1, c1)"
    by fastforce
  obtain r2 where 2: "serve sample_libs sample_server good_env sample_rv bearer_ann
      (CreateAccountReq (Inr \<lparr>car_Currency = ''EUR''\<rparr>)) c1 = (r2, ann_conn)"
    by (metis 1 ann_conn_def prod.collapse snd_conv)
  have "reach I (reg_step D T) ((w, empty_conn, []), [])"
    by (rule reach_init) (rule assms)
  then have "reach I (reg_step D T) ((w, c1, []), [])"
    by (rule quiet_step) (rule conc_other [OF bank_step.http_request [OF 1]], simp add: leaves_alone_def)
  then show ?thesis
    by (rule quiet_step) (rule conc_other [OF bank_step.http_request [OF 2]], simp add: leaves_alone_def)
qed

definition ann_running :: txn where
  "ann_running = begin_txn 0 (tx_args self_transfer)"

text \<open>A transfer of ann arrives, is checked and begins; so does a second.\<close>

lemma ann_begins:
  assumes "reach I (reg_step D T) ((w, c, ts), [])" and "anns_account c" "anns_account (ticked c)"
  shows "reach I (reg_step D T) ((w, ticked (ticked c), ts @ [Running access_payload self_transfer ann_running]), [])"
proof -
  let ?R = "\<lambda>c ts. reach I (reg_step D T) ((w, c, ts), [])" and ?n = "length ts"
  have "?R c (ts @ [Call (CheckFrom access_payload self_transfer)])"
    using quiet_step [OF assms(1) conc_transfer [OF sample_auth, where L = sample_libs and decoded = "Inr self_transfer"]]
    by (simp add: ann_starts)
  from quiet_step [OF this conc_call [of ?n _ _ good_env, OF _ _ _ ann_steps(1) [OF assms(2)]]]
  have "?R (ticked c) (ts @ [Call (CheckTo access_payload self_transfer)])" by simp
  from quiet_step [OF this conc_call [of ?n _ _ good_env, OF _ _ _ ann_steps(2) [OF assms(3)]]]
  have "?R (ticked (ticked c)) (ts @ [Call (RunTx access_payload self_transfer)])" by simp
  from quiet_step [OF this conc_begin [of ?n _ access_payload self_transfer _ _ 0]]
  show ?thesis by (simp add: ann_running_def)
qed

abbreviation two_running :: "bank_thread list" where
  "two_running \<equiv> [Running access_payload self_transfer ann_running, Running access_payload self_transfer ann_running]"

lemma ann_two_running:
  "I ((w, empty_conn, []), []) \<Longrightarrow> reach I (reg_step D T) ((w, ticked (ticked (ticked (ticked ann_conn))), two_running), [])"
  using ann_begins [OF ann_begins [OF ann_conc_reached anns_accounts(1,2)] anns_accounts(3,4)] by simp

text \<open>Then carl registers.\<close>

lemma reg_run_reach:
  assumes "reach I (reg_step D T) ((w, c, ts), [r])" and "reg_run now n r w (c_db c) = (r', w', d')"
  shows "reach I (reg_step D T) ((w', c\<lparr>c_db := d'\<rparr>, ts), [r'])"
  using assms
proof (induction n arbitrary: r w c)
  case (Suc n)
  obtain r1 w1 d1 where 1: "reg_stmt now r w (c_db c) = (r1, w1, d1)" by (metis surj_pair)
  with Suc.prems(2) have rest: "reg_run now n r1 w1 d1 = (r', w', d')" by simp
  have "reach I (reg_step D T) ((w1, c\<lparr>c_db := d1\<rparr>, ts), [r1])"
    using reach_step [OF Suc.prems(1) reg_move [of 0 _ _ now _ r1 w1 d1]] 1 by (simp add: reg_free_def)
  from Suc.IH [OF this] rest show ?case by simp
next
  case 0
  then have "r' = r" "w' = w" "c\<lparr>c_db := d'\<rparr> = c" by (cases c, auto)+
  with 0(1) show ?case by (simp only:)
qed

definition carl_at :: "nat \<Rightarrow> redis registration \<times> redis \<times> database" where
  "carl_at n = reg_run 7 n (start_registration sample_glibs sample_gserver sample_rv carl_request) empty_redis (c_db ann_conn)"

definition carl_user :: User where
  "carl_user = (user_row 7 (sample_params ''carl'' ''carl@x.org''))\<lparr>usr_FullName := ''Carl''\<rparr>"

abbreviation carl_conn :: "nat \<Rightarrow> conn" where
  "carl_conn n \<equiv> (ticked (ticked (ticked (ticked ann_conn))))\<lparr>c_db := snd (snd (carl_at n))\<rparr>"

lemma carl_program:
  "reach program_started (program_step sample_retry sample_asynq good_env)
     ((fst (snd (carl_at n)), carl_conn n, two_running), [fst (carl_at n)])"
proof (rule reg_run_reach)
  have "program_started ((empty_redis, empty_conn, []), [])"
    by (simp add: program_started_def reg_started_def bank_started_def empty_conn_def untouched_def empty_redis_def)
  from reach_step [OF ann_two_running [of program_started, OF this] reg_arrive [of sample_gserver]]
  show "reach program_started (program_step sample_retry sample_asynq good_env)
      ((empty_redis, ticked (ticked (ticked (ticked ann_conn))), two_running),
       [start_registration sample_glibs sample_gserver sample_rv carl_request])"
    by (simp add: sample_gserver_def)
qed (simp add: carl_at_def)

lemmas carl_reached = reach_started [OF carl_program]

lemma carl_steps:
  "fst (carl_at 3) = CommitUser sample_gserver carl_user" "fst (carl_at 4) = Registered sample_gserver carl_user (Inr (ConvertUser carl_user))"
  "snd (snd (carl_at 3)) = c_db ann_conn"
proof -
  have "start_registration sample_glibs sample_gserver sample_rv carl_request = BeginUser sample_gserver
      \<lparr>cup_Username = ''carl'', cup_HashedPassword = ''$2a$secret'', cup_FullName = ''Carl'', cup_Email = ''carl@x.org''\<rparr>"
  proof -
    have "validateCreateUserRequest (gl_parse_address sample_glibs) carl_request = []" by code_simp
    moreover have "HashPassword (gl_bcrypt sample_glibs) (rv_salt sample_rv) (cr_Password carl_request) = Inr ''$2a$secret''" by code_simp
    ultimately show ?thesis by (simp add: start_registration_def carl_request_def)
  qed
  moreover have "sql_create_user \<lparr>cup_Username = ''carl'', cup_HashedPassword = ''$2a$secret'', cup_FullName = ''Carl'', cup_Email = ''carl@x.org''\<rparr>
      7 (c_db ann_conn) = (Inr [carl_user], (c_db ann_conn)\<lparr>users := users (c_db ann_conn) @ [carl_user]\<rparr>)"
    by (rule commit_is_insert) (code_simp)+
  moreover have "fst (send_verify_email sample_gserver carl_user empty_redis) = None" by code_simp
  ultimately show "fst (carl_at 3) = CommitUser sample_gserver carl_user"
    "fst (carl_at 4) = Registered sample_gserver carl_user (Inr (ConvertUser carl_user))" "snd (snd (carl_at 3)) = c_db ann_conn"
    by (auto simp: carl_at_def eval_nat_numeral split: prod.split)
qed

theorem interleaved_transactions_witness:
  "\<exists>w c r. reach reg_started (program_step sample_retry sample_asynq good_env) ((w, c, two_running), [r]) \<and>
     reg_answer r = None \<and> (\<Sum>a \<leftarrow> accounts (c_db c). sint (acc_Balance a)) = 0 \<and>
     (\<exists>a. row_of acc_ID 1 (accounts (c_db c)) = Some a \<and> acc_Owner a = ''ann'')"
proof -
  note reached = carl_reached [of 3]
  note safe = interleaved_transactions_are_safe [OF reached]
  have "\<exists>a b. row_of acc_ID (trq_FromAccountID self_transfer) (accounts (c_db (carl_conn 3))) = Some a \<and>
      row_of acc_ID (trq_ToAccountID self_transfer) (accounts (c_db (carl_conn 3))) = Some b \<and>
      acc_Owner a = pl_Username access_payload \<and> acc_Currency a = trq_Currency self_transfer \<and> acc_Currency b = trq_Currency self_transfer"
    using safe by simp
  then have "\<exists>a. row_of acc_ID 1 (accounts (c_db (carl_conn 3))) = Some a \<and> acc_Owner a = ''ann''"
    by (auto simp: self_transfer_def access_payload_def)
  moreover have "reg_answer (fst (carl_at 3)) = None" by (simp add: carl_steps)
  ultimately show ?thesis using safe reached by blast
qed

text \<open>Once carl is registered the worker runs the task: it has left the queue, completed.\<close>

lemma carl_worked:
  "\<exists>w c. reach program_started (program_step sample_retry sample_asynq good_env) ((w, c, two_running), [fst (carl_at 4)]) \<and>
     rd_tasks w = [] \<and> rd_retry w = [] \<and> rd_archived w = []"
proof -
  let ?w = "fst (snd (carl_at 4))" and ?t = "hd (rd_tasks (fst (snd (carl_at 4))))"
  have w: "rd_tasks ?w = [] @ ?t # []" "rd_retry ?w = []" "rd_archived ?w = []" by code_simp+
  have "fst (fst (run_task sample_retry sample_asynq good_env ?t 0 (carl_conn 4))) = Completed" by code_simp
  then obtain logs c where run: "run_task sample_retry sample_asynq good_env ?t 0 (carl_conn 4) = ((Completed, logs), c)"
    by (metis prod.collapse)
  from reach_step [OF carl_program [of 4] reg_work [where T = "worker_step sample_retry sample_asynq good_env", OF work_first [OF w(1) run]]] w(2,3) show ?thesis
    by (intro exI) (auto)
qed

theorem registrations_are_safe_witness:
  "\<exists>w c t. reach program_started (program_step sample_retry sample_asynq good_env) ((w, c, two_running), [fst (carl_at 4)]) \<and>
     rd_tasks w = [] \<and> t \<in> set (rd_completed w) \<and> task_for sample_asynq ''carl'' verify_email_opts t \<and>
     ''carl'' \<in> usr_Username ` set (users (c_db c))"
proof -
  obtain w c where w: "reach program_started (program_step sample_retry sample_asynq good_env) ((w, c, two_running), [fst (carl_at 4)])"
    "rd_tasks w = []" "rd_retry w = []" "rd_archived w = []"
    using carl_worked by blast
  have "db_errors good_env" by (simp add: db_errors_def good_env_def)
  from registrations_are_safe [OF w(1) sample_json_ok sample_retry_ok this] w carl_steps(2) show ?thesis
    by (auto simp: carl_user_def user_row_def sample_params_def)
qed

theorem some_transaction_proceeds_witness:
  "(\<exists>j < 2. row_free two_running j ann_running) \<and>
   reg_free [fst (carl_at 3)] 0 (snd (snd (carl_at 3))) \<and> reg_left (fst (carl_at 3)) = 1"
proof -
  note proceeds = some_transaction_proceeds [OF carl_reached [of 3], of 0]
  have "\<exists>i < length two_running. \<exists>p req x. two_running ! i = Running p req x" by (intro exI [of _ 0]) simp
  with proceeds obtain j p req y where "j < length two_running" "two_running ! j = Running p req y" "row_free two_running j y"
    by blast
  moreover from this(1) have "j = 0 \<or> j = 1" by auto
  ultimately have "j < 2 \<and> row_free two_running j ann_running" by auto
  moreover have "\<exists>i < length [fst (carl_at 3)]. reg_answer ([fst (carl_at 3)] ! i) = None" by (simp add: carl_steps)
  with proceeds have "reg_free [fst (carl_at 3)] 0 (c_db (carl_conn 3))" by auto
  ultimately show ?thesis by (auto simp: carl_steps)
qed

text \<open>The first transfer runs all its statements; its commit is the transfer.\<close>

lemma tx_run_reach:
  assumes "reach I (reg_step D T) ((w, c, [Running p req x]), [])" and "tx_run n x (c_db c) = (x', d')"
  shows "reach I (reg_step D T) ((w, c\<lparr>c_db := d'\<rparr>, [Running p req x']), [])"
  using assms
proof (induction n arbitrary: x c)
  case (Suc n)
  obtain x1 d1 where 1: "tx_stmt x (c_db c) = (x1, d1)" by fastforce
  with Suc.prems(2) have rest: "tx_run n x1 d1 = (x', d')" by simp
  have "reach I (reg_step D T) ((w, c\<lparr>c_db := d1\<rparr>, [Running p req x1]), [])"
    using quiet_step [OF Suc.prems(1) conc_statement [of 0 _ p req x _ x1 d1, OF _ _ _ 1]] by (simp add: row_free_def)
  from Suc.IH [OF this] rest show ?case by simp
next
  case 0
  then have "x' = x" "c\<lparr>c_db := d'\<rparr> = c" by (cases c, auto)+
  with 0(1) show ?case by (simp only:)
qed

definition ann_ran :: "txn \<times> database" where
  "ann_ran = tx_run 5 ann_running (c_db ann_conn)"

theorem transactions_refine_witness:
  "\<exists>c. atomic_bank_step (DistributeTaskSendVerifyEmail sample_asynq) (worker_step sample_retry sample_asynq good_env) (empty_redis, c, [RunTx access_payload self_transfer])
     (empty_redis, c\<lparr>c_db := tx_view (fst ann_ran) (snd ann_ran)\<rparr>, [Answered (StatusOK, TransferBody (tn_result (fst ann_ran)))]) \<and>
   map acc_Balance (accounts (tx_view (fst ann_ran) (snd ann_ran))) = [0] \<and>
   map ent_Amount (entries (tx_view (fst ann_ran) (snd ann_ran))) = [-5, 5]"
proof -
  let ?D = "DistributeTaskSendVerifyEmail sample_asynq" and ?T = "worker_step sample_retry sample_asynq good_env"
  let ?c = "(ticked (ticked ann_conn))\<lparr>c_db := snd ann_ran\<rparr>"
  let ?s = "(empty_redis, ?c, [Running access_payload self_transfer (fst ann_ran)])"
  let ?s' = "(empty_redis, ?c\<lparr>c_db := tx_view (fst ann_ran) (snd ann_ran)\<rparr>, [Call (Answered (StatusOK, TransferBody (tn_result (fst ann_ran))))])"
  have begun: "reach reg_started (reg_step ?D ?T) ((empty_redis, ticked (ticked ann_conn), [Running access_payload self_transfer ann_running]), [])"
    using ann_begins [OF ann_conc_reached [of reg_started] anns_accounts(1,2)]
    by (simp add: reg_started_def bank_started_def empty_conn_def)
  have reached: "reach reg_started (reg_step ?D ?T) (?s, [])"
    by (rule tx_run_reach [OF begun, of 5]) (simp add: ann_ran_def)
  have vals: "tn_pc (fst ann_ran) = CommitTx" "map acc_Balance (accounts (tx_view (fst ann_ran) (snd ann_ran))) = [0]"
    "map ent_Amount (entries (tx_view (fst ann_ran) (snd ann_ran))) = [-5, 5]"
    by code_simp+
  have "bank_conc_step ?s ?s'"
    using conc_commit [of 0 "[Running access_payload self_transfer (fst ann_ran)]" access_payload self_transfer "fst ann_ran"
        "(StatusOK, TransferBody (tn_result (fst ann_ran)))" _ empty_redis ?c] vals(1) by simp
  then have "reg_step ?D ?T (?s, []) (?s', [])" by (rule reg_bank) (simp add: keys_free_def)
  from transactions_refine_atomic_transfers [OF reached this] vals(2,3) show ?thesis
    by (intro exI [of _ ?c]) (simp add: atomic_view_def)
qed

end
