(* ===== verification/Concurrent_History.thy ===== *)
theory Concurrent_History
  imports Concurrent_Program
begin

text \<open>
  What lasts in the program whose requests and transactions are interleaved: the record of the past,
  the constraints of the schema, and a session until it expires.
\<close>

subsection \<open>The record of the past\<close>

text \<open>What was so in one state, seen from every state after it.\<close>

abbreviation after :: "asynq_retry \<Rightarrow> asynq_lib \<Rightarrow> env \<Rightarrow> redis reg_state \<Rightarrow> redis reg_state \<Rightarrow> bool" where
  "after P A E s \<equiv> reach (\<lambda>s'. s' = s) (program_step P A E)"

interpretation past: invariant_of "\<lambda>s'. s' = s" "program_step P A E" "\<lambda>s'. grows (tables s) (tables s')" for s P A E
  by unfold_locales (auto intro: grows_trans reg_step_grows)

lemma after_step: "program_step P A E s s' \<Longrightarrow> after P A E s s'"
  by (erule reach_step [rotated]) (simp add: reach_init)

lemma after_reached: "after P A E s s' \<Longrightarrow> reach reg_started (program_step P A E) s \<Longrightarrow> reach reg_started (program_step P A E) s'"
  by (induction rule: reach.induct) (auto intro: reach_step)

text \<open>
  C16: whatever is served, with the statements of all transactions interleaved and whatever faults, the
  committed record of the past is never rewritten: entries, transfers and sessions are only appended, no
  user or account disappears, and no account changes its id, owner, currency or date of creation.
\<close>

theorem past_is_append_only:
  assumes "after P A E ((w, c, ts), rs) ((w', c', ts'), rs')"
  shows "prefix (entries (c_db c)) (entries (c_db c')) \<and> prefix (transfers (c_db c)) (transfers (c_db c')) \<and>
    prefix (sessions (c_db c)) (sessions (c_db c')) \<and>
    prefix (map usr_Username (users (c_db c))) (map usr_Username (users (c_db c'))) \<and>
    prefix (map (\<lambda>a. (acc_ID a, acc_Owner a, acc_Currency a, acc_CreatedAt a)) (accounts (c_db c)))
      (map (\<lambda>a. (acc_ID a, acc_Owner a, acc_Currency a, acc_CreatedAt a)) (accounts (c_db c')))"
  using past.reach_inv [OF assms] by (simp add: grows_columns)

theorem past_witness:
  "prefix (map usr_Username (users (c_db ann_conn))) (map usr_Username (users (snd (snd (carl_at 4))))) \<and>
   map usr_Username (users (snd (snd (carl_at 4)))) = [''ann'', ''carl'']"
proof -
  let ?after = "after sample_retry sample_asynq good_env" and ?c = "ticked (ticked (ticked (ticked ann_conn)))"
  let ?s = "((empty_redis, ?c, two_running), [start_registration sample_glibs sample_gserver sample_rv carl_request])"
  have "?after ?s ((fst (snd (carl_at 4)), carl_conn 4, two_running), [fst (carl_at 4)])"
    by (rule reg_run_reach [OF reach_init]) (simp_all add: carl_at_def)
  from past_is_append_only [OF this] show ?thesis by (simp, code_simp)
qed

subsection \<open>The constraints of the schema\<close>

text \<open>
  C32: in every reachable state of the interleaved program names, emails, ids and the pair of owner and
  currency are unique, every account is in a supported currency and belongs to a user, and every session
  belongs to a user.
\<close>

theorem interleaved_accounts_valid:
  assumes "reach reg_started (program_step P A E0) ((w, c, ts), rs)"
  shows "distinct (map usr_Username (users (c_db c))) \<and> distinct (map usr_Email (users (c_db c))) \<and>
    distinct (map acc_ID (accounts (c_db c))) \<and>
    distinct (map (\<lambda>a. (acc_Owner a, acc_Currency a)) (accounts (c_db c))) \<and>
    (\<forall>a \<in> set (accounts (c_db c)). IsSupportCurrency (acc_Currency a) \<and> has_key usr_Username (acc_Owner a) (users (c_db c))) \<and>
    (\<forall>s \<in> set (sessions (c_db c)). has_key usr_Username (ses_Username s) (users (c_db c)))"
proof -
  have "bank_inv (c_db c)"
    using reg_invD(1) [OF worked.registrations.reach_inv [OF assms]] by (simp add: conc_inv_def)
  note inv = bank_invD [OF this]
  show ?thesis
    using inv(1,6) by (auto simp: wf_db_def keys_unique_def fks_ok_def currencies_ok_def has_key_iff)
qed

theorem interleaved_accounts_witness:
  "distinct (map usr_Email (users (snd (snd (carl_at 4)))))"
  using interleaved_accounts_valid [OF carl_reached [of 4]] by simp

subsection \<open>The life time of a session\<close>

text \<open>A login writes a session only: it disturbs nobody's transaction.\<close>

lemma loginUser_writes:
  assumes "api_loginUser L srv E rv ua ip decoded c = (resp, c1)" and c: "c_tx c = Autocommit"
  shows "c_db c1 = c_db c \<or> (\<exists>arg now. c_db c1 = snd (sql_create_session arg now (c_db c)))"
proof -
  from assms(1) consider "c1 = c" | n r where "GetUser E n c = (r, c1)"
    | n u c2 arg r where "GetUser E n c = (Inr u, c2)" "CreateSession E arg c2 = (r, c1)"
    by (auto simp: api_loginUser_def errResponse_def split: http_splits)
  then show ?thesis
  proof cases
    case (3 n u c2 arg r)
    with CreateSession_writes [of c2 E arg r c1] user_seen [OF 3(1) c] c show ?thesis by auto
  qed (use c in \<open>auto dest!: user_seen\<close>)
qed

lemma login_undisturbing:
  assumes reached: "reach reg_started (program_step P A E0) ((w, c, ts), rs)"
    and login: "api_loginUser L srv E rv ua ip decoded c = (resp, c1)"
  shows "reach reg_started (program_step P A E0) ((w, c1, ts), rs)"
proof (rule reach_step [OF reached reg_bank])
  note inv = worked.registrations.reach_inv [OF reached]
  have "c_tx c = Autocommit" using reg_invD(1) [OF inv] by (simp add: conc_inv_def)
  note W = loginUser_writes [OF login this]
  have "serve L srv E rv h (LoginUserReq ua ip decoded) c = (resp, c1)" for h using login by (simp add: serve_def)
  from conc_other [OF bank_step.http_request [OF this] reads_leave_alone [OF create_session_frame(1) [OF W]]]
  show "bank_conc_step (w, c, ts) (w, c1, ts)" .
  have "users (c_db c1) = users (c_db c)" using W by (auto simp: sql_create_session_def Let_def)
  with reg_invD(2) [OF inv] show "keys_free rs (c_db c1)" by (simp add: keys_free_def)
qed

text \<open>
  C18: whatever is served after a login, with the statements of all transactions interleaved and
  whatever faults (a change of the user's password included), the refresh token keeps buying access
  tokens until it or its session expires (the latter is stored to the microsecond): no request blocks,
  changes or removes a session.
\<close>

theorem session_lives_until_expiry:
  assumes reached: "reach reg_started (program_step P A E0) ((w, c, ts), rs)"
    and maker: "maker_ok (srv_tokenMaker srv)"
    and login: "api_loginUser L srv E rv ua ip decoded c = ((StatusOK, LoginBody resp), c1)"
    and later: "after P A E0 ((w, c1, ts), rs) ((w2, d, ts2), rs2)"
    and "no_faults E'" and "lr_RefreshToken resp \<noteq> ''''"
    and "rv_verify_now rv' \<le> lr_RefreshTokenExpiredAt resp" and "rv_now rv' \<le> timestamptz (lr_RefreshTokenExpiredAt resp)"
    and "mk_CreateToken (srv_tokenMaker srv) (rv_access rv') (ur_Username (lr_User resp)) (AccessTokenDuration (srv_config srv))
      = Inr (at, ap)"
  shows "api_reNewAccessToken L srv E' rv' (Inr \<lparr>rnr_RefreshToken = lr_RefreshToken resp\<rparr>) d =
    ((StatusOK, RenewBody \<lparr>rn_AccessToken = at, rn_AccessTokenExpiredAt = pl_ExpiredAt ap\<rparr>), ticked d)"
proof -
  have auto: "c_tx c' = Autocommit"
    if "reach reg_started (program_step P A E0) ((w', c', ts'), rs')" for w' c' ts' rs'
    using reg_invD(1) [OF worked.registrations.reach_inv [OF that]] by (simp add: conc_inv_def)
  have d: "c_tx d = Autocommit" by (rule auto [OF after_reached [OF later login_undisturbing [OF reached login]]])
  from login auto [OF reached] obtain session where
    "row_of ses_ID (lr_SessionID resp) (sessions (c_db c1)) = Some session"
    by (rule loginUser_ok) auto
  moreover have "grows (c_db c1) (c_db d)" using past.reach_inv [OF later] by simp
  ultimately have "row_of ses_ID (lr_SessionID resp) (sessions (c_db d)) = row_of ses_ID (lr_SessionID resp) (sessions (c_db c1))"
    using grows_session by fastforce
  from login_can_be_renewed [OF auto [OF reached] maker login d assms(5,6) this assms(7-9)] show ?thesis .
qed

text \<open>ann logs in, then changes the password over gRPC; the refresh token still buys an access token.\<close>

theorem session_lives_witness:
  "\<exists>c1 d. snd (api_loginUser sample_libs sample_server good_env sample_rv ''curl'' ''10.0.0.1''
       (Inr \<lparr>lur_UserName = ''ann'', lur_Password = ''secret''\<rparr>) ann_created) = c1 \<and>
     snd (gapi_UpdateUser sample_glibs sample_gserver good_env sample_rv ann_ctx ann_update c1) = d \<and>
     api_reNewAccessToken sample_libs sample_server good_env (sample_rv\<lparr>rv_access := sample_renewed\<rparr>)
       (Inr \<lparr>rnr_RefreshToken = ''refresh.ann''\<rparr>) d =
     ((StatusOK, RenewBody \<lparr>rn_AccessToken = ''renewed.ann'', rn_AccessTokenExpiredAt = 3900\<rparr>), ticked d)"
proof -
  let ?resp = "ann_login\<lparr>lr_User := newUserResponse (user_row 0 (sample_params ''ann'' ''ann@x.org'')\<lparr>usr_FullName := ''Ann''\<rparr>)\<rparr>"
  let ?step = "program_step sample_retry sample_asynq good_env"
  obtain c1 where login: "api_loginUser sample_libs sample_server good_env sample_rv ''curl'' ''10.0.0.1''
      (Inr \<lparr>lur_UserName = ''ann'', lur_Password = ''secret''\<rparr>) ann_created = ((StatusOK, LoginBody ?resp), c1)"
    using ann_logs_in by (metis prod.collapse)
  obtain r d where upd: "gapi_UpdateUser sample_glibs sample_gserver good_env sample_rv ann_ctx ann_update c1 = (r, d)"
    by fastforce
  obtain q where made: "serve sample_libs sample_server good_env sample_rv '''' (CreateUserReq (Inr ann_registers)) empty_conn = (q, ann_created)"
    by (metis ann_created_def prod.collapse)
  have "reach reg_started ?step ((empty_redis, empty_conn, []), [])"
    by (rule reach_init) (simp add: reg_started_def bank_started_def empty_conn_def)
  then have reached: "reach reg_started ?step ((empty_redis, ann_created, []), [])"
    by (rule quiet_step) (rule conc_other [OF bank_step.http_request [OF made]], simp add: leaves_alone_def)
  have "bank_conc_step (empty_redis, c1, []) (empty_redis, d, [])"
    by (rule conc_other [OF bank_step.update_user [OF upd]]) (simp add: leaves_alone_def)
  then have "?step ((empty_redis, c1, []), []) ((empty_redis, d, []), [])" by (rule reg_bank) (simp add: keys_free_def)
  then have "after sample_retry sample_asynq good_env ((empty_redis, c1, []), []) ((empty_redis, d, []), [])"
    by (rule after_step)
  from session_lives_until_expiry [OF reached sample_maker_ok login this good_env_simps(1),
      of "sample_rv\<lparr>rv_access := sample_renewed\<rparr>"] login upd show ?thesis
    using sample_created(3)
    by (auto simp: ann_login_def sample_rv_def newUserResponse_def user_row_def sample_params_def renewed_payload_def timestamptz_def)
qed

end
