(* ===== verification/Messages.thy ===== *)
theory Messages
  imports Gapi_Props
begin

text \<open>
  The generated messages (pb/*.pb.go) as the pointers they are: a getter of a nil message returns the
  zero value, an access to a field of a nil message panics. The handlers of Gapi take messages that are
  not nil, as the gRPC library and the gateway always make them; here is what they do with nil, which
  is decided by their first reads of the request, those of the validators. A timestamp set by a handler
  is never nil, so a message holds the instant and its getter may return nil only for a nil message.
\<close>

subsection \<open>Pointers\<close>

datatype 'a go = Returns 'a | Panics

fun go_bind :: "'a go \<Rightarrow> ('a \<Rightarrow> 'b go) \<Rightarrow> 'b go" where
  "go_bind Panics f = Panics"
| "go_bind (Returns x) f = f x"

fun deref :: "('m \<Rightarrow> 'a) \<Rightarrow> 'm option \<Rightarrow> 'a go" where
  "deref field None = Panics"
| "deref field (Some m) = Returns (field m)"

fun getter :: "('m \<Rightarrow> 'a) \<Rightarrow> 'a \<Rightarrow> 'm option \<Rightarrow> 'a" where
  "getter field zero None = zero"
| "getter field zero (Some m) = field m"

subsection \<open>Requests\<close>

definition CreateUserRequest_GetUsername :: "CreateUserRequest option \<Rightarrow> string" where
  "CreateUserRequest_GetUsername = getter cr_Username ''''"

definition CreateUserRequest_GetFullName :: "CreateUserRequest option \<Rightarrow> string" where
  "CreateUserRequest_GetFullName = getter cr_FullName ''''"

definition CreateUserRequest_GetEmail :: "CreateUserRequest option \<Rightarrow> string" where
  "CreateUserRequest_GetEmail = getter cr_Email ''''"

definition CreateUserRequest_GetPassword :: "CreateUserRequest option \<Rightarrow> string" where
  "CreateUserRequest_GetPassword = getter cr_Password ''''"

definition LoginUserRequest_GetUsername :: "LoginUserRequest option \<Rightarrow> string" where
  "LoginUserRequest_GetUsername = getter lq_Username ''''"

definition LoginUserRequest_GetPassword :: "LoginUserRequest option \<Rightarrow> string" where
  "LoginUserRequest_GetPassword = getter lq_Password ''''"

definition UpdateUserRequest_GetUsername :: "UpdateUserRequest option \<Rightarrow> string" where
  "UpdateUserRequest_GetUsername = getter uq_Username ''''"

definition UpdateUserRequest_GetFullName :: "UpdateUserRequest option \<Rightarrow> string" where
  "UpdateUserRequest_GetFullName = getter GetFullName ''''"

definition UpdateUserRequest_GetEmail :: "UpdateUserRequest option \<Rightarrow> string" where
  "UpdateUserRequest_GetEmail = getter GetEmail ''''"

definition UpdateUserRequest_GetPassword :: "UpdateUserRequest option \<Rightarrow> string" where
  "UpdateUserRequest_GetPassword = getter GetPassword ''''"

text \<open>\<open>Reset\<close> assigns the zero message through the pointer.\<close>

fun reset :: "'m \<Rightarrow> 'm option \<Rightarrow> 'm option go" where
  "reset zero None = Panics"
| "reset zero (Some m) = Returns (Some zero)"

definition CreateUserRequest_Reset :: "CreateUserRequest option \<Rightarrow> CreateUserRequest option go" where
  "CreateUserRequest_Reset = reset \<lparr>cr_Username = '''', cr_FullName = '''', cr_Email = '''', cr_Password = ''''\<rparr>"

definition LoginUserRequest_Reset :: "LoginUserRequest option \<Rightarrow> LoginUserRequest option go" where
  "LoginUserRequest_Reset = reset \<lparr>lq_Username = '''', lq_Password = ''''\<rparr>"

definition UpdateUserRequest_Reset :: "UpdateUserRequest option \<Rightarrow> UpdateUserRequest option go" where
  "UpdateUserRequest_Reset = reset \<lparr>uq_Username = '''', uq_FullName = None, uq_Email = None, uq_Password = None\<rparr>"

subsection \<open>Responses\<close>

text \<open>\<open>CreateUserResponse\<close> and \<open>UpdateUserResponse\<close> hold one message; a nil response has a nil user.\<close>

definition User_GetUsername :: "pb_User option \<Rightarrow> string" where
  "User_GetUsername = getter pu_Username ''''"

definition User_GetFullName :: "pb_User option \<Rightarrow> string" where
  "User_GetFullName = getter pu_FullName ''''"

definition User_GetEmail :: "pb_User option \<Rightarrow> string" where
  "User_GetEmail = getter pu_Email ''''"

definition User_GetPasswordChangedAt :: "pb_User option \<Rightarrow> instant option" where
  "User_GetPasswordChangedAt = map_option pu_PasswordChangedAt"

definition User_GetCreatedAt :: "pb_User option \<Rightarrow> instant option" where
  "User_GetCreatedAt = map_option pu_CreatedAt"

definition LoginUserResponse_GetUser :: "LoginUserResponse option \<Rightarrow> pb_User option" where
  "LoginUserResponse_GetUser = map_option ls_User"

definition LoginUserResponse_GetSessionId :: "LoginUserResponse option \<Rightarrow> string" where
  "LoginUserResponse_GetSessionId = getter ls_SessionId ''''"

definition LoginUserResponse_GetAccessToken :: "LoginUserResponse option \<Rightarrow> string" where
  "LoginUserResponse_GetAccessToken = getter ls_AccessToken ''''"

definition LoginUserResponse_GetRefreshToken :: "LoginUserResponse option \<Rightarrow> string" where
  "LoginUserResponse_GetRefreshToken = getter ls_RefreshToken ''''"

definition LoginUserResponse_GetAccessTokenExpiresAt :: "LoginUserResponse option \<Rightarrow> instant option" where
  "LoginUserResponse_GetAccessTokenExpiresAt = map_option ls_AccessTokenExpiresAt"

definition LoginUserResponse_GetRefreshTokenExpiresAt :: "LoginUserResponse option \<Rightarrow> instant option" where
  "LoginUserResponse_GetRefreshTokenExpiresAt = map_option ls_RefreshTokenExpiresAt"

subsection \<open>The validators on pointers\<close>

definition ptr_validateCreateUserRequest :: "(string \<Rightarrow> bool) \<Rightarrow> CreateUserRequest option \<Rightarrow> field_violation list" where
  "ptr_validateCreateUserRequest pa req =
     violation ''username'' (ValidateUsername (CreateUserRequest_GetUsername req)) @
     violation ''password'' (ValidatePassword (CreateUserRequest_GetPassword req)) @
     violation ''full_name'' (ValidateFullName (CreateUserRequest_GetFullName req)) @
     violation ''email'' (ValidateEmail pa (CreateUserRequest_GetEmail req))"

definition ptr_validateLoginUserRequest :: "LoginUserRequest option \<Rightarrow> field_violation list" where
  "ptr_validateLoginUserRequest req =
     violation ''username'' (ValidateUsername (LoginUserRequest_GetUsername req)) @
     violation ''password'' (ValidatePassword (LoginUserRequest_GetPassword req))"

text \<open>\<open>req.Password\<close>, \<open>req.FullName\<close> and \<open>req.Email\<close> are accesses, not getters.\<close>

definition ptr_validateUpdateUserRequest ::
  "(string \<Rightarrow> bool) \<Rightarrow> UpdateUserRequest option \<Rightarrow> field_violation list go"
where
  "ptr_validateUpdateUserRequest pa req =
     (let v1 = violation ''username'' (ValidateUsername (UpdateUserRequest_GetUsername req))
      in go_bind (deref uq_Password req) (\<lambda>password.
     (let v2 = v1 @ (if password \<noteq> None then violation ''password'' (ValidatePassword (UpdateUserRequest_GetPassword req)) else [])
      in go_bind (deref uq_FullName req) (\<lambda>fullName.
     (let v3 = v2 @ (if fullName \<noteq> None then violation ''full_name'' (ValidateFullName (UpdateUserRequest_GetFullName req)) else [])
      in go_bind (deref uq_Email req) (\<lambda>email.
         Returns (v3 @ (if email \<noteq> None then violation ''email'' (ValidateEmail pa (UpdateUserRequest_GetEmail req)) else []))))))))"

lemmas getter_defs =
  CreateUserRequest_GetUsername_def CreateUserRequest_GetFullName_def CreateUserRequest_GetEmail_def
  CreateUserRequest_GetPassword_def LoginUserRequest_GetUsername_def LoginUserRequest_GetPassword_def
  UpdateUserRequest_GetUsername_def UpdateUserRequest_GetFullName_def UpdateUserRequest_GetEmail_def
  UpdateUserRequest_GetPassword_def

text \<open>On messages that are not nil they are the validators of Gapi.\<close>

lemma ptr_validators:
  "ptr_validateCreateUserRequest pa (Some creq) = validateCreateUserRequest pa creq"
  "ptr_validateLoginUserRequest (Some lreq) = validateLoginUserRequest lreq"
  "ptr_validateUpdateUserRequest pa (Some ureq) = Returns (validateUpdateUserRequest pa ureq)"
  by (simp_all add: ptr_validateCreateUserRequest_def validateCreateUserRequest_def ptr_validateLoginUserRequest_def
      validateLoginUserRequest_def ptr_validateUpdateUserRequest_def validateUpdateUserRequest_def getter_defs Let_def)

text \<open>
  A nil message is refused by \<open>CreateUser\<close> and \<open>LoginUser\<close> with a violation of every field, before
  anything of it is dereferenced; \<open>UpdateUser\<close> panics on it, and on nothing else. (Only an authorized
  caller gets that far, and neither the gRPC library nor the gateway passes nil.)
\<close>

theorem nil_messages:
  "map fv_Field (ptr_validateCreateUserRequest pa None) = [''username'', ''password'', ''full_name'', ''email'']"
  "map fv_Field (ptr_validateLoginUserRequest None) = [''username'', ''password'']"
  "ptr_validateUpdateUserRequest pa req = Panics \<longleftrightarrow> req = None"
proof -
  have short: "ValidateUsername '''' \<noteq> None" "ValidatePassword '''' \<noteq> None" "ValidateFullName '''' \<noteq> None" "ValidateEmail pa '''' \<noteq> None"
    by (simp_all add: ValidateUsername_ok ValidatePassword_ok ValidateFullName_ok ValidateEmail_ok)
  then show "map fv_Field (ptr_validateCreateUserRequest pa None) = [''username'', ''password'', ''full_name'', ''email'']"
    "map fv_Field (ptr_validateLoginUserRequest None) = [''username'', ''password'']"
    by (auto simp: ptr_validateCreateUserRequest_def ptr_validateLoginUserRequest_def getter_defs violation_def fieldViolation_def)
  show "ptr_validateUpdateUserRequest pa req = Panics \<longleftrightarrow> req = None"
    by (cases req) (simp_all add: ptr_validators, simp add: ptr_validateUpdateUserRequest_def Let_def)
qed

text \<open>A request that was reset is refused as nil is, and may be dereferenced.\<close>

lemma reset_reads_like_nil:
  "CreateUserRequest_Reset (Some creq) = Returns c \<Longrightarrow> ptr_validateCreateUserRequest pa c = ptr_validateCreateUserRequest pa None"
  "LoginUserRequest_Reset (Some lreq) = Returns l \<Longrightarrow> ptr_validateLoginUserRequest l = ptr_validateLoginUserRequest None"
  "UpdateUserRequest_Reset (Some ureq) = Returns u \<Longrightarrow>
     \<exists>v. ptr_validateUpdateUserRequest pa u = Returns v \<and> map fv_Field v = [''username'']"
proof -
  have "ValidateUsername '''' \<noteq> None" by (simp add: ValidateUsername_ok)
  then show "UpdateUserRequest_Reset (Some ureq) = Returns u \<Longrightarrow>
     \<exists>v. ptr_validateUpdateUserRequest pa u = Returns v \<and> map fv_Field v = [''username'']"
    by (auto simp: UpdateUserRequest_Reset_def ptr_validateUpdateUserRequest_def getter_defs Let_def violation_def fieldViolation_def)
qed (auto simp: CreateUserRequest_Reset_def LoginUserRequest_Reset_def ptr_validateCreateUserRequest_def
    ptr_validateLoginUserRequest_def getter_defs)

end
