(* ===== verification/Secrets.thy ===== *)
theory Secrets
  imports Interleaved
begin

text \<open>
  Password hashes stay in the database. Two connections are alike if they differ in the stored hashes
  only; everything the servers do, but the check of a password, gives the same answers on both and
  leaves them alike: no answer, error or page tells anything about a stored hash.
\<close>

subsection \<open>Databases that differ in hashes\<close>

definition hide_hash :: "User \<Rightarrow> User" where
  "hide_hash u = u\<lparr>usr_HashedPassword := ''''\<rparr>"

definition alike_db :: "database \<Rightarrow> database \<Rightarrow> bool" where
  "alike_db d d' \<longleftrightarrow> map hide_hash (users d) = map hide_hash (users d') \<and> d\<lparr>users := []\<rparr> = d'\<lparr>users := []\<rparr>"

definition alike :: "conn \<Rightarrow> conn \<Rightarrow> bool" where
  "alike c c' \<longleftrightarrow> alike_db (c_db c) (c_db c') \<and> c_tx c' = c_tx c \<and> c_tick c' = c_tick c"

abbreviation same_user :: "User \<Rightarrow> User \<Rightarrow> bool" where
  "same_user u u' \<equiv> hide_hash u = hide_hash u'"

lemma same_user_fields:
  "same_user u u' \<longleftrightarrow> usr_Username u = usr_Username u' \<and> usr_FullName u = usr_FullName u' \<and>
     usr_PasswordChangedAt u = usr_PasswordChangedAt u' \<and> usr_Email u = usr_Email u' \<and> usr_CreatedAt u = usr_CreatedAt u'"
  by (cases u; cases u') (simp add: hide_hash_def)

lemma alike_db_tables:
  assumes "alike_db d d'"
  shows "accounts d' = accounts d" "entries d' = entries d" "transfers d' = transfers d" "sessions d' = sessions d"
    "accounts_seq d' = accounts_seq d" "entries_seq d' = entries_seq d" "transfers_seq d' = transfers_seq d"
  using assms by (cases d; cases d'; simp add: alike_db_def)+

lemma map_hidden:
  assumes "map hide_hash us = map hide_hash us'" and "\<And>u. f (hide_hash u) = f u"
  shows "map f us = map f us'"
  using arg_cong [OF assms(1), of "map f"] assms(2) by (simp add: comp_def)

lemma alike_db_keys:
  assumes "alike_db d d'"
  shows "has_key usr_Username n (users d') = has_key usr_Username n (users d)"
    and "has_key usr_Email m (users d') = has_key usr_Email m (users d)"
proof -
  have us: "map hide_hash (users d) = map hide_hash (users d')" using assms by (simp add: alike_db_def)
  have "set (map usr_Username (users d)) = set (map usr_Username (users d'))"
    by (rule arg_cong [OF map_hidden [OF us]]) (simp add: hide_hash_def)
  moreover have "set (map usr_Email (users d)) = set (map usr_Email (users d'))"
    by (rule arg_cong [OF map_hidden [OF us]]) (simp add: hide_hash_def)
  ultimately show "has_key usr_Username n (users d') = has_key usr_Username n (users d)"
    "has_key usr_Email m (users d') = has_key usr_Email m (users d)"
    by (simp_all add: has_key_iff)
qed

lemma row_hidden: "row_of usr_Username n (map hide_hash us) = map_option hide_hash (row_of usr_Username n us)"
  by (rule row_of_map_keep) (simp add: hide_hash_def)

lemma alike_db_row:
  "alike_db d d' \<Longrightarrow> map_option hide_hash (row_of usr_Username n (users d)) = map_option hide_hash (row_of usr_Username n (users d'))"
  by (metis alike_db_def row_hidden)

subsection \<open>Statements\<close>

definition blind_stmt :: "('r \<Rightarrow> 'r \<Rightarrow> bool) \<Rightarrow> 'r stmt \<Rightarrow> bool" where
  "blind_stmt R s \<longleftrightarrow> (\<forall>now d d'. alike_db d d' \<longrightarrow>
     rel_sum (=) (list_all2 R) (fst (s now d)) (fst (s now d')) \<and> alike_db (snd (s now d)) (snd (s now d')))"

lemma blind_stmt_eqI:
  assumes "\<And>now d d'. alike_db d d' \<Longrightarrow> fst (s now d') = fst (s now d) \<and> alike_db (snd (s now d)) (snd (s now d'))"
  shows "blind_stmt (=) s"
  using assms by (simp add: blind_stmt_def list.rel_eq sum.rel_eq)

lemma alike_db_update:
  assumes "alike_db d d'"
  shows "alike_db (d\<lparr>accounts := a\<rparr>) (d'\<lparr>accounts := a\<rparr>)" "alike_db (d\<lparr>entries := e\<rparr>) (d'\<lparr>entries := e\<rparr>)"
    "alike_db (d\<lparr>transfers := t\<rparr>) (d'\<lparr>transfers := t\<rparr>)" "alike_db (d\<lparr>sessions := s\<rparr>) (d'\<lparr>sessions := s\<rparr>)"
    "alike_db (d\<lparr>accounts_seq := i\<rparr>) (d'\<lparr>accounts_seq := i\<rparr>)" "alike_db (d\<lparr>entries_seq := i\<rparr>) (d'\<lparr>entries_seq := i\<rparr>)"
    "alike_db (d\<lparr>transfers_seq := i\<rparr>) (d'\<lparr>transfers_seq := i\<rparr>)"
    "map hide_hash us = map hide_hash us' \<Longrightarrow> alike_db (d\<lparr>users := us\<rparr>) (d'\<lparr>users := us'\<rparr>)"
  using assms by (cases d; cases d'; simp add: alike_db_def)+

lemma blind_statements:
  "blind_stmt (=) (sql_add_account_balance p1)" "blind_stmt (=) (sql_create_account p2)"
  "blind_stmt (=) (sql_create_entry p3)" "blind_stmt (=) (sql_create_transfer p4)" "blind_stmt (=) (sql_create_session p5)"
  "blind_stmt (=) (sql_get_account i)" "blind_stmt (=) (sql_list_accounts p6)" "blind_stmt (=) (sql_get_session u)"
  by (rule blind_stmt_eqI; auto simp: sql_add_account_balance_def sql_create_account_def sql_create_entry_def
      sql_create_transfer_def sql_create_session_def sql_get_account_def sql_list_accounts_def sql_get_session_def
      alike_db_tables alike_db_keys alike_db_update Let_def split: option.split)+

lemma alike_db_users: "alike_db d d' \<Longrightarrow> map hide_hash (users d') = map hide_hash (users d)"
  by (simp add: alike_db_def)

lemma blind_create_user: "blind_stmt (=) (sql_create_user p)"
  by (rule blind_stmt_eqI)
    (auto simp: sql_create_user_def alike_db_keys Let_def alike_db_users intro!: alike_db_update(8))

lemma blind_get_user: "blind_stmt same_user (sql_get_user n)"
  unfolding blind_stmt_def
proof (intro allI impI)
  fix now d d'
  assume "alike_db d d'"
  with alike_db_row [OF this, of n]
  show "rel_sum (=) (list_all2 same_user) (fst (sql_get_user n now d)) (fst (sql_get_user n now d')) \<and>
      alike_db (snd (sql_get_user n now d)) (snd (sql_get_user n now d'))"
    by (cases "row_of usr_Username n (users d)"; cases "row_of usr_Username n (users d')") (simp_all add: single_row_reads(6))
qed

lemma hide_after_update: "hide_hash u = hide_hash u' \<Longrightarrow> hide_hash (user_after_update p u) = hide_hash (user_after_update p u')"
  by (simp add: same_user_fields) (simp add: user_after_update_def)

lemma hide_updated_rows:
  assumes "map hide_hash us = map hide_hash us'"
  shows "map hide_hash (upd_rows usr_Username n (user_after_update p) us) = map hide_hash (upd_rows usr_Username n (user_after_update p) us')"
proof -
  have "hide_hash (user_after_update p (hide_hash u)) = hide_hash (user_after_update p u)" for u
    by (rule hide_after_update) (simp add: hide_hash_def)
  then have "map hide_hash (upd_rows usr_Username n (user_after_update p) us) =
      map (\<lambda>u. if usr_Username u = n then hide_hash (user_after_update p u) else u) (map hide_hash us)" for us
    by (simp add: upd_rows_def) (simp add: hide_hash_def)
  then show ?thesis by (simp only: assms)
qed

lemma blind_update_user: "blind_stmt same_user (sql_update_user p)"
  unfolding blind_stmt_def
proof (intro allI impI)
  fix now d d'
  assume al: "alike_db d d'"
  note us = alike_db_users [OF al]
  have taken: "list_ex (\<lambda>r. usr_Username r \<noteq> uup_Username p \<and> usr_Email r = m) (users d') =
      list_ex (\<lambda>r. usr_Username r \<noteq> uup_Username p \<and> usr_Email r = m) (users d)" for m
  proof -
    have "list_ex (\<lambda>r. usr_Username r \<noteq> uup_Username p \<and> usr_Email r = m) us =
        list_ex (\<lambda>r. usr_Username r \<noteq> uup_Username p \<and> usr_Email r = m) (map hide_hash us)" for us
      by (induction us) (simp_all add: hide_hash_def)
    from this [of "users d"] this [of "users d'"] show ?thesis by (simp only: us)
  qed
  show "rel_sum (=) (list_all2 same_user) (fst (sql_update_user p now d)) (fst (sql_update_user p now d')) \<and>
      alike_db (snd (sql_update_user p now d)) (snd (sql_update_user p now d'))"
  proof (cases "row_of usr_Username (uup_Username p) (users d)")
    case None
    with al alike_db_row [OF al, of "uup_Username p"] show ?thesis by (simp add: sql_update_user_def)
  next
    case (Some u)
    with alike_db_row [OF al, of "uup_Username p"] obtain u' where
      u': "row_of usr_Username (uup_Username p) (users d') = Some u'" "same_user u u'"
      by (cases "row_of usr_Username (uup_Username p) (users d')") auto
    have "same_user (user_after_update p u) (user_after_update p u')" by (rule hide_after_update [OF u'(2)])
    moreover from this have "usr_Email (user_after_update p u') = usr_Email (user_after_update p u)"
      by (simp add: same_user_fields)
    ultimately show ?thesis
      using Some u' al taken alike_db_update(8) [OF al hide_updated_rows [OF us [symmetric]]]
      by (simp add: sql_update_user_def Let_def)
  qed
qed

subsection \<open>Connections and queries\<close>

definition blind :: "('a \<Rightarrow> 'a \<Rightarrow> bool) \<Rightarrow> (conn \<Rightarrow> 'a \<times> conn) \<Rightarrow> bool" where
  "blind R f \<longleftrightarrow> (\<forall>c c'. alike c c' \<longrightarrow> R (fst (f c)) (fst (f c')) \<and> alike (snd (f c)) (snd (f c')))"

lemma blindD: "alike c c' \<Longrightarrow> blind R f \<Longrightarrow> f c = (x, d) \<Longrightarrow> f c' = (x', d') \<Longrightarrow> R x x' \<and> alike d d'"
  by (metis blind_def fst_conv snd_conv)

lemma blindI: "(\<And>c c' x x' d d'. alike c c' \<Longrightarrow> f c = (x, d) \<Longrightarrow> f c' = (x', d') \<Longrightarrow> R x x' \<and> alike d d') \<Longrightarrow> blind R f"
  by (simp add: blind_def) (metis prod.collapse)

lemma blind_run_stmt:
  assumes "blind_stmt R s"
  shows "blind (rel_sum (=) (list_all2 R)) (run_stmt E s)"
proof (rule blindI)
  fix c c' x x' d d'
  assume al: "alike c c'" and run: "run_stmt E s c = (x, d)" "run_stmt E s c' = (x', d')"
  have s: "rel_sum (=) (list_all2 R) (fst (s now (c_db c))) (fst (s now (c_db c')))"
    "alike_db (snd (s now (c_db c))) (snd (s now (c_db c')))" for now
    using assms al by (auto simp: blind_stmt_def alike_def)
  show "rel_sum (=) (list_all2 R) x x' \<and> alike d d'"
    using run al s [of "clock E (c_tick c)"] s [of "case c_tx c of InTx now \<Rightarrow> now"]
    by (cases "c_tx c"; cases "reply E (c_tick c)")
      (auto simp: run_stmt_def Let_def alike_def split: prod.splits sum.splits)
qed

lemma blind_query_row:
  assumes "blind_stmt R s"
  shows "blind (rel_sum (=) R) (query_row E s)"
proof (rule blindI)
  fix c c' x x' d d'
  assume al: "alike c c'" and run: "query_row E s c = (x, d)" "query_row E s c' = (x', d')"
  obtain r d1 r' d1' where rs: "run_stmt E s c = (r, d1)" "run_stmt E s c' = (r', d1')" by fastforce
  with blindD [OF al blind_run_stmt [OF assms] rs] run show "rel_sum (=) R x x' \<and> alike d d'"
    by (cases r; cases r') (auto simp: query_row_def split: list.splits)
qed

lemma blind_query_rows:
  assumes "blind_stmt (=) s"
  shows "blind (=) (query_rows E s)"
proof (rule blindI)
  fix c c' x x' d d'
  assume al: "alike c c'" and run: "query_rows E s c = (x, d)" "query_rows E s c' = (x', d')"
  obtain r d1 r' d1' where rs: "run_stmt E s c = (r, d1)" "run_stmt E s c' = (r', d1')" by fastforce
  with blindD [OF al blind_run_stmt [OF assms] rs] run show "x = x' \<and> alike d d'"
    by (cases r; cases r') (auto simp: query_rows_def list.rel_eq)
qed

lemma blind_query_row_eq:
  assumes "blind_stmt (=) s"
  shows "blind (=) (query_row E s)"
  using blind_query_row [OF assms] by (simp add: sum.rel_eq)

lemma blind_queries [intro]:
  "blind (=) (AddAccountBalance E p1)" "blind (=) (CreateAccount E p2)" "blind (=) (CreateEntry E p3)"
  "blind (=) (CreateTransfer E p4)" "blind (=) (CreateSession E p5)" "blind (=) (CreateUser E p6)"
  "blind (=) (GetAccount E i)" "blind (=) (ListAccounts E p7)" "blind (=) (GetSession E u)"
  "blind (rel_sum (=) same_user) (GetUser E n)" "blind (rel_sum (=) same_user) (UpdateUser E p8)"
  unfolding query_defs
  by (intro blind_query_row_eq blind_query_rows blind_query_row blind_statements blind_create_user blind_get_user blind_update_user)+

subsection \<open>Programs\<close>

text \<open>Rules that follow the shape of a handler: a call and what depends on its result.\<close>

lemma blind_return: "blind (=) (\<lambda>c. (x, c))"
  by (simp add: blind_def)

lemma blind_call:
  assumes "blind (=) g" and "\<And>x. blind (=) (k x)"
  shows "blind (=) (\<lambda>c. case g c of (x, d) \<Rightarrow> k x d)"
proof (rule blindI)
  fix c c' x x' d d'
  assume al: "alike c c'" and run: "(case g c of (x, d) \<Rightarrow> k x d) = (x, d)" "(case g c' of (x, d) \<Rightarrow> k x d) = (x', d')"
  obtain y e y' e' where g: "g c = (y, e)" "g c' = (y', e')" by fastforce
  with blindD [OF al assms(1) g] run blindD [OF _ assms(2), of e e' y x d x' d'] show "x = x' \<and> alike d d'" by simp
qed

lemma blind_sum: "(\<And>e. blind R (f e)) \<Longrightarrow> (\<And>a. blind R (g a)) \<Longrightarrow> blind R (\<lambda>c. case x of Inl e \<Rightarrow> f e c | Inr a \<Rightarrow> g a c)"
  by (cases x) simp_all

lemma blind_option: "blind R f \<Longrightarrow> (\<And>a. blind R (g a)) \<Longrightarrow> blind R (\<lambda>c. case x of None \<Rightarrow> f c | Some a \<Rightarrow> g a c)"
  by (cases x) simp_all

lemma blind_prod: "(\<And>a b. blind R (f a b)) \<Longrightarrow> blind R (\<lambda>c. case x of (a, b) \<Rightarrow> f a b c)"
  by (cases x) simp

lemma blind_if: "blind R f \<Longrightarrow> blind R g \<Longrightarrow> blind R (\<lambda>c. if b then f c else g c)"
  by (cases b) simp_all

lemmas blind_intros = blind_return blind_if blind_sum blind_option blind_prod blind_call blind_queries

lemma blind_addMoney: "blind (=) (addMoney E i1 a1 i2 a2)"
  unfolding addMoney_def [abs_def] by (intro blind_intros)

lemma blind_transferTx_closure: "blind (=) (transferTx_closure E arg r)"
  unfolding transferTx_closure_def [abs_def] Let_def by (intro blind_intros blind_addMoney)

lemma blind_createUserTx_closure: "blind (=) (createUserTx_closure E arg h r)"
  unfolding createUserTx_closure_def [abs_def] by (intro blind_intros)

lemma alike_with_seqs: "alike_db d d' \<Longrightarrow> alike_db s s' \<Longrightarrow> alike_db (with_seqs d s) (with_seqs d' s')"
proof -
  assume al: "alike_db d d'" "alike_db s s'"
  have "(with_seqs x y)\<lparr>users := []\<rparr> = with_seqs (x\<lparr>users := []\<rparr>) y" "users (with_seqs x y) = users x" for x y
    by (simp_all add: with_seqs_def)
  moreover have "with_seqs x s' = with_seqs x s" for x by (simp add: with_seqs_def alike_db_tables [OF al(2)])
  ultimately show ?thesis using al(1) by (simp add: alike_db_def)
qed

lemma blind_execTX:
  assumes "\<And>r. blind (=) (fn r)"
  shows "blind (=) (execTX E fn r)"
proof (rule blindI)
  fix c c' x x' d d'
  assume al: "alike c c'" and run: "execTX E fn r c = (x, d)" "execTX E fn r c' = (x', d')"
  have begun: "alike (begin_tx E c) (begin_tx E c')" using al by (simp add: alike_def begin_tx_def)
  obtain y e y' e' where fn: "fn r (begin_tx E c) = (y, e)" "fn r (begin_tx E c') = (y', e')" by fastforce
  from blindD [OF begun assms fn] have y: "y' = y" and e: "alike e e'" by simp_all
  have undone: "alike (rolled_back c e) (rolled_back c' e')"
    using al e by (simp add: alike_def rolled_back_def alike_with_seqs)
  have fin: "alike (committed e) (committed e')" using e by (simp add: alike_def committed_def)
  have fields: "c_tick c' = c_tick c" "c_tick e' = c_tick e" "c_tx e' = c_tx e" using al e by (simp_all add: alike_def)
  have ticks: "alike (ticked c) (ticked c')" using al by (simp add: alike_def)
  show "x = x' \<and> alike d d'"
    using run fn y undone fin ticks
    by (auto simp: execTX_def fields split: outcome.splits prod.splits option.splits if_splits)
qed

lemma blind_TransferTx: "blind (=) (TransferTx E arg)"
  unfolding TransferTx_def [abs_def] by (intro blind_intros blind_execTX blind_transferTx_closure)

lemma blind_CreateUserTx: "blind (=) (CreateUserTx E arg h w)"
  unfolding CreateUserTx_def [abs_def] by (intro blind_intros blind_execTX blind_createUserTx_closure)

subsection \<open>Handlers\<close>

lemma blind_validAccount: "blind (=) (api_validAccount E i cur)"
  unfolding api_validAccount_def [abs_def] by (intro blind_intros)

lemma blind_handlers:
  "blind (=) (api_createAccount L E p r1)" "blind (=) (api_getAccount L E p r2)" "blind (=) (api_listAccount L E p r3)"
  "blind (=) (api_createTransfer L E p r4)" "blind (=) (api_createUser L E rv r5)" "blind (=) (api_reNewAccessToken L server E rv r6)"
  unfolding api_createAccount_def [abs_def] api_getAccount_def [abs_def] api_listAccount_def [abs_def]
    api_createTransfer_def [abs_def] api_createUser_def [abs_def] api_reNewAccessToken_def [abs_def] Let_def
  by (intro blind_intros blind_validAccount blind_TransferTx)+

text \<open>What is answered of a user does not contain the hash.\<close>

lemma same_user_answers: "same_user u u' \<Longrightarrow> newUserResponse u' = newUserResponse u \<and> ConvertUser u' = ConvertUser u"
  by (simp add: same_user_fields newUserResponse_def ConvertUser_def)

text \<open>The passwords that the two databases would check for a user.\<close>

definition checks_alike :: "bcrypt_lib \<Rightarrow> string \<Rightarrow> string \<Rightarrow> conn \<Rightarrow> conn \<Rightarrow> bool" where
  "checks_alike B n pw c c' \<longleftrightarrow> (\<forall>u u'. row_of usr_Username n (users (c_db c)) = Some u \<longrightarrow>
     row_of usr_Username n (users (c_db c')) = Some u' \<longrightarrow>
     CheckPassword B pw (usr_HashedPassword u) = CheckPassword B pw (usr_HashedPassword u'))"

lemma GetUser_alike:
  assumes al: "alike c c'" and auto: "c_tx c = Autocommit" and runs: "GetUser E n c = (r, d)" "GetUser E n c' = (r', d')"
    and check: "checks_alike B n pw c c'"
  shows "alike d d' \<and> (case r of Inl e \<Rightarrow> r' = Inl e
    | Inr u \<Rightarrow> \<exists>u'. r' = Inr u' \<and> same_user u u' \<and> CheckPassword B pw (usr_HashedPassword u) = CheckPassword B pw (usr_HashedPassword u'))"
proof -
  have auto': "c_tx c' = Autocommit" using al auto by (simp add: alike_def)
  from blindD [OF al blind_queries(10) runs] GetUser_read(2) [OF auto runs(1)] GetUser_read(2) [OF auto' runs(2)] check
  show ?thesis by (cases r; cases r') (auto simp: checks_alike_def)
qed

text \<open>The store calls of the handlers that make several: only what follows the read of a user needs care.\<close>

fun reads_user :: "thread \<Rightarrow> bool" where
  "reads_user (LoginGet L server rv ua ip req) \<longleftrightarrow> True"
| "reads_user (GLoginGet G maker config rv ctx req) \<longleftrightarrow> True"
| "reads_user _ \<longleftrightarrow> False"

lemma blind_thread_step:
  assumes "\<not> reads_user t"
  shows "blind (=) (thread_step E t)"
proof (rule blindI)
  fix c c' x x' d d'
  assume al: "alike c c'" and runs: "thread_step E t c = (x, d)" "thread_step E t c' = (x', d')"
  have "blind (=) (\<lambda>c. thread_step E t c)"
  proof (cases t)
    case (CheckFrom p req)
    then show ?thesis by (simp only: thread_step.simps) (intro blind_intros blind_validAccount)
  next
    case (CheckTo p req)
    then show ?thesis by (simp only: thread_step.simps) (intro blind_intros blind_validAccount)
  next
    case (RunTx p req)
    then show ?thesis by (simp only: thread_step.simps) (intro blind_intros blind_TransferTx)
  next
    case (LoginCreate arg resp)
    then show ?thesis by (simp only: thread_step.simps) (intro blind_intros)
  next
    case (GLoginCreate arg resp)
    then show ?thesis by (simp only: thread_step.simps) (intro blind_intros)
  qed (use assms in \<open>simp_all add: blind_return\<close>)
  from blindD [OF al this runs] show "x = x' \<and> alike d d'" .
qed

lemma check_login_same:
  assumes "same_user u u'" and "CheckPassword B pw (usr_HashedPassword u) = CheckPassword B pw (usr_HashedPassword u')"
  shows "lib_bcrypt L = B \<Longrightarrow> lur_Password req = pw \<Longrightarrow> check_login L server rv ua ip req u = check_login L server rv ua ip req u'"
    and "gl_bcrypt G = B \<Longrightarrow> lq_Password greq = pw \<Longrightarrow>
      check_gapi_login G maker config rv ctx greq u = check_gapi_login G maker config rv ctx greq u'"
  using assms same_user_answers [OF assms(1)]
  by (simp_all add: check_login_def check_gapi_login_def same_user_fields cong: option.case_cong sum.case_cong)

lemma check_login_reads_none:
  "\<not> reads_user (check_login L server rv ua ip req u)" "\<not> reads_user (check_gapi_login G maker config rv ctx greq u)"
  by (auto simp: check_login_def check_gapi_login_def Let_def split: option.split sum.split prod.split)

lemma login_step_alike:
  assumes al: "alike c c'" and auto: "c_tx c = Autocommit"
    and check: "checks_alike (lib_bcrypt L) (lur_UserName req) (lur_Password req) c c'"
    and runs: "thread_step E (LoginGet L server rv ua ip req) c = (t, d)" "thread_step E (LoginGet L server rv ua ip req) c' = (t', d')"
  shows "t = t' \<and> alike d d' \<and> \<not> reads_user t"
proof -
  obtain r e r' e' where get: "GetUser E (lur_UserName req) c = (r, e)" "GetUser E (lur_UserName req) c' = (r', e')" by fastforce
  note G = GetUser_alike [OF al auto get check]
  show ?thesis
  proof (cases r)
    case (Inl err)
    with G get runs show ?thesis by auto
  next
    case (Inr u)
    with G obtain u' where "r' = Inr u'" and same: "same_user u u'"
      "CheckPassword (lib_bcrypt L) (lur_Password req) (usr_HashedPassword u) = CheckPassword (lib_bcrypt L) (lur_Password req) (usr_HashedPassword u')"
      by auto
    with Inr get runs G check_login_same(1) [OF same refl refl] show ?thesis by (auto simp: check_login_reads_none)
  qed
qed

lemma glogin_step_alike:
  assumes al: "alike c c'" and auto: "c_tx c = Autocommit"
    and check: "checks_alike (gl_bcrypt G) (lq_Username req) (lq_Password req) c c'"
    and runs: "thread_step E (GLoginGet G maker config rv ctx req) c = (t, d)" "thread_step E (GLoginGet G maker config rv ctx req) c' = (t', d')"
  shows "t = t' \<and> alike d d' \<and> \<not> reads_user t"
proof -
  obtain r e r' e' where get: "GetUser E (lq_Username req) c = (r, e)" "GetUser E (lq_Username req) c' = (r', e')" by fastforce
  note G = GetUser_alike [OF al auto get check]
  show ?thesis
  proof (cases r)
    case (Inl err)
    with G get runs show ?thesis by auto
  next
    case (Inr u)
    with G obtain u' where "r' = Inr u'" and same: "same_user u u'"
      "CheckPassword (gl_bcrypt G) (lq_Password req) (usr_HashedPassword u) = CheckPassword (gl_bcrypt G) (lq_Password req) (usr_HashedPassword u')"
      by auto
    with Inr get runs G check_login_same(2) [OF same refl refl] show ?thesis by (auto simp: check_login_reads_none)
  qed
qed

text \<open>A thread that reads the user first and nothing of it later: both its steps.\<close>

lemma two_steps_alike:
  assumes first: "\<And>t u d d'. thread_step E t0 c = (t, d) \<Longrightarrow> thread_step E t0 c' = (u, d') \<Longrightarrow> t = u \<and> alike d d' \<and> \<not> reads_user t"
    and runs: "thread_run 2 E t0 c = (t, d)" "thread_run 2 E t0 c' = (t', d')"
  shows "t = t' \<and> alike d d'"
proof -
  obtain t1 d1 u1 e1 where 1: "thread_step E t0 c = (t1, d1)" "thread_step E t0 c' = (u1, e1)" by fastforce
  from first [OF 1] have same: "u1 = t1" "alike d1 e1" "\<not> reads_user t1" by blast+
  have 2: "thread_step E t1 d1 = (t, d)" "thread_step E t1 e1 = (t', d')"
    using runs 1 same(1) by (auto simp: numeral_2_eq_2 split: prod.splits)
  from blindD [OF same(2) blind_thread_step [OF same(3)] 2] show ?thesis .
qed

lemma login_alike:
  assumes al: "alike c c'" and auto: "c_tx c = Autocommit"
    and check: "\<And>req. decoded = Inr req \<Longrightarrow> checks_alike (lib_bcrypt L) (lur_UserName req) (lur_Password req) c c'"
  shows "fst (api_loginUser L server E rv ua ip decoded c) = fst (api_loginUser L server E rv ua ip decoded c') \<and>
    alike (snd (api_loginUser L server E rv ua ip decoded c)) (snd (api_loginUser L server E rv ua ip decoded c'))"
proof -
  let ?t = "start_login L server rv ua ip decoded"
  have step: "t = u \<and> alike d d' \<and> \<not> reads_user t" if "thread_step E ?t c = (t, d)" "thread_step E ?t c' = (u, d')" for t u d d'
  proof (cases "should_bind (lib_email_tag L) loginUserRequest_tags decoded")
    case (Inl err)
    with that al show ?thesis by (auto simp: start_login_def)
  next
    case (Inr req)
    then have "start_login L server rv ua ip decoded = LoginGet L server rv ua ip req" and dec: "decoded = Inr req"
      using should_bind_Inr [of "lib_email_tag L" loginUserRequest_tags decoded req] by (simp_all add: start_login_def)
    with login_step_alike [OF al auto check [OF dec]] that show ?thesis by metis
  qed
  obtain x d x' d' where run: "api_loginUser L server E rv ua ip decoded c = (x, d)"
    "api_loginUser L server E rv ua ip decoded c' = (x', d')" by fastforce
  have "Answered x = Answered x' \<and> alike d d'"
    by (rule two_steps_alike [where ?t0.0 = ?t and c = c and c' = c' and E = E]) (erule (1) step, simp_all add: thread_run_is_loginUser run)
  with run show ?thesis by simp
qed

lemma glogin_alike:
  assumes al: "alike c c'" and auto: "c_tx c = Autocommit"
    and check: "checks_alike (gl_bcrypt G) (lq_Username req) (lq_Password req) c c'"
  shows "fst (gapi_LoginUser G server E rv ctx req c) = fst (gapi_LoginUser G server E rv ctx req c') \<and>
    alike (snd (gapi_LoginUser G server E rv ctx req c)) (snd (gapi_LoginUser G server E rv ctx req c'))"
proof -
  let ?t = "start_gapi_login G server rv ctx req"
  have step: "t = u \<and> alike d d' \<and> \<not> reads_user t" if "thread_step E ?t c = (t, d)" "thread_step E ?t c' = (u, d')" for t u d d'
  proof (cases "validateLoginUserRequest req = []")
    case False
    with that al show ?thesis by (auto simp: start_gapi_login_def Let_def)
  next
    case True
    then have "start_gapi_login G server rv ctx req = GLoginGet G (gs_tokenMaker server) (gs_config server) rv ctx req"
      by (simp add: start_gapi_login_def)
    with glogin_step_alike [OF al auto check] that show ?thesis by metis
  qed
  obtain x d x' d' where run: "gapi_LoginUser G server E rv ctx req c = (x, d)"
    "gapi_LoginUser G server E rv ctx req c' = (x', d')" by fastforce
  have "GAnswered x = GAnswered x' \<and> alike d d'"
    by (rule two_steps_alike [where ?t0.0 = ?t and c = c and c' = c' and E = E]) (erule (1) step, simp_all add: thread_run_is_LoginUser run)
  with run show ?thesis by simp
qed

lemma blind_gapi_CreateUser:
  assumes al: "alike c c'"
    and runs: "gapi_CreateUser G server E rv req w c = (x, v, d)" "gapi_CreateUser G server E rv req w c' = (x', v', d')"
  shows "x = x' \<and> v = v' \<and> alike d d'"
proof -
  have "blind (=) (\<lambda>c. case gapi_CreateUser G server E rv req w c of (x, v, d) \<Rightarrow> ((x, v), d))"
  proof (cases "validateCreateUserRequest (gl_parse_address G) req = []")
    case False
    then show ?thesis by (simp add: gapi_CreateUser_def Let_def blind_return)
  next
    case valid: True
    show ?thesis
    proof (cases "HashPassword (gl_bcrypt G) (rv_salt rv) (cr_Password req)")
      case (Inl err)
      with valid show ?thesis by (simp add: gapi_CreateUser_def Let_def blind_return)
    next
      case (Inr hash)
      let ?tx = "CreateUserTx E \<lparr>cup_Username = cr_Username req, cup_HashedPassword = hash,
        cup_FullName = cr_FullName req, cup_Email = cr_Email req\<rparr> (send_verify_email server) w"
      have "(\<lambda>c. case gapi_CreateUser G server E rv req w c of (x, v, d) \<Rightarrow> ((x, v), d)) =
          (\<lambda>c. case ?tx c of (((user, err), w1), c1) \<Rightarrow> ((case err of
             Some err \<Rightarrow> if errors_as_pq err = Some ''unique_violation''
               then Inl (status_Errorf AlreadyExists ''username already exists %s '' [FErr err])
               else Inl (status_Errorf Internal ''failed to create user %s '' [FErr err])
           | None \<Rightarrow> Inr (ConvertUser user), w1), c1))"
        using valid Inr by (auto simp: fun_eq_iff gapi_CreateUser_def Let_def split: prod.split option.split)
      then show ?thesis by (simp only:) (intro blind_intros blind_CreateUserTx)
    qed
  qed
  from blindD [OF al this, of "(x, v)" d "(x', v')" d'] runs show ?thesis by simp
qed

lemma blind_gapi_UpdateUser: "blind (=) (gapi_UpdateUser G server E rv ctx req)"
proof (rule blindI)
  fix c c' x x' d d'
  assume al: "alike c c'" and runs: "gapi_UpdateUser G server E rv ctx req c = (x, d)" "gapi_UpdateUser G server E rv ctx req c' = (x', d')"
  show "x = x' \<and> alike d d'"
  proof (cases "\<exists>payload args. authorizeUser (gs_tokenMaker server) (rv_auth_now rv) ctx = Inr payload \<and>
      validateUpdateUserRequest (gl_parse_address G) req = [] \<and> pl_Username payload = uq_Username req \<and>
      fill_password G rv req (update_args req) = Inr args")
    case False
    with runs al show ?thesis by (auto simp: gapi_UpdateUser_def Let_def split: sum.splits if_splits)
  next
    case True
    then obtain payload args where ok: "authorizeUser (gs_tokenMaker server) (rv_auth_now rv) ctx = Inr payload"
      "validateUpdateUserRequest (gl_parse_address G) req = []" "pl_Username payload = uq_Username req"
      "fill_password G rv req (update_args req) = Inr args" by blast
    obtain r e r' e' where upd: "UpdateUser E args c = (r, e)" "UpdateUser E args c' = (r', e')" by fastforce
    from blindD [OF al blind_queries(11) upd] runs upd ok show ?thesis
      by (cases r; cases r') (auto simp: gapi_UpdateUser_def Let_def dest: same_user_answers split: if_splits)
  qed
qed

lemma blind_serve:
  assumes al: "alike c c'" and auto: "c_tx c = Autocommit"
    and login: "\<And>ua ip body. req = LoginUserReq ua ip (Inr body) \<Longrightarrow> checks_alike (lib_bcrypt L) (lur_UserName body) (lur_Password body) c c'"
  shows "fst (serve L server E rv h req c) = fst (serve L server E rv h req c') \<and>
    alike (snd (serve L server E rv h req c)) (snd (serve L server E rv h req c'))"
proof -
  have "fst (dispatch L server E rv p req c) = fst (dispatch L server E rv p req c') \<and>
      alike (snd (dispatch L server E rv p req c)) (snd (dispatch L server E rv p req c'))" for p
  proof (cases req)
    case (LoginUserReq ua ip decoded)
    then show ?thesis using login_alike [OF al auto] login by simp
  qed (use blind_handlers al in \<open>simp_all add: blind_def\<close>)
  then show ?thesis using al by (simp add: serve_def split: sum.split)
qed

text \<open>
  C14: stored password hashes stay secret. Two states of the bank that differ in the hashes only are
  answered alike by both servers, whatever is requested and whatever fails, and remain alike; only what
  a login's check of its own password says can tell them apart.
\<close>

theorem hashes_stay_secret:
  assumes "alike c c'" and "c_tx c = Autocommit"
    and "\<And>ua ip body. req = LoginUserReq ua ip (Inr body) \<Longrightarrow> checks_alike (lib_bcrypt L) (lur_UserName body) (lur_Password body) c c'"
    and "checks_alike (gl_bcrypt G) (lq_Username lreq) (lq_Password lreq) c c'"
  shows "fst (serve L server E rv h req c) = fst (serve L server E rv h req c') \<and>
    alike (snd (serve L server E rv h req c)) (snd (serve L server E rv h req c')) \<and>
    fst (gapi_LoginUser G gserver E rv ctx lreq c) = fst (gapi_LoginUser G gserver E rv ctx lreq c') \<and>
    alike (snd (gapi_LoginUser G gserver E rv ctx lreq c)) (snd (gapi_LoginUser G gserver E rv ctx lreq c')) \<and>
    fst (gapi_UpdateUser G gserver E rv ctx ureq c) = fst (gapi_UpdateUser G gserver E rv ctx ureq c') \<and>
    alike (snd (gapi_UpdateUser G gserver E rv ctx ureq c)) (snd (gapi_UpdateUser G gserver E rv ctx ureq c')) \<and>
    fst (gapi_CreateUser G gserver E rv creq w c) = fst (gapi_CreateUser G gserver E rv creq w c') \<and>
    alike (snd (snd (gapi_CreateUser G gserver E rv creq w c))) (snd (snd (gapi_CreateUser G gserver E rv creq w c')))"
proof -
  obtain x v d x' v' d' where create: "gapi_CreateUser G gserver E rv creq w c = (x, v, d)"
    "gapi_CreateUser G gserver E rv creq w c' = (x', v', d')" by (metis prod_cases3)
  show ?thesis
    using blind_serve [OF assms(1-3), where server = server and E = E and rv = rv and h = h]
      glogin_alike [OF assms(1,2,4), where server = gserver and E = E and rv = rv and ctx = ctx]
      blind_gapi_UpdateUser [of G gserver E rv ctx ureq] blind_gapi_CreateUser [OF assms(1) create] assms(1) create
    by (simp add: blind_def)
qed

text \<open>Two samples in which ann has different passwords.\<close>

definition other_hash :: "conn \<Rightarrow> conn" where
  "other_hash c = c\<lparr>c_db := (c_db c)\<lparr>users := upd_rows usr_Username ''ann'' (usr_HashedPassword_update (\<lambda>_. ''$2a$other'')) (users (c_db c))\<rparr>\<rparr>"

theorem hashes_stay_secret_witness:
  "fst (serve sample_libs sample_server good_env sample_rv '''' (CreateUserReq (Inr ann_registers)) (sample_conn 100 5)) =
     fst (serve sample_libs sample_server good_env sample_rv '''' (CreateUserReq (Inr ann_registers)) (other_hash (sample_conn 100 5))) \<and>
   map usr_HashedPassword (users (c_db (sample_conn 100 5))) \<noteq> map usr_HashedPassword (users (c_db (other_hash (sample_conn 100 5))))"
proof -
  let ?c = "sample_conn 100 5" and ?lreq = "\<lparr>lq_Username = ''ghost'', lq_Password = ''secret1''\<rparr>"
  have alike: "alike ?c (other_hash ?c)"
    by (simp add: alike_def alike_db_def other_hash_def sample_conn_def sample_db_def sample_user_def upd_rows_def hide_hash_def)
  have check: "checks_alike (gl_bcrypt sample_glibs) (lq_Username ?lreq) (lq_Password ?lreq) ?c (other_hash ?c)"
    by (simp add: checks_alike_def sample_conn_def sample_db_def sample_user_def row_of_Cons)
  have "fst (serve sample_libs sample_server good_env sample_rv '''' (CreateUserReq (Inr ann_registers)) ?c) =
     fst (serve sample_libs sample_server good_env sample_rv '''' (CreateUserReq (Inr ann_registers)) (other_hash ?c))"
    by (rule hashes_stay_secret [OF alike _ _ check, THEN conjunct1]) (simp_all add: sample_conn_def)
  then show ?thesis by (simp add: other_hash_def sample_conn_def sample_db_def sample_user_def upd_rows_def)
qed

end
