(* ===== verification/Responses.thy ===== *)
theory Responses
  imports Gapi_Props
begin

text \<open>
  What the routes and the calls can answer: the status and the body of every HTTP route, the codes of
  every gRPC call, and where the two servers' ideas of a user name part.
\<close>

fun success_body :: "endpoint \<Rightarrow> http_body \<Rightarrow> bool" where
  "success_body CreateUserEP (UserBody _) \<longleftrightarrow> True"
| "success_body LoginUserEP (LoginBody _) \<longleftrightarrow> True"
| "success_body RenewAccessEP (RenewBody _) \<longleftrightarrow> True"
| "success_body CreateAccountEP (AccountBody _) \<longleftrightarrow> True"
| "success_body GetAccountEP (AccountBody _) \<longleftrightarrow> True"
| "success_body ListAccountEP (AccountsBody _) \<longleftrightarrow> True"
| "success_body CreateTransferEP (TransferBody _) \<longleftrightarrow> True"
| "success_body _ _ \<longleftrightarrow> False"

fun error_statuses :: "endpoint \<Rightarrow> nat list" where
  "error_statuses CreateUserEP = [400, 403, 500]"
| "error_statuses LoginUserEP = [400, 401, 404, 500]"
| "error_statuses RenewAccessEP = [400, 401, 404, 500]"
| "error_statuses CreateAccountEP = [400, 401, 403, 500]"
| "error_statuses GetAccountEP = [400, 401, 404, 500]"
| "error_statuses ListAccountEP = [400, 401, 500]"
| "error_statuses CreateTransferEP = [400, 401, 404, 500]"

definition well_typed :: "endpoint \<Rightarrow> response \<Rightarrow> bool" where
  "well_typed e resp \<longleftrightarrow> (case resp of (st, b) \<Rightarrow>
     st = StatusOK \<and> success_body e b \<or> st \<in> set (error_statuses e) \<and> (\<exists>err. b = ErrBody err))"

lemma well_typed_simps [simp]:
  "well_typed e (errResponse st err) \<longleftrightarrow> st \<in> set (error_statuses e)"
  "well_typed e (200, b) \<longleftrightarrow> success_body e b"
  by (cases e; simp add: well_typed_def errResponse_def; cases b; simp)+

lemma validAccount_typed:
  "api_validAccount E i cur c = (Inl resp, c') \<Longrightarrow> well_typed CreateTransferEP resp"
  by (auto simp: api_validAccount_def split: http_splits)

lemma dispatch_typed:
  "p \<noteq> None \<or> \<not> needs_auth (endpoint_of req) \<Longrightarrow> well_typed (endpoint_of req) (fst (dispatch L srv E rv p req c))"
  by (cases req)
    (auto simp: api_createUser_def api_loginUser_def api_reNewAccessToken_def api_createAccount_def api_getAccount_def
      api_listAccount_def api_createTransfer_def split: http_splits dest: validAccount_typed)

lemma auth_typed: "needs_auth e \<Longrightarrow> authMiddleware m now h = Inl resp \<Longrightarrow> well_typed e resp"
  by (cases e) (auto simp: authMiddleware_def Let_def split: if_splits sum.splits)

text \<open>
  C34: every route answers 200 with its own kind of body, or one of its error statuses with an error
  body; no handler panics. Every gRPC call answers its message or one of its status codes.
\<close>

theorem responses_are_typed:
  "well_typed (endpoint_of req) (fst (serve L srv E rv h req c)) \<and>
   (case fst (gapi_CreateUser G server E rv creq w c) of
      Inr _ \<Rightarrow> True | Inl st \<Rightarrow> st_Code st \<in> {InvalidArgument, AlreadyExists, Internal}) \<and>
   (case fst (gapi_LoginUser G server E rv ctx lreq c) of
      Inr _ \<Rightarrow> True | Inl st \<Rightarrow> st_Code st \<in> {InvalidArgument, NotFound, Unauthenticated, Internal}) \<and>
   (case fst (gapi_UpdateUser G server E rv ctx ureq c) of
      Inr _ \<Rightarrow> True
    | Inl st \<Rightarrow> st_Code st \<in> {InvalidArgument, NotFound, PermissionDenied, Unauthenticated, Internal})"
proof (intro conjI)
  show "well_typed (endpoint_of req) (fst (serve L srv E rv h req c))"
    by (auto simp: serve_def dispatch_typed split: sum.split dest: auth_typed)
  show "case fst (gapi_CreateUser G server E rv creq w c) of
      Inr _ \<Rightarrow> True | Inl st \<Rightarrow> st_Code st \<in> {InvalidArgument, AlreadyExists, Internal}"
    by (auto simp: gapi_CreateUser_def Let_def invalidArgumentError_def status_Errorf_def split: http_splits)
  show "case fst (gapi_LoginUser G server E rv ctx lreq c) of
      Inr _ \<Rightarrow> True | Inl st \<Rightarrow> st_Code st \<in> {InvalidArgument, NotFound, Unauthenticated, Internal}"
    by (auto simp: gapi_LoginUser_def Let_def invalidArgumentError_def status_Errorf_def split: http_splits)
  show "case fst (gapi_UpdateUser G server E rv ctx ureq c) of
      Inr _ \<Rightarrow> True
    | Inl st \<Rightarrow> st_Code st \<in> {InvalidArgument, NotFound, PermissionDenied, Unauthenticated, Internal}"
    by (auto simp: gapi_UpdateUser_def Let_def invalidArgumentError_def unauthenticatedError_def status_Errorf_def
        split: http_splits)
qed

text \<open>
  The servers do not agree on user names. A name with an underscore, which gRPC accepts at
  registration, can neither be registered nor log in over HTTP; a name with a capital letter, which
  HTTP accepts, can neither be registered nor log in over gRPC.
\<close>

theorem user_names_disagree:
  "fst (fst (api_loginUser L srv E rv ua ip (Inr \<lparr>lur_UserName = x @ ''_'' @ y, lur_Password = pw\<rparr>) c)) = StatusBadRequest \<and>
   fst (fst (api_createUser L E rv (Inr \<lparr>cur_UserName = x @ ''_'' @ y, cur_Password = pw, cur_FullName = fn, cur_Email = em\<rparr>) c))
     = StatusBadRequest \<and>
   validateLoginUserRequest \<lparr>lq_Username = x @ ''A'' @ y, lq_Password = pw\<rparr> \<noteq> [] \<and>
   validateCreateUserRequest pa \<lparr>cr_Username = x @ ''A'' @ y, cr_FullName = fn, cr_Email = em, cr_Password = pw\<rparr> \<noteq> [] \<and>
   validateLoginUserRequest \<lparr>lq_Username = ''ann_lee'', lq_Password = ''secret''\<rparr> = [] \<and>
   tags_ok (lib_email_tag L) (loginUserRequest_tags \<lparr>lur_UserName = ''AnnLee'', lur_Password = ''secret''\<rparr>)"
proof (intro conjI)
  have under: "\<not> list_all (\<lambda>c. is_lower c \<or> is_upper c \<or> is_digit c) ''_''"
    and capital: "\<not> list_all username_char ''A''" by code_simp+
  show "fst (fst (api_loginUser L srv E rv ua ip (Inr \<lparr>lur_UserName = x @ ''_'' @ y, lur_Password = pw\<rparr>) c)) = StatusBadRequest"
    using under by (simp add: api_loginUser_def should_bind_def tags_ok_def loginUserRequest_tags_def errResponse_def)
  show "fst (fst (api_createUser L E rv (Inr \<lparr>cur_UserName = x @ ''_'' @ y, cur_Password = pw, cur_FullName = fn, cur_Email = em\<rparr>) c))
     = StatusBadRequest"
    using under by (simp add: api_createUser_def should_bind_def tags_ok_def createUserRequest_tags_def errResponse_def)
  have "ValidateUsername (x @ ''A'' @ y) \<noteq> None"
    using capital by (simp add: ValidateUsername_ok)
  then show "validateLoginUserRequest \<lparr>lq_Username = x @ ''A'' @ y, lq_Password = pw\<rparr> \<noteq> []"
    "validateCreateUserRequest pa \<lparr>cr_Username = x @ ''A'' @ y, cr_FullName = fn, cr_Email = em, cr_Password = pw\<rparr> \<noteq> []"
    by (simp_all add: validateLoginUserRequest_def validateCreateUserRequest_def)
  show "validateLoginUserRequest \<lparr>lq_Username = ''ann_lee'', lq_Password = ''secret''\<rparr> = []" by code_simp
  show "tags_ok (lib_email_tag L) (loginUserRequest_tags \<lparr>lur_UserName = ''AnnLee'', lur_Password = ''secret''\<rparr>)" by code_simp
qed

end
