(* ===== verification/Startup.thy ===== *)
theory Startup
  imports Processor
begin

text \<open>
  Start-up (main.go): the configuration, the database handle, then the task processor, the gateway and
  the gRPC server, each of which registers its goroutines with the errgroup. \<open>log.Fatal\<close> ends the
  process on the spot: no deferred call and no shutdown function runs. What the libraries answer is the
  record \<open>machine\<close>; a start-up function takes and returns what has been started so far.
\<close>

datatype goroutine = ProcessorStop | GatewayServe | GatewayStop | GRPCServe | GRPCStop

record ('v, 'a) machine =
  mc_viper :: viper_lib
  mc_sql_Open :: "string \<Rightarrow> string \<Rightarrow> go_error option"
  mc_db :: env
  mc_asynq_server :: "('v, 'a) asynq_server"
  mc_asynq :: asynq_lib
  mc_jwt :: jwt_lib
  mc_statik :: "go_error option"
  mc_Listen :: "string \<Rightarrow> go_error option"

record 'v started =
  sd_processor :: "'v RedisTaskProcessor option"
  sd_gateway :: "(string \<times> redis gServer) option"
  sd_grpc :: "(string \<times> redis gServer) option"
  sd_goroutines :: "goroutine list"

text \<open>A fatal log line: its message and the error.\<close>

type_synonym fatal = "string \<times> go_error"

definition nothing_started :: "'v started" where
  "nothing_started = \<lparr>sd_processor = None, sd_gateway = None, sd_grpc = None, sd_goroutines = []\<rparr>"

definition wg_Go :: "goroutine list \<Rightarrow> 'v started \<Rightarrow> 'v started" where
  "wg_Go gs s = s\<lparr>sd_goroutines := sd_goroutines s @ gs\<rparr>"

definition runTaskProcessor :: "('v, 'a) machine \<Rightarrow> string \<Rightarrow> 'v started \<Rightarrow> fatal option \<times> 'v started" where
  "runTaskProcessor M opt s =
     (let task = NewRedisTaskProcessor (mc_asynq_server M) opt (mc_db M)
      in case processor_Start (mc_asynq_server M) (mc_asynq M) task of
           (Some err, task') \<Rightarrow> (Some (''failed to start task processor'', err), s)
         | (None, task') \<Rightarrow> (None, wg_Go [ProcessorStop] (s\<lparr>sd_processor := Some task'\<rparr>)))"

definition runGatewayServer ::
  "('v, 'a) machine \<Rightarrow> Config \<Rightarrow> redis TaskDistributor \<Rightarrow> 'v started \<Rightarrow> fatal option \<times> 'v started"
where
  "runGatewayServer M config taskDistributor s =
     (case gapi_NewServer (mc_jwt M) config taskDistributor of
        Inl err \<Rightarrow> (Some (''can not create server'', err), s)
      | Inr server \<Rightarrow>
     (case mc_statik M of
        Some err \<Rightarrow> (Some (''can not create statik fs'', err), s)
      | None \<Rightarrow> (None, wg_Go [GatewayServe, GatewayStop] (s\<lparr>sd_gateway := Some (HTTPServerAddress config, server)\<rparr>))))"

definition runGRPCServer ::
  "('v, 'a) machine \<Rightarrow> Config \<Rightarrow> redis TaskDistributor \<Rightarrow> 'v started \<Rightarrow> fatal option \<times> 'v started"
where
  "runGRPCServer M config taskDistributor s =
     (case gapi_NewServer (mc_jwt M) config taskDistributor of
        Inl err \<Rightarrow> (Some (''can not create server'', err), s)
      | Inr server \<Rightarrow>
     (case mc_Listen M (GRPCServerAddress config) of
        Some err \<Rightarrow> (Some (''can not create listener'', err), s)
      | None \<Rightarrow> (None, wg_Go [GRPCServe, GRPCStop] (s\<lparr>sd_grpc := Some (GRPCServerAddress config, server)\<rparr>))))"

definition main_start :: "('v, 'a) machine \<Rightarrow> fatal option \<times> 'v started" where
  "main_start M =
     (case LoadConfig (mc_viper M) ''.'' of
        (config, Some err) \<Rightarrow> (Some (''can not load config'', err), nothing_started)
      | (config, None) \<Rightarrow>
     (case mc_sql_Open M (DBDriver config) (DBSource config) of
        Some err \<Rightarrow> (Some (''can not connect to the db'', err), nothing_started)
      | None \<Rightarrow>
     (let taskDistributor = NewRedisTaskDistributor (mc_asynq M)
      in case runTaskProcessor M (RedisAddress config) nothing_started of
           (Some f, s) \<Rightarrow> (Some f, s)
         | (None, s) \<Rightarrow>
        (case runGatewayServer M config taskDistributor s of
           (Some f, s) \<Rightarrow> (Some f, s)
         | (None, s) \<Rightarrow> runGRPCServer M config taskDistributor s))))"

text \<open>\<open>runGinServer\<close>, which main does not call: the alternative server, whose \<open>Start\<close> blocks.\<close>

definition runGinServer :: "jwt_lib \<Rightarrow> (string \<Rightarrow> go_error option) \<Rightarrow> Config \<Rightarrow> fatal option" where
  "runGinServer L run config =
     (case NewServer L config of
        Inl err \<Rightarrow> Some (''can not create server'', err)
      | Inr server \<Rightarrow>
     (case run (HTTPServerAddress config) of
        Some err \<Rightarrow> Some (''cannot start server'', err)
      | None \<Rightarrow> None))"

subsection \<open>The handler of the gateway's HTTP server\<close>

text \<open>
  net/http's mux with the patterns \<open>/\<close> and \<open>/swagger/\<close>: the longest that matches wins, and the bare
  \<open>/swagger\<close> is redirected. The documentation's files are a parameter.
\<close>

datatype http_target = ToGateway | ToSwagger string | RedirectSwagger

definition main_mux :: "string \<Rightarrow> http_target" where
  "main_mux path =
     (if take 9 path = ''/swagger/'' then ToSwagger (drop 9 path)
      else if path = ''/swagger'' then RedirectSwagger
      else ToGateway)"

datatype main_reply = ApiReply gw_reply | FileReply string | RedirectReply string

definition main_handler ::
  "'r gw_runtime \<Rightarrow> (string \<Rightarrow> string) \<Rightarrow> 's BankServer \<Rightarrow> string \<Rightarrow> string \<Rightarrow> 'r \<Rightarrow> 's \<Rightarrow> main_reply \<times> 's"
where
  "main_handler R files server method path req s =
     (case main_mux path of
        ToGateway \<Rightarrow> (case gw_ServeHTTP R (RegisterBankHandlerServer R server []) method path req s of (out, s') \<Rightarrow> (ApiReply out, s'))
      | ToSwagger file \<Rightarrow> (FileReply (files file), s)
      | RedirectSwagger \<Rightarrow> (RedirectReply ''/swagger/'', s))"

subsection \<open>What is running when\<close>

lemma gapi_NewServer_cases:
  obtains (short) err where "length (TokenSymmetricKey config) < minSecretKeySize" "\<And>td :: redis TaskDistributor. gapi_NewServer L config td = Inl err"
  | (made) server where "minSecretKeySize \<le> length (TokenSymmetricKey config)" "\<And>td :: redis TaskDistributor. gapi_NewServer L config td = Inr (server td)"
  by (cases "length (TokenSymmetricKey config) < minSecretKeySize") (auto simp: gapi_NewServer_def NewJWTMaker_def)

lemma runTaskProcessor_start:
  "runTaskProcessor M opt s =
     (case as_Start (mc_asynq_server M) (processor_mux (mc_asynq M) (mc_db M)) (as_NewServer (mc_asynq_server M) opt processor_config) of
        (Some err, v) \<Rightarrow> (Some (''failed to start task processor'', err), s)
      | (None, v) \<Rightarrow> (None, wg_Go [ProcessorStop] (s\<lparr>sd_processor := Some \<lparr>tp_server = v, tp_store = mc_db M\<rparr>\<rparr>)))"
  by (simp add: runTaskProcessor_def processor_Start_mux Let_def split: prod.split option.split)


definition sample_config :: Config where
  "sample_config = zero_config\<lparr>TokenSymmetricKey := sample_key, GRPCServerAddress := ''0.0.0.0:9090''\<rparr>"

definition sample_machine :: "go_error option \<Rightarrow> (unit, nat) machine" where
  "sample_machine listen = \<lparr>mc_viper = \<lparr>viper_ReadInConfig = (\<lambda>_. None), viper_Unmarshal = (\<lambda>_. (sample_config, None))\<rparr>,
     mc_sql_Open = (\<lambda>_ _. None), mc_db = good_env,
     mc_asynq_server = \<lparr>as_NewServer = (\<lambda>_ _. ()), as_Start = (\<lambda>_ v. (None, v)), as_Shutdown = (\<lambda>v. v)\<rparr>,
     mc_asynq = sample_asynq, mc_jwt = sample_jwt, mc_statik = None, mc_Listen = (\<lambda>_. listen)\<rparr>"


end
