(* ===== verification/Shutdown.thy ===== *)
theory Shutdown
  imports Startup Concurrent_Transfers
begin

text \<open>
  From \<open>waitGroup.Wait()\<close> to the end of the process (main.go): the five goroutines that start-up
  registers with the errgroup, one access to a shared variable or one blocking call per step. The two
  goroutines of \<open>runGatewayServer\<close> assign to the same variable \<open>err\<close>, which both closures capture. The
  errgroup, gRPC's \<open>Serve\<close> and what \<open>ListenAndServe\<close> and \<open>Shutdown\<close> may return are parameters.
\<close>

subsection \<open>Parameters\<close>

record 'g errgroup =
  eg_new :: 'g
  eg_return :: "go_error option \<Rightarrow> 'g \<Rightarrow> 'g"
  eg_cancelled :: "'g \<Rightarrow> bool"
  eg_error :: "'g \<Rightarrow> go_error option"

text \<open>
  errgroup as documented: the first function to return a non-nil error cancels the context, and
  \<open>Wait\<close> returns that error.
\<close>

definition errgroup_ok :: "'g errgroup \<Rightarrow> bool" where
  "errgroup_ok G \<longleftrightarrow> \<not> eg_cancelled G (eg_new G) \<and> eg_error G (eg_new G) = None \<and>
     (\<forall>r g. eg_error G (eg_return G r g) = (case eg_error G g of Some e \<Rightarrow> Some e | None \<Rightarrow> r)) \<and>
     (\<forall>r g. eg_cancelled G (eg_return G r g) \<longleftrightarrow> eg_cancelled G g \<or> r \<noteq> None)"

text \<open>
  What the blocking calls may return: the errors with which \<open>ListenAndServe\<close> fails (apart from
  \<open>ErrServerClosed\<close>, which it returns once \<open>Shutdown\<close> has been called), the results of \<open>Shutdown\<close>, and
  those of gRPC's \<open>Serve\<close> before and after \<open>GracefulStop\<close> has been called; and whether \<open>GracefulStop\<close> and
  asynq's \<open>Shutdown\<close>, which wait for calls and tasks in flight, ever return.
\<close>

record 'g setting =
  st_group :: "'g errgroup"
  st_listen_fails :: "go_error \<Rightarrow> bool"
  st_shutdown :: "go_error option \<Rightarrow> bool"
  st_grpc_serve :: "bool \<Rightarrow> go_error option \<Rightarrow> bool"
  st_graceful_returns :: bool
  st_processor_returns :: bool

subsection \<open>States and steps\<close>

datatype pos = Blocked | Stopping | TestNil | TestIs | ReturnErr | Finished

datatype process = Waiting | Exited | ExitedFatal go_error

record 'g life =
  lf_pos :: "goroutine \<Rightarrow> pos"
  lf_gateway_err :: "go_error option"
  lf_grpc_err :: "go_error option"
  lf_gateway_down :: bool
  lf_grpc_down :: bool
  lf_processor_down :: bool
  lf_signal :: bool
  lf_group :: 'g
  lf_process :: process

definition all_running :: "'g setting \<Rightarrow> 'g life \<Rightarrow> bool" where
  "all_running S s \<longleftrightarrow> s = \<lparr>lf_pos = (\<lambda>_. Blocked), lf_gateway_err = None, lf_grpc_err = None, lf_gateway_down = False,
     lf_grpc_down = False, lf_processor_down = False, lf_signal = False, lf_group = eg_new (st_group S),
     lf_process = Waiting\<rparr>"

definition ctx_done :: "'g setting \<Rightarrow> 'g life \<Rightarrow> bool" where
  "ctx_done S s \<longleftrightarrow> lf_signal s \<or> eg_cancelled (st_group S) (lf_group s)"

definition goto :: "goroutine \<Rightarrow> pos \<Rightarrow> 'g life \<Rightarrow> 'g life" where
  "goto g p s = s\<lparr>lf_pos := (lf_pos s)(g := p)\<rparr>"

definition return :: "'g setting \<Rightarrow> goroutine \<Rightarrow> go_error option \<Rightarrow> 'g life \<Rightarrow> 'g life" where
  "return S g r s = (goto g Finished s)\<lparr>lf_group := eg_return (st_group S) r (lf_group s)\<rparr>"

definition is_error :: "go_error option \<Rightarrow> go_error \<Rightarrow> bool" where
  "is_error err target \<longleftrightarrow> (case err of None \<Rightarrow> False | Some e \<Rightarrow> errors_is e target)"

inductive live_step :: "'g setting \<Rightarrow> 'g life \<Rightarrow> 'g life \<Rightarrow> bool" for S :: "'g setting" where
  signal: "lf_process s = Waiting \<Longrightarrow> \<not> lf_signal s \<Longrightarrow> live_step S s (s\<lparr>lf_signal := True\<rparr>)"
| gateway_fails: "lf_process s = Waiting \<Longrightarrow> lf_pos s GatewayServe = Blocked \<Longrightarrow> st_listen_fails S e \<Longrightarrow>
    live_step S s (goto GatewayServe TestNil (s\<lparr>lf_gateway_err := Some e\<rparr>))"
| gateway_closed: "lf_process s = Waiting \<Longrightarrow> lf_pos s GatewayServe = Blocked \<Longrightarrow> lf_gateway_down s \<Longrightarrow>
    live_step S s (goto GatewayServe TestNil (s\<lparr>lf_gateway_err := Some ErrServerClosed\<rparr>))"
| gateway_nil: "lf_process s = Waiting \<Longrightarrow> lf_pos s GatewayServe = TestNil \<Longrightarrow> lf_gateway_err s = None \<Longrightarrow>
    live_step S s (return S GatewayServe None s)"
| gateway_not_nil: "lf_process s = Waiting \<Longrightarrow> lf_pos s GatewayServe = TestNil \<Longrightarrow> lf_gateway_err s \<noteq> None \<Longrightarrow>
    live_step S s (goto GatewayServe TestIs s)"
| gateway_is_closed: "lf_process s = Waiting \<Longrightarrow> lf_pos s GatewayServe = TestIs \<Longrightarrow>
    is_error (lf_gateway_err s) ErrServerClosed \<Longrightarrow> live_step S s (return S GatewayServe None s)"
| gateway_is_other: "lf_process s = Waiting \<Longrightarrow> lf_pos s GatewayServe = TestIs \<Longrightarrow>
    \<not> is_error (lf_gateway_err s) ErrServerClosed \<Longrightarrow> live_step S s (goto GatewayServe ReturnErr s)"
| gateway_return: "lf_process s = Waiting \<Longrightarrow> lf_pos s GatewayServe = ReturnErr \<Longrightarrow>
    live_step S s (return S GatewayServe (lf_gateway_err s) s)"
| gateway_stop: "lf_process s = Waiting \<Longrightarrow> lf_pos s GatewayStop = Blocked \<Longrightarrow> ctx_done S s \<Longrightarrow>
    live_step S s (goto GatewayStop Stopping (s\<lparr>lf_gateway_down := True\<rparr>))"
| gateway_stopped: "lf_process s = Waiting \<Longrightarrow> lf_pos s GatewayStop = Stopping \<Longrightarrow> st_shutdown S r \<Longrightarrow>
    live_step S s (goto GatewayStop TestNil (s\<lparr>lf_gateway_err := r\<rparr>))"
| gateway_stop_nil: "lf_process s = Waiting \<Longrightarrow> lf_pos s GatewayStop = TestNil \<Longrightarrow> lf_gateway_err s = None \<Longrightarrow>
    live_step S s (return S GatewayStop None s)"
| gateway_stop_not_nil: "lf_process s = Waiting \<Longrightarrow> lf_pos s GatewayStop = TestNil \<Longrightarrow> lf_gateway_err s \<noteq> None \<Longrightarrow>
    live_step S s (goto GatewayStop ReturnErr s)"
| gateway_stop_return: "lf_process s = Waiting \<Longrightarrow> lf_pos s GatewayStop = ReturnErr \<Longrightarrow>
    live_step S s (return S GatewayStop (lf_gateway_err s) s)"
| grpc_returns: "lf_process s = Waiting \<Longrightarrow> lf_pos s GRPCServe = Blocked \<Longrightarrow> st_grpc_serve S (lf_grpc_down s) r \<Longrightarrow>
    live_step S s (goto GRPCServe TestNil (s\<lparr>lf_grpc_err := r\<rparr>))"
| grpc_nil: "lf_process s = Waiting \<Longrightarrow> lf_pos s GRPCServe = TestNil \<Longrightarrow> lf_grpc_err s = None \<Longrightarrow>
    live_step S s (return S GRPCServe None s)"
| grpc_not_nil: "lf_process s = Waiting \<Longrightarrow> lf_pos s GRPCServe = TestNil \<Longrightarrow> lf_grpc_err s \<noteq> None \<Longrightarrow>
    live_step S s (goto GRPCServe TestIs s)"
| grpc_is_stopped: "lf_process s = Waiting \<Longrightarrow> lf_pos s GRPCServe = TestIs \<Longrightarrow>
    is_error (lf_grpc_err s) ErrServerStopped \<Longrightarrow> live_step S s (return S GRPCServe None s)"
| grpc_is_other: "lf_process s = Waiting \<Longrightarrow> lf_pos s GRPCServe = TestIs \<Longrightarrow>
    \<not> is_error (lf_grpc_err s) ErrServerStopped \<Longrightarrow> live_step S s (goto GRPCServe ReturnErr s)"
| grpc_return: "lf_process s = Waiting \<Longrightarrow> lf_pos s GRPCServe = ReturnErr \<Longrightarrow>
    live_step S s (return S GRPCServe (lf_grpc_err s) s)"
| grpc_stop: "lf_process s = Waiting \<Longrightarrow> lf_pos s GRPCStop = Blocked \<Longrightarrow> ctx_done S s \<Longrightarrow>
    live_step S s (goto GRPCStop Stopping (s\<lparr>lf_grpc_down := True\<rparr>))"
| grpc_stopped: "lf_process s = Waiting \<Longrightarrow> lf_pos s GRPCStop = Stopping \<Longrightarrow> st_graceful_returns S \<Longrightarrow>
    live_step S s (return S GRPCStop None s)"
| processor_stop: "lf_process s = Waiting \<Longrightarrow> lf_pos s ProcessorStop = Blocked \<Longrightarrow> ctx_done S s \<Longrightarrow>
    live_step S s (goto ProcessorStop Stopping (s\<lparr>lf_processor_down := True\<rparr>))"
| processor_stopped: "lf_process s = Waiting \<Longrightarrow> lf_pos s ProcessorStop = Stopping \<Longrightarrow> st_processor_returns S \<Longrightarrow>
    live_step S s (return S ProcessorStop None s)"
| wait_returns: "lf_process s = Waiting \<Longrightarrow> (\<forall>g. lf_pos s g = Finished) \<Longrightarrow>
    live_step S s (s\<lparr>lf_process := (case eg_error (st_group S) (lf_group s) of None \<Rightarrow> Exited | Some e \<Rightarrow> ExitedFatal e)\<rparr>)"

lemmas life_simps = goto_def return_def is_error_def

abbreviation live_reach :: "'g setting \<Rightarrow> 'g life \<Rightarrow> bool" where
  "live_reach S \<equiv> reach (all_running S) (live_step S)"

lemma reach_rule:
  "reach init step s \<Longrightarrow> (\<And>s. init s \<Longrightarrow> P s) \<Longrightarrow> (\<And>s t. step s t \<Longrightarrow> P s \<Longrightarrow> P t) \<Longrightarrow> P s"
  by (induction rule: reach.induct) auto

lemma all_goroutines: "(\<forall>g. P g) \<longleftrightarrow> P ProcessorStop \<and> P GatewayServe \<and> P GatewayStop \<and> P GRPCServe \<and> P GRPCStop"
  by (metis goroutine.exhaust)

subsection \<open>Shutdown ends\<close>

fun rank :: "pos \<Rightarrow> nat" where
  "rank Blocked = 5"
| "rank Stopping = 4"
| "rank TestNil = 3"
| "rank TestIs = 2"
| "rank ReturnErr = 1"
| "rank Finished = 0"

definition work_left :: "'g life \<Rightarrow> nat" where
  "work_left s = rank (lf_pos s ProcessorStop) + rank (lf_pos s GatewayServe) + rank (lf_pos s GatewayStop) +
     rank (lf_pos s GRPCServe) + rank (lf_pos s GRPCStop) + (if lf_signal s then 0 else 1) +
     (if lf_process s = Waiting then 1 else 0)"

lemma live_step_decreases: "live_step S s t \<Longrightarrow> work_left t < work_left s"
  by (induction rule: live_step.induct) (auto simp: work_left_def life_simps split: option.split)

text \<open>Goroutines are only ever at positions of their own code.\<close>

definition at_home :: "'g life \<Rightarrow> bool" where
  "at_home s \<longleftrightarrow> lf_pos s ProcessorStop \<in> {Blocked, Stopping, Finished} \<and>
     lf_pos s GatewayServe \<in> {Blocked, TestNil, TestIs, ReturnErr, Finished} \<and>
     lf_pos s GatewayStop \<in> {Blocked, Stopping, TestNil, ReturnErr, Finished} \<and>
     lf_pos s GRPCServe \<in> {Blocked, TestNil, TestIs, ReturnErr, Finished} \<and>
     lf_pos s GRPCStop \<in> {Blocked, Stopping, Finished} \<and>
     (lf_pos s GatewayStop \<noteq> Blocked \<longrightarrow> lf_gateway_down s) \<and> (lf_pos s GRPCStop \<noteq> Blocked \<longrightarrow> lf_grpc_down s)"

interpretation homes: invariant_of "all_running S" "live_step S" at_home for S
proof
  show "all_running S s \<Longrightarrow> at_home s" for s by (simp add: all_running_def at_home_def)
  show "at_home s \<Longrightarrow> live_step S s t \<Longrightarrow> at_home t" for s t
    by (rotate_tac, induction rule: live_step.induct) (auto simp: at_home_def life_simps)
qed

lemma cancelled_progress:
  assumes home: "at_home s" and "ctx_done S s" and "lf_process s = Waiting"
    and "\<exists>r. st_shutdown S r" and "\<exists>r. st_grpc_serve S True r"
    and "lf_pos s GRPCStop = Stopping \<Longrightarrow> st_graceful_returns S"
    and "lf_pos s ProcessorStop = Stopping \<Longrightarrow> st_processor_returns S"
  shows "\<exists>t. live_step S s t"
proof (rule ccontr)
  assume stuck: "\<nexists>t. live_step S s t"
  note H = home [unfolded at_home_def, simplified]
  have p: "lf_pos s ProcessorStop = Finished"
    using H stuck assms(2,3,7) live_step.processor_stop live_step.processor_stopped by blast
  have gs: "lf_pos s GatewayStop = Finished"
    using H stuck assms(2-4) live_step.gateway_stop live_step.gateway_stopped live_step.gateway_stop_nil
      live_step.gateway_stop_not_nil live_step.gateway_stop_return by metis
  have cs: "lf_pos s GRPCStop = Finished"
    using H stuck assms(2,3,6) live_step.grpc_stop live_step.grpc_stopped by blast
  have down: "lf_gateway_down s" "lf_grpc_down s" using H gs cs by auto
  have g: "lf_pos s GatewayServe = Finished"
    using H stuck down assms(3) live_step.gateway_closed live_step.gateway_nil live_step.gateway_not_nil
      live_step.gateway_is_closed live_step.gateway_is_other live_step.gateway_return by metis
  have c: "lf_pos s GRPCServe = Finished"
    using H stuck down assms(3,5) live_step.grpc_returns [of s S] live_step.grpc_nil live_step.grpc_not_nil
      live_step.grpc_is_stopped live_step.grpc_is_other live_step.grpc_return by metis
  show False
    using stuck assms(3) live_step.wait_returns [of s S] p gs cs g c all_goroutines [of "\<lambda>g. lf_pos s g = Finished"] by blast
qed

text \<open>
  C22: shutdown ends. No run of the process is infinite, and once the context is done (by a signal, or
  because a goroutine returned an error) it is never stuck before its end, provided that the gateway's
  \<open>Shutdown\<close> and gRPC's \<open>Serve\<close> return when stopped, but in a call of \<open>GracefulStop\<close> or of asynq's
  \<open>Shutdown\<close> that does not return: if these do, every maximal run from then on ends the process.
\<close>

theorem shutdown_terminates:
  assumes "live_reach S s" and "\<exists>r. st_shutdown S r" and "\<exists>r. st_grpc_serve S True r"
  shows "(\<nexists>run. run 0 = s \<and> (\<forall>i. live_step S (run i) (run (Suc i)))) \<and>
    (ctx_done S s \<and> (\<nexists>t. live_step S s t) \<longrightarrow> lf_process s \<noteq> Waiting \<or>
       lf_pos s GRPCStop = Stopping \<and> \<not> st_graceful_returns S \<or>
       lf_pos s ProcessorStop = Stopping \<and> \<not> st_processor_returns S)"
proof
  show "\<nexists>run. run 0 = s \<and> (\<forall>i. live_step S (run i) (run (Suc i)))"
  proof
    assume "\<exists>run. run 0 = s \<and> (\<forall>i. live_step S (run i) (run (Suc i)))"
    then obtain run where "\<And>i. live_step S (run i) (run (Suc i))" by blast
    then have "\<And>i. work_left (run (Suc i)) < work_left (run i)" by (rule live_step_decreases)
    moreover have "wf (measure work_left)" by simp
    ultimately show False unfolding wf_iff_no_infinite_down_chain by auto
  qed
  show "ctx_done S s \<and> (\<nexists>t. live_step S s t) \<longrightarrow> lf_process s \<noteq> Waiting \<or>
      lf_pos s GRPCStop = Stopping \<and> \<not> st_graceful_returns S \<or> lf_pos s ProcessorStop = Stopping \<and> \<not> st_processor_returns S"
    using cancelled_progress [OF homes.reach_inv [OF assms(1)] _ _ assms(2,3)] by blast
qed

subsection \<open>Nothing stops before the context is done\<close>

definition causes :: "'g setting \<Rightarrow> 'g life \<Rightarrow> bool" where
  "causes S s \<longleftrightarrow> (eg_cancelled (st_group S) (lf_group s) \<longleftrightarrow> eg_error (st_group S) (lf_group s) \<noteq> None) \<and>
     (lf_gateway_down s \<or> lf_grpc_down s \<or> lf_processor_down s \<longrightarrow> ctx_done S s)"

lemma group_return:
  assumes "errgroup_ok (st_group S)"
  shows "eg_error (st_group S) (lf_group (return S g r s)) =
      (case eg_error (st_group S) (lf_group s) of Some e \<Rightarrow> Some e | None \<Rightarrow> r)"
    and "eg_cancelled (st_group S) (lf_group (return S g r s)) \<longleftrightarrow> eg_cancelled (st_group S) (lf_group s) \<or> r \<noteq> None"
  using assms by (simp_all add: errgroup_ok_def return_def)

lemma return_simps [simp]:
  "lf_pos (return S g r s) = (lf_pos s)(g := Finished)" "lf_gateway_err (return S g r s) = lf_gateway_err s"
  "lf_grpc_err (return S g r s) = lf_grpc_err s" "lf_gateway_down (return S g r s) = lf_gateway_down s"
  "lf_grpc_down (return S g r s) = lf_grpc_down s" "lf_processor_down (return S g r s) = lf_processor_down s"
  "lf_signal (return S g r s) = lf_signal s" "lf_process (return S g r s) = lf_process s"
  by (simp_all add: return_def goto_def)

lemma goto_simps [simp]:
  "lf_pos (goto g p s) = (lf_pos s)(g := p)" "lf_gateway_err (goto g p s) = lf_gateway_err s"
  "lf_grpc_err (goto g p s) = lf_grpc_err s" "lf_gateway_down (goto g p s) = lf_gateway_down s"
  "lf_grpc_down (goto g p s) = lf_grpc_down s" "lf_processor_down (goto g p s) = lf_processor_down s"
  "lf_signal (goto g p s) = lf_signal s" "lf_process (goto g p s) = lf_process s" "lf_group (goto g p s) = lf_group s"
  by (simp_all add: goto_def)

lemma causes_step:
  assumes G: "errgroup_ok (st_group S)"
  shows "live_step S s t \<Longrightarrow> causes S s \<Longrightarrow> causes S t"
  by (induction rule: live_step.induct)
    (auto simp: causes_def ctx_done_def group_return [OF G] split: option.splits)

lemma causes_reach:
  assumes "live_reach S s" and G: "errgroup_ok (st_group S)"
  shows "causes S s"
  using assms(1)
proof (induction rule: reach.induct)
  case (reach_init s)
  with G show ?case by (simp add: all_running_def causes_def errgroup_ok_def)
qed (rule causes_step [OF G])

text \<open>What the calls document: \<open>ListenAndServe\<close> closes only after \<open>Shutdown\<close>, gRPC's \<open>Serve\<close> fails before \<open>GracefulStop\<close>.\<close>

definition servers_ok :: "'g setting \<Rightarrow> bool" where
  "servers_ok S \<longleftrightarrow> errgroup_ok (st_group S) \<and> (\<forall>e. st_listen_fails S e \<longrightarrow> \<not> errors_is e ErrServerClosed) \<and>
     (\<forall>r. st_grpc_serve S False r \<longrightarrow> r \<noteq> None \<and> \<not> is_error r ErrServerStopped)"

definition noticed :: "'g setting \<Rightarrow> 'g life \<Rightarrow> bool" where
  "noticed S s \<longleftrightarrow> at_home s \<and> causes S s \<and> (\<not> ctx_done S s \<longrightarrow>
     (lf_pos s GatewayServe = Blocked \<or> lf_pos s GatewayServe \<noteq> Finished \<and> lf_gateway_err s \<noteq> None \<and>
        \<not> is_error (lf_gateway_err s) ErrServerClosed) \<and>
     (lf_pos s GRPCServe = Blocked \<or> lf_pos s GRPCServe \<noteq> Finished \<and> lf_grpc_err s \<noteq> None \<and>
        \<not> is_error (lf_grpc_err s) ErrServerStopped))"

lemma ctx_done_mono: "errgroup_ok (st_group S) \<Longrightarrow> live_step S s t \<Longrightarrow> ctx_done S s \<Longrightarrow> ctx_done S t"
  by (rotate_tac, induction rule: live_step.induct) (auto simp: ctx_done_def group_return)

lemma noticed_step:
  assumes ok: "servers_ok S" and step: "live_step S s t" and inv: "noticed S s"
  shows "noticed S t"
proof -
  have G: "errgroup_ok (st_group S)" using ok by (simp add: servers_ok_def)
  have base: "at_home t" "causes S t"
    using inv homes.inv_step [OF _ step] causes_step [OF G step] by (auto simp: noticed_def)
  show ?thesis
  proof (cases "ctx_done S t")
    case False
    with ctx_done_mono [OF G step] have no: "\<not> ctx_done S s" by blast
    with inv have "\<not> lf_gateway_down s" "\<not> lf_grpc_down s" by (auto simp: noticed_def causes_def)
    with step inv no False ok base show ?thesis
      by cases (auto simp: noticed_def servers_ok_def at_home_def ctx_done_def group_return [OF G] is_error_def split: option.splits)
  qed (use base in \<open>simp add: noticed_def\<close>)
qed

lemma noticed_reach:
  assumes "live_reach S s" and ok: "servers_ok S"
  shows "noticed S s"
  using assms(1)
proof (induction rule: reach.induct)
  case (reach_init s)
  with ok show ?case by (simp add: all_running_def noticed_def at_home_def causes_def servers_ok_def errgroup_ok_def)
qed (rule noticed_step [OF ok])

text \<open>
  No component stops by itself or unnoticed: the gateway, the gRPC server and the task processor are
  told to stop only after a signal or after a goroutine returned an error to the errgroup, and as long
  as neither has happened both servers are serving or about to return their error.
\<close>

theorem stops_only_when_cancelled:
  assumes "live_reach S s" and "servers_ok S"
  shows "(lf_gateway_down s \<or> lf_grpc_down s \<or> lf_processor_down s \<longrightarrow>
      lf_signal s \<or> eg_error (st_group S) (lf_group s) \<noteq> None) \<and>
    (\<not> lf_signal s \<and> eg_error (st_group S) (lf_group s) = None \<longrightarrow>
      lf_pos s GatewayServe \<noteq> Finished \<and> lf_pos s GRPCServe \<noteq> Finished)"
  using noticed_reach [OF assms] by (auto simp: noticed_def causes_def ctx_done_def)

subsection \<open>The exit status\<close>

text \<open>Nothing fails: no listener error, \<open>Shutdown\<close> returns nil, \<open>Serve\<close> returns nil or \<open>ErrServerStopped\<close> when stopped.\<close>

definition nothing_fails :: "'g setting \<Rightarrow> bool" where
  "nothing_fails S \<longleftrightarrow> errgroup_ok (st_group S) \<and> (\<forall>e. \<not> st_listen_fails S e) \<and> (\<forall>r. st_shutdown S r \<longleftrightarrow> r = None) \<and>
     (\<forall>stopped r. st_grpc_serve S stopped r \<longleftrightarrow> stopped \<and> (r = None \<or> r = Some ErrServerStopped))"

definition only :: "go_error \<Rightarrow> go_error option \<Rightarrow> bool" where
  "only e r \<longleftrightarrow> (\<forall>x. r = Some x \<longrightarrow> x = e)"

lemma only_simps [simp]:
  "only e None" "only e (Some x) \<longleftrightarrow> x = e"
  by (simp_all add: only_def)

lemma only_first: "only e r \<Longrightarrow> only e r' \<Longrightarrow> only e (case r of Some x \<Rightarrow> Some x | None \<Rightarrow> r')"
  by (cases r) simp_all

lemma only_is_error: "only e r \<Longrightarrow> r \<noteq> None \<Longrightarrow> is_error r e"
  by (auto simp: only_def is_error_def)

definition clean :: "'g setting \<Rightarrow> 'g life \<Rightarrow> bool" where
  "clean S s \<longleftrightarrow> only ErrServerClosed (lf_gateway_err s) \<and> only ErrServerStopped (lf_grpc_err s) \<and>
     lf_pos s GRPCServe \<noteq> ReturnErr \<and> (lf_pos s GRPCServe = TestIs \<longrightarrow> lf_grpc_err s \<noteq> None) \<and>
     only ErrServerClosed (eg_error (st_group S) (lf_group s)) \<and>
     (\<forall>e. lf_process s = ExitedFatal e \<longrightarrow> e = ErrServerClosed)"

lemma serve_result:
  assumes "nothing_fails S" and "st_grpc_serve S stopped r"
  shows "only ErrServerStopped r"
proof -
  from assms have "r = None \<or> r = Some ErrServerStopped" unfolding nothing_fails_def by blast
  then show ?thesis by (elim disjE) simp_all
qed

lemma clean_process:
  assumes err: "only ErrServerClosed err" and "clean S s"
  shows "clean S (s\<lparr>lf_process := (case err of None \<Rightarrow> Exited | Some e \<Rightarrow> ExitedFatal e)\<rparr>)"
proof -
  have "\<forall>e. (case err of None \<Rightarrow> Exited | Some e \<Rightarrow> ExitedFatal e) = ExitedFatal e \<longrightarrow> e = ErrServerClosed"
    using err by (cases err) simp_all
  with assms(2) show ?thesis unfolding clean_def by simp
qed

lemma clean_step:
  assumes "nothing_fails S"
  shows "live_step S s t \<Longrightarrow> clean S s \<Longrightarrow> clean S t"
proof (induction rule: live_step.induct)
  case (wait_returns s)
  then have "only ErrServerClosed (eg_error (st_group S) (lf_group s))" "clean S s" by (simp_all add: clean_def)
  then show ?case by (rule clean_process)
next
  case (grpc_returns s r)
  then have "only ErrServerStopped r" using serve_result [OF assms] by blast
  with grpc_returns show ?case by (simp add: clean_def)
next
  case (gateway_fails s e)
  with assms show ?case by (simp add: nothing_fails_def)
next
  case (gateway_stopped s r)
  with assms show ?case by (simp add: clean_def nothing_fails_def)
next
  case (grpc_is_other s)
  then show ?case using only_is_error by (auto simp: clean_def)
qed (use assms in \<open>simp_all add: clean_def nothing_fails_def group_return only_first\<close>)

lemma clean_reach:
  assumes "live_reach S s" and ok: "nothing_fails S"
  shows "clean S s"
  using assms(1)
proof (rule reach_rule)
  show "clean S s" if "all_running S s" for s
    using that ok by (simp add: all_running_def clean_def nothing_fails_def errgroup_ok_def)
qed (rule clean_step [OF ok])

definition grpc_kept :: "'g setting \<Rightarrow> 'g life \<Rightarrow> bool" where
  "grpc_kept S s \<longleftrightarrow>
     (lf_pos s GRPCServe \<in> {TestIs, ReturnErr} \<longrightarrow> lf_grpc_err s \<noteq> None) \<and>
     (lf_pos s GRPCServe = Finished \<longrightarrow> lf_grpc_err s = None \<or> is_error (lf_grpc_err s) ErrServerStopped \<or>
        eg_error (st_group S) (lf_group s) \<noteq> None) \<and>
     (lf_process s = Exited \<longrightarrow> lf_pos s GRPCServe = Finished \<and> eg_error (st_group S) (lf_group s) = None)"

lemma grpc_kept_reach:
  assumes "live_reach S s" and G: "errgroup_ok (st_group S)"
  shows "grpc_kept S s"
  using assms(1)
proof (rule reach_rule)
  show "grpc_kept S s" if "all_running S s" for s
    using that by (simp add: all_running_def grpc_kept_def)
  show "live_step S s t \<Longrightarrow> grpc_kept S s \<Longrightarrow> grpc_kept S t" for s t
    by (induction rule: live_step.induct) (auto simp: grpc_kept_def group_return [OF G] split: option.splits)
qed

text \<open>
  When nothing fails, the process exits with status 0 or, at worst, reports \<open>ErrServerClosed\<close>; and
  whatever fails, an exit with status 0 means that gRPC's \<open>Serve\<close> did not fail: its error is never lost.
\<close>

theorem exit_status:
  assumes "live_reach S s" and "errgroup_ok (st_group S)"
  shows "(nothing_fails S \<longrightarrow> lf_process s \<in> {Waiting, Exited, ExitedFatal ErrServerClosed}) \<and>
    (lf_process s = Exited \<longrightarrow> lf_grpc_err s = None \<or> is_error (lf_grpc_err s) ErrServerStopped)"
proof
  show "nothing_fails S \<longrightarrow> lf_process s \<in> {Waiting, Exited, ExitedFatal ErrServerClosed}"
    using clean_reach [OF assms(1)] by (cases "lf_process s") (auto simp: clean_def)
  show "lf_process s = Exited \<longrightarrow> lf_grpc_err s = None \<or> is_error (lf_grpc_err s) ErrServerStopped"
    using grpc_kept_reach [OF assms] by (auto simp: grpc_kept_def)
qed

subsection \<open>The shared error variable\<close>

lemma steps_reach: "(live_step S)\<^sup>*\<^sup>* s t \<Longrightarrow> live_reach S s \<Longrightarrow> live_reach S t"
  by (induction rule: rtranclp_induct) (auto intro: reach_step)

lemma steps_next: "(live_step S)\<^sup>*\<^sup>* s t \<Longrightarrow> live_step S t u \<Longrightarrow> (live_step S)\<^sup>*\<^sup>* s u"
  by (rule rtranclp.rtrancl_into_rtrancl)

lemma ctx_done_signal [simp]: "lf_signal s \<Longrightarrow> ctx_done S s"
  by (simp add: ctx_done_def)

text \<open>What is left to do after a signal when the gateway's goroutines are through: the gRPC server and the processor stop.\<close>

lemma finish_rest:
  assumes G: "errgroup_ok (st_group S)" and "st_grpc_serve S True None" and "lf_process s = Waiting" "lf_signal s"
    and "lf_pos s = (\<lambda>_. Blocked)(GatewayServe := Finished, GatewayStop := Finished)"
    and "st_graceful_returns S" "st_processor_returns S"
  shows "\<exists>t. (live_step S)\<^sup>*\<^sup>* s t \<and> lf_process t =
    (case eg_error (st_group S) (lf_group s) of None \<Rightarrow> Exited | Some e \<Rightarrow> ExitedFatal e)"
proof -
  let ?R = "(live_step S)\<^sup>*\<^sup>* s"
  let ?s1 = "goto ProcessorStop Stopping (s\<lparr>lf_processor_down := True\<rparr>)"
  let ?s2 = "return S ProcessorStop None ?s1"
  let ?s3 = "goto GRPCStop Stopping (?s2\<lparr>lf_grpc_down := True\<rparr>)"
  let ?s4 = "goto GRPCServe TestNil (?s3\<lparr>lf_grpc_err := None\<rparr>)"
  let ?s5 = "return S GRPCServe None ?s4"
  let ?s6 = "return S GRPCStop None ?s5"
  let ?s7 = "?s6\<lparr>lf_process := (case eg_error (st_group S) (lf_group ?s6) of None \<Rightarrow> Exited | Some e \<Rightarrow> ExitedFatal e)\<rparr>"
  note A = assms(2-)
  have "?R ?s1" by (rule r_into_rtranclp, intro live_step.processor_stop) (use A in simp_all)
  then have "?R ?s2" by (rule steps_next, intro live_step.processor_stopped) (use A in simp_all)
  then have "?R ?s3" by (rule steps_next, intro live_step.grpc_stop) (use A in simp_all)
  then have "?R ?s4" by (rule steps_next, intro live_step.grpc_returns) (use A in simp_all)
  then have "?R ?s5" by (rule steps_next, intro live_step.grpc_nil) (use A in simp_all)
  then have "?R ?s6" by (rule steps_next, intro live_step.grpc_stopped) (use A in simp_all)
  then have "?R ?s7" by (rule steps_next, intro live_step.wait_returns) (use A in \<open>simp_all add: all_goroutines\<close>)
  moreover have "eg_error (st_group S) (lf_group ?s6) = eg_error (st_group S) (lf_group s)"
    by (simp add: group_return [OF G] split: option.split)
  ultimately show ?thesis by (intro exI [of _ ?s7]) simp
qed

definition at_start :: "'g setting \<Rightarrow> 'g life" where
  "at_start S = \<lparr>lf_pos = (\<lambda>_. Blocked), lf_gateway_err = None, lf_grpc_err = None, lf_gateway_down = False,
     lf_grpc_down = False, lf_processor_down = False, lf_signal = False, lf_group = eg_new (st_group S), lf_process = Waiting\<rparr>"

lemma live_start: "live_reach S (at_start S)"
  by (rule reach_init) (simp add: all_running_def at_start_def)

lemma at_start_simps [simp]:
  "lf_pos (at_start S) = (\<lambda>_. Blocked)" "lf_gateway_err (at_start S) = None" "\<not> lf_signal (at_start S)"
  "lf_process (at_start S) = Waiting" "lf_group (at_start S) = eg_new (st_group S)"
  by (simp_all add: at_start_def)

lemma clean_shutdown_fails:
  assumes G: "errgroup_ok (st_group S)" and "st_shutdown S None" and serve: "st_grpc_serve S True None"
    and stops: "st_graceful_returns S" "st_processor_returns S"
  shows "\<exists>t. live_reach S t \<and> lf_process t = ExitedFatal ErrServerClosed"
proof -
  let ?R = "(live_step S)\<^sup>*\<^sup>* (at_start S)"
  let ?s1 = "at_start S\<lparr>lf_signal := True\<rparr>"
  let ?s2 = "goto GatewayStop Stopping (?s1\<lparr>lf_gateway_down := True\<rparr>)"
  let ?s3 = "goto GatewayStop TestNil (?s2\<lparr>lf_gateway_err := None\<rparr>)"
  let ?s4 = "goto GatewayServe TestNil (?s3\<lparr>lf_gateway_err := Some ErrServerClosed\<rparr>)"
  let ?s5 = "goto GatewayStop ReturnErr ?s4"
  let ?s6 = "return S GatewayStop (lf_gateway_err ?s5) ?s5"
  let ?s7 = "goto GatewayServe TestIs ?s6"
  let ?s8 = "return S GatewayServe None ?s7"
  have "?R ?s1" by (rule r_into_rtranclp, intro live_step.signal) simp_all
  then have "?R ?s2" by (rule steps_next, intro live_step.gateway_stop) simp_all
  then have "?R ?s3" by (rule steps_next, intro live_step.gateway_stopped) (use assms in simp_all)
  then have "?R ?s4" by (rule steps_next, intro live_step.gateway_closed) simp_all
  then have "?R ?s5" by (rule steps_next, intro live_step.gateway_stop_not_nil) simp_all
  then have "?R ?s6" by (rule steps_next, intro live_step.gateway_stop_return) simp_all
  then have "?R ?s7" by (rule steps_next, intro live_step.gateway_not_nil) simp_all
  then have run: "?R ?s8" by (rule steps_next, intro live_step.gateway_is_closed) (simp_all add: is_error_def)
  have err: "eg_error (st_group S) (lf_group ?s8) = Some ErrServerClosed"
    using G by (simp add: return_def goto_def errgroup_ok_def)
  have "\<exists>t. (live_step S)\<^sup>*\<^sup>* ?s8 t \<and> lf_process t =
      (case eg_error (st_group S) (lf_group ?s8) of None \<Rightarrow> Exited | Some e \<Rightarrow> ExitedFatal e)"
    by (rule finish_rest [OF G serve]) (use stops in \<open>simp_all add: fun_upd_twist\<close>)
  with err obtain t where "(live_step S)\<^sup>*\<^sup>* ?s8 t" "lf_process t = ExitedFatal ErrServerClosed" by auto
  with steps_reach [OF rtranclp_trans [OF run this(1)] live_start] show ?thesis by blast
qed

lemma listen_error_lost:
  assumes G: "errgroup_ok (st_group S)" and "st_shutdown S None" and serve: "st_grpc_serve S True None"
    and stops: "st_graceful_returns S" "st_processor_returns S"
    and "st_listen_fails S e" and "\<not> errors_is e ErrServerClosed"
  shows "\<exists>s t. live_reach S s \<and> lf_pos s GatewayServe = ReturnErr \<and> lf_gateway_err s = Some e \<and>
    (live_step S)\<^sup>*\<^sup>* s t \<and> lf_process t = Exited"
proof -
  let ?R = "(live_step S)\<^sup>*\<^sup>* (at_start S)"
  let ?s1 = "goto GatewayServe TestNil (at_start S\<lparr>lf_gateway_err := Some e\<rparr>)"
  let ?s2 = "goto GatewayServe TestIs ?s1"
  let ?s3 = "goto GatewayServe ReturnErr ?s2"
  let ?s4 = "?s3\<lparr>lf_signal := True\<rparr>"
  let ?s5 = "goto GatewayStop Stopping (?s4\<lparr>lf_gateway_down := True\<rparr>)"
  let ?s6 = "goto GatewayStop TestNil (?s5\<lparr>lf_gateway_err := None\<rparr>)"
  let ?s7 = "return S GatewayServe (lf_gateway_err ?s6) ?s6"
  let ?s8 = "return S GatewayStop None ?s7"
  have "?R ?s1" by (rule r_into_rtranclp, intro live_step.gateway_fails) (use assms in simp_all)
  then have "?R ?s2" by (rule steps_next, intro live_step.gateway_not_nil) simp_all
  then have "?R ?s3" by (rule steps_next, intro live_step.gateway_is_other) (use assms in \<open>simp_all add: is_error_def\<close>)
  then have reached: "live_reach S ?s3" using steps_reach live_start by blast
  let ?R' = "(live_step S)\<^sup>*\<^sup>* ?s3"
  have "?R' ?s4" by (rule r_into_rtranclp, intro live_step.signal) simp_all
  then have "?R' ?s5" by (rule steps_next, intro live_step.gateway_stop) simp_all
  then have "?R' ?s6" by (rule steps_next, intro live_step.gateway_stopped) (use assms in simp_all)
  then have "?R' ?s7" by (rule steps_next, intro live_step.gateway_return) simp_all
  then have run: "?R' ?s8" by (rule steps_next, intro live_step.gateway_stop_nil) simp_all
  have err: "eg_error (st_group S) (lf_group ?s8) = None"
    using G by (simp add: return_def goto_def errgroup_ok_def)
  have "\<exists>t. (live_step S)\<^sup>*\<^sup>* ?s8 t \<and> lf_process t =
      (case eg_error (st_group S) (lf_group ?s8) of None \<Rightarrow> Exited | Some e \<Rightarrow> ExitedFatal e)"
    by (rule finish_rest [OF G serve]) (use stops in simp_all)
  with err obtain t where "(live_step S)\<^sup>*\<^sup>* ?s8 t" "lf_process t = Exited" by auto
  with rtranclp_trans [OF run this(1)] reached show ?thesis by (intro exI [of _ ?s3] exI [of _ t]) simp
qed

text \<open>
  C23: the two gateway goroutines share \<open>err\<close>, so what they return depends on who runs when: when
  \<open>Shutdown\<close> returns nil, a clean shutdown can end as a failure with \<open>ErrServerClosed\<close> (\<open>ListenAndServe\<close>
  writes it between the assignment of \<open>Shutdown\<close> and its test), and an error that \<open>ListenAndServe\<close>
  returned and that its goroutine is about to return can be lost, the process ending with status 0 (in
  both cases once everything that was told to stop has stopped).
\<close>

theorem shared_err_race:
  assumes "errgroup_ok (st_group S)" and "st_shutdown S None" and "st_grpc_serve S True None"
    and "st_graceful_returns S" and "st_processor_returns S"
  shows "(\<exists>t. live_reach S t \<and> lf_process t = ExitedFatal ErrServerClosed) \<and>
    (\<forall>e. st_listen_fails S e \<and> \<not> errors_is e ErrServerClosed \<longrightarrow>
       (\<exists>s t. live_reach S s \<and> lf_pos s GatewayServe = ReturnErr \<and> lf_gateway_err s = Some e \<and>
          (live_step S)\<^sup>*\<^sup>* s t \<and> lf_process t = Exited))"
  using clean_shutdown_fails [OF assms] listen_error_lost [OF assms] by blast

subsection \<open>A concrete setting\<close>

text \<open>The group is its first error; the address of the gateway may be in use; \<open>Shutdown\<close> and \<open>Serve\<close> succeed.\<close>

definition sample_group :: "go_error option errgroup" where
  "sample_group = \<lparr>eg_new = None, eg_return = (\<lambda>r g. case g of Some e \<Rightarrow> Some e | None \<Rightarrow> r),
     eg_cancelled = (\<lambda>g. g \<noteq> None), eg_error = (\<lambda>g. g)\<rparr>"

definition sample_setting :: "bool \<Rightarrow> go_error option setting" where
  "sample_setting fails = \<lparr>st_group = sample_group,
     st_listen_fails = (\<lambda>e. fails \<and> e = ExtError ''address already in use''),
     st_shutdown = (\<lambda>r. r = None), st_grpc_serve = (\<lambda>stopped r. stopped \<and> (r = None \<or> r = Some ErrServerStopped)),
     st_graceful_returns = True, st_processor_returns = True\<rparr>"

lemma sample_setting_simps [simp]:
  "st_group (sample_setting b) = sample_group" "st_shutdown (sample_setting b) r \<longleftrightarrow> r = None"
  "st_listen_fails (sample_setting b) e \<longleftrightarrow> b \<and> e = ExtError ''address already in use''"
  "st_grpc_serve (sample_setting b) stopped r \<longleftrightarrow> stopped \<and> (r = None \<or> r = Some ErrServerStopped)"
  "st_graceful_returns (sample_setting b)" "st_processor_returns (sample_setting b)"
  by (simp_all add: sample_setting_def)

lemma sample_group_ok: "errgroup_ok sample_group"
  by (simp add: errgroup_ok_def sample_group_def split: option.split)

lemma sample_setting_ok: "servers_ok (sample_setting b)" "nothing_fails (sample_setting False)"
  by (auto simp: servers_ok_def nothing_fails_def sample_group_ok)

text \<open>A signal, then the gateway's shutdown begins.\<close>

definition sample_stopping :: "go_error option life" where
  "sample_stopping = goto GatewayStop Stopping (at_start (sample_setting False)\<lparr>lf_signal := True, lf_gateway_down := True\<rparr>)"

lemma sample_stopping_reach: "live_reach (sample_setting False) sample_stopping"
proof -
  let ?s1 = "at_start (sample_setting False)\<lparr>lf_signal := True\<rparr>"
  have "live_reach (sample_setting False) ?s1"
    by (rule reach_step [OF live_start], intro live_step.signal) simp_all
  then show ?thesis unfolding sample_stopping_def
    by (rule reach_step) (use live_step.gateway_stop [of ?s1 "sample_setting False"] in simp)
qed

theorem shutdown_terminates_witness:
  "\<nexists>run. run 0 = sample_stopping \<and> (\<forall>i. live_step (sample_setting False) (run i) (run (Suc i)))"
proof -
  have "\<exists>r. st_shutdown (sample_setting False) r" "\<exists>r. st_grpc_serve (sample_setting False) True r" by auto
  from shutdown_terminates [OF sample_stopping_reach this] show ?thesis by blast
qed

theorem stops_only_when_cancelled_witness:
  "lf_gateway_down sample_stopping \<and> eg_error sample_group (lf_group sample_stopping) = None \<and> lf_signal sample_stopping"
proof -
  have "lf_gateway_down sample_stopping" "eg_error sample_group (lf_group sample_stopping) = None"
    by (simp_all add: sample_stopping_def sample_group_def)
  with stops_only_when_cancelled [OF sample_stopping_reach sample_setting_ok(1)] show ?thesis by auto
qed

theorem exit_status_witness:
  "lf_process sample_stopping \<in> {Waiting, Exited, ExitedFatal ErrServerClosed}"
  using exit_status [OF sample_stopping_reach] sample_setting_ok(2) sample_group_ok by simp

theorem shared_err_race_witness:
  "(\<exists>t. live_reach (sample_setting True) t \<and> lf_process t = ExitedFatal ErrServerClosed) \<and>
   (\<exists>s t. live_reach (sample_setting True) s \<and> lf_gateway_err s = Some (ExtError ''address already in use'') \<and>
      (live_step (sample_setting True))\<^sup>*\<^sup>* s t \<and> lf_process t = Exited)"
proof -
  have "errgroup_ok (st_group (sample_setting True))" "st_shutdown (sample_setting True) None"
    "st_grpc_serve (sample_setting True) True None" by (simp_all add: sample_group_ok)
  from shared_err_race [OF this sample_setting_simps(5,6)] show ?thesis by fastforce
qed

end
