(* ===== verification/Store_Api.thy ===== *)
theory Store_Api
  imports Handlers_Keep
begin

text \<open>
  The interfaces of package db: \<open>Querier\<close> (querier.go) as a record of its methods, \<open>Queries\<close> with
  \<open>New\<close> and \<open>WithTx\<close> (db.go), \<open>Store\<close>, \<open>SQLStore\<close> and \<open>NewStore\<close> (store.go). A program that only has
  the interface can do what \<open>store_step\<close> allows, the methods no handler uses included; what it relies on is
  that an error means that nothing was done.
\<close>

record Querier =
  qr_AddAccountBalance :: "AddAccountBalanceParams \<Rightarrow> Account query"
  qr_CreateAccount :: "CreateAccountParams \<Rightarrow> Account query"
  qr_CreateEntry :: "CreateEntryParams \<Rightarrow> Entry query"
  qr_CreateSession :: "CreateSessionParams \<Rightarrow> Session query"
  qr_CreateTransfer :: "CreateTransferParams \<Rightarrow> Transfer query"
  qr_CreateUser :: "CreateUserParams \<Rightarrow> User query"
  qr_DeleteAccount :: "int64 \<Rightarrow> conn \<Rightarrow> go_error option \<times> conn"
  qr_GetAccount :: "int64 \<Rightarrow> Account query"
  qr_GetAccountForUpdate :: "int64 \<Rightarrow> Account query"
  qr_GetEntry :: "int64 \<Rightarrow> Entry query"
  qr_GetSession :: "uuid \<Rightarrow> Session query"
  qr_GetTransfer :: "int64 \<Rightarrow> Transfer query"
  qr_GetUser :: "string \<Rightarrow> User query"
  qr_ListAccounts :: "ListAccountsParams \<Rightarrow> Account list query"
  qr_ListEntries :: "ListEntriesParams \<Rightarrow> Entry list query"
  qr_ListTransfers :: "ListTransfersParams \<Rightarrow> Transfer list query"
  qr_UpdateAccount :: "UpdateAccountParams \<Rightarrow> Account query"
  qr_UpdateUser :: "UpdateUserParams \<Rightarrow> User query"

text \<open>
  \<open>Queries\<close> holds the \<open>DBTX\<close> it runs over, a database handle or a transaction. Both reach the same
  server; what a connection is in the middle of is in the connection.
\<close>

type_synonym DBTX = env

record Queries =
  qs_db :: DBTX

definition New :: "DBTX \<Rightarrow> Queries" where
  "New db = \<lparr>qs_db = db\<rparr>"

definition WithTx :: "Queries \<Rightarrow> DBTX \<Rightarrow> Queries" where
  "WithTx q tx = \<lparr>qs_db = tx\<rparr>"

text \<open>\<open>var _ Querier = (*Queries)(nil)\<close>: \<open>Queries\<close> has every method of the interface.\<close>

definition Queries_methods :: "Queries \<Rightarrow> Querier" where
  "Queries_methods q = \<lparr>
     qr_AddAccountBalance = AddAccountBalance (qs_db q),
     qr_CreateAccount = CreateAccount (qs_db q),
     qr_CreateEntry = CreateEntry (qs_db q),
     qr_CreateSession = CreateSession (qs_db q),
     qr_CreateTransfer = CreateTransfer (qs_db q),
     qr_CreateUser = CreateUser (qs_db q),
     qr_DeleteAccount = DeleteAccount (qs_db q),
     qr_GetAccount = GetAccount (qs_db q),
     qr_GetAccountForUpdate = GetAccountForUpdate (qs_db q),
     qr_GetEntry = GetEntry (qs_db q),
     qr_GetSession = GetSession (qs_db q),
     qr_GetTransfer = GetTransfer (qs_db q),
     qr_GetUser = GetUser (qs_db q),
     qr_ListAccounts = ListAccounts (qs_db q),
     qr_ListEntries = ListEntries (qs_db q),
     qr_ListTransfers = ListTransfers (qs_db q),
     qr_UpdateAccount = UpdateAccount (qs_db q),
     qr_UpdateUser = UpdateUser (qs_db q)\<rparr>"

record 'w Store = Querier +
  sr_TransferTx :: "TransferTxParams \<Rightarrow> conn \<Rightarrow> (TransferTxResult \<times> go_error option) \<times> conn"
  sr_CreateUserTx :: "CreateUserParams \<Rightarrow> (User \<Rightarrow> 'w \<Rightarrow> go_error option \<times> 'w) \<Rightarrow> 'w \<Rightarrow> conn
    \<Rightarrow> ((User \<times> go_error option) \<times> 'w) \<times> conn"

record SQLStore =
  ss_Queries :: Queries
  ss_db :: DBTX

definition SQLStore_methods :: "SQLStore \<Rightarrow> 'w Store" where
  "SQLStore_methods store = Querier.extend (Queries_methods (ss_Queries store))
     \<lparr>sr_TransferTx = TransferTx (ss_db store), sr_CreateUserTx = CreateUserTx (ss_db store)\<rparr>"

definition NewStore :: "DBTX \<Rightarrow> 'w Store" where
  "NewStore db = SQLStore_methods \<lparr>ss_Queries = New db, ss_db = db\<rparr>"

lemma NewStore_methods [simp]:
  "qr_AddAccountBalance (NewStore E) = AddAccountBalance E"
  "qr_CreateAccount (NewStore E) = CreateAccount E"
  "qr_CreateEntry (NewStore E) = CreateEntry E"
  "qr_CreateSession (NewStore E) = CreateSession E"
  "qr_CreateTransfer (NewStore E) = CreateTransfer E"
  "qr_CreateUser (NewStore E) = CreateUser E"
  "qr_DeleteAccount (NewStore E) = DeleteAccount E"
  "qr_GetAccount (NewStore E) = GetAccount E"
  "qr_GetAccountForUpdate (NewStore E) = GetAccountForUpdate E"
  "qr_GetEntry (NewStore E) = GetEntry E"
  "qr_GetSession (NewStore E) = GetSession E"
  "qr_GetTransfer (NewStore E) = GetTransfer E"
  "qr_GetUser (NewStore E) = GetUser E"
  "qr_ListAccounts (NewStore E) = ListAccounts E"
  "qr_ListEntries (NewStore E) = ListEntries E"
  "qr_ListTransfers (NewStore E) = ListTransfers E"
  "qr_UpdateAccount (NewStore E) = UpdateAccount E"
  "qr_UpdateUser (NewStore E) = UpdateUser E"
  "sr_TransferTx (NewStore E) = TransferTx E" "sr_CreateUserTx (NewStore E) = CreateUserTx E"
  by (simp_all add: NewStore_def SQLStore_methods_def Queries_methods_def New_def Querier.defs)

subsection \<open>What a caller of the interface can do\<close>

definition result_error :: "'a result \<Rightarrow> go_error option" where
  "result_error r = (case r of Inl err \<Rightarrow> Some err | Inr _ \<Rightarrow> None)"

text \<open>
  One call on the store: the error it returns, and what the caller's own state (the hook of \<open>CreateUserTx\<close>
  may change it) and the connection become.
\<close>

inductive store_step :: "'w Store \<Rightarrow> 'w \<times> conn \<Rightarrow> go_error option \<Rightarrow> 'w \<times> conn \<Rightarrow> bool" for S :: "'w Store" where
  addAccountBalance: "qr_AddAccountBalance S p c = (r, c') \<Longrightarrow> store_step S (w, c) (result_error r) (w, c')"
| createAccount: "qr_CreateAccount S p c = (r, c') \<Longrightarrow> store_step S (w, c) (result_error r) (w, c')"
| createEntry: "qr_CreateEntry S p c = (r, c') \<Longrightarrow> store_step S (w, c) (result_error r) (w, c')"
| createSession: "qr_CreateSession S p c = (r, c') \<Longrightarrow> store_step S (w, c) (result_error r) (w, c')"
| createTransfer: "qr_CreateTransfer S p c = (r, c') \<Longrightarrow> store_step S (w, c) (result_error r) (w, c')"
| createUser: "qr_CreateUser S p c = (r, c') \<Longrightarrow> store_step S (w, c) (result_error r) (w, c')"
| deleteAccount: "qr_DeleteAccount S p c = (err, c') \<Longrightarrow> store_step S (w, c) err (w, c')"
| getAccount: "qr_GetAccount S p c = (r, c') \<Longrightarrow> store_step S (w, c) (result_error r) (w, c')"
| getAccountForUpdate: "qr_GetAccountForUpdate S p c = (r, c') \<Longrightarrow> store_step S (w, c) (result_error r) (w, c')"
| getEntry: "qr_GetEntry S p c = (r, c') \<Longrightarrow> store_step S (w, c) (result_error r) (w, c')"
| getSession: "qr_GetSession S p c = (r, c') \<Longrightarrow> store_step S (w, c) (result_error r) (w, c')"
| getTransfer: "qr_GetTransfer S p c = (r, c') \<Longrightarrow> store_step S (w, c) (result_error r) (w, c')"
| getUser: "qr_GetUser S p c = (r, c') \<Longrightarrow> store_step S (w, c) (result_error r) (w, c')"
| listAccounts: "qr_ListAccounts S p c = (r, c') \<Longrightarrow> store_step S (w, c) (result_error r) (w, c')"
| listEntries: "qr_ListEntries S p c = (r, c') \<Longrightarrow> store_step S (w, c) (result_error r) (w, c')"
| listTransfers: "qr_ListTransfers S p c = (r, c') \<Longrightarrow> store_step S (w, c) (result_error r) (w, c')"
| updateAccount: "qr_UpdateAccount S p c = (r, c') \<Longrightarrow> store_step S (w, c) (result_error r) (w, c')"
| updateUser: "qr_UpdateUser S p c = (r, c') \<Longrightarrow> store_step S (w, c) (result_error r) (w, c')"
| transferTx: "sr_TransferTx S arg c = ((res, err), c') \<Longrightarrow> store_step S (w, c) err (w, c')"
| createUserTx: "sr_CreateUserTx S arg hook w c = (((user, err), w'), c') \<Longrightarrow> store_step S (w, c) err (w', c')"

subsection \<open>An error means that nothing was done\<close>

text \<open>No answer of the server is lost; a round trip may still fail.\<close>

definition answers_arrive :: "env \<Rightarrow> bool" where
  "answers_arrive E \<longleftrightarrow> (\<forall>n e. reply E n \<noteq> AckLost e)"

lemma answers_arriveD: "answers_arrive E \<Longrightarrow> reply E n = Delivered \<or> (\<exists>e. reply E n = NotDone e)"
  by (cases "reply E n") (auto simp: answers_arrive_def)

definition fails_clean :: "'r stmt \<Rightarrow> bool" where
  "fails_clean s \<longleftrightarrow> (\<forall>now d d' e. s now d = (Inl e, d') \<longrightarrow> same_tables d d')"

definition finds_clean :: "'r stmt \<Rightarrow> bool" where
  "finds_clean s \<longleftrightarrow> fails_clean s \<and> (\<forall>now d d'. s now d = (Inr [], d') \<longrightarrow> same_tables d d')"

lemma fails_cleanD: "fails_clean s \<Longrightarrow> s now d = (Inl e, d') \<Longrightarrow> same_tables d d'"
  unfolding fails_clean_def by blast

lemma finds_cleanD:
  "finds_clean s \<Longrightarrow> s now d = (Inl e, d') \<Longrightarrow> same_tables d d'"
  "finds_clean s \<Longrightarrow> s now d = (Inr [], d') \<Longrightarrow> same_tables d d'"
  unfolding finds_clean_def fails_clean_def by blast+

lemma run_stmt_clean:
  assumes "fails_clean s" and "answers_arrive E" and "c_tx c = Autocommit" and "run_stmt E s c = (r, c')"
  shows "c_tx c' = Autocommit \<and> (isl r \<longrightarrow> same_tables (c_db c) (c_db c'))"
  using assms(3,4) answers_arriveD [OF assms(2), of "c_tick c"] fails_cleanD [OF assms(1), of "clock E (c_tick c)" "c_db c"]
  by (auto simp: run_stmt_def Let_def isl_def split: prod.splits)

lemma query_row_clean:
  assumes "finds_clean s" and "answers_arrive E" and "c_tx c = Autocommit" and "query_row E s c = (r, c')"
  shows "c_tx c' = Autocommit \<and> (isl r \<longrightarrow> same_tables (c_db c) (c_db c'))"
  using assms(3,4) answers_arriveD [OF assms(2), of "c_tick c"] finds_cleanD [OF assms(1), of "clock E (c_tick c)" "c_db c"]
  by (auto simp: query_row_def run_stmt_def Let_def isl_def
      split: prod.splits sum.splits list.splits)

lemma query_rows_clean:
  assumes "fails_clean s" and "answers_arrive E" and "c_tx c = Autocommit" and "query_rows E s c = (r, c')"
  shows "c_tx c' = Autocommit \<and> (isl r \<longrightarrow> same_tables (c_db c) (c_db c'))"
  using run_stmt_clean [OF assms(1-3)] assms(4) by (auto simp: query_rows_def isl_def split: prod.splits sum.splits)

lemma exec_stmt_clean:
  assumes "fails_clean s" and "answers_arrive E" and "c_tx c = Autocommit" and "exec_stmt E s c = (err, c')"
  shows "c_tx c' = Autocommit \<and> (err \<noteq> None \<longrightarrow> same_tables (c_db c) (c_db c'))"
  using run_stmt_clean [OF assms(1-3)] assms(4) by (auto simp: exec_stmt_def isl_def split: prod.splits sum.splits)

lemma writes_clean:
  "finds_clean (sql_add_account_balance p1)" "finds_clean (sql_create_account p2)" "finds_clean (sql_create_entry p3)"
  "finds_clean (sql_create_session p4)" "finds_clean (sql_create_transfer p5)" "finds_clean (sql_create_user p6)"
  "fails_clean (sql_delete_account i)" "finds_clean (sql_update_account p7)" "finds_clean (sql_update_user p8)"
  by (simp_all add: finds_clean_def fails_clean_def same_tables_def sql_add_account_balance_def sql_create_account_def
      sql_create_entry_def sql_create_session_def sql_create_transfer_def sql_create_user_def sql_delete_account_def
      sql_update_account_def sql_update_user_def Let_def split: option.split)

lemma reads_clean:
  "finds_clean (sql_get_account i)" "finds_clean (sql_get_account_for_update i)" "finds_clean (sql_get_entry i)"
  "finds_clean (sql_get_session u)" "finds_clean (sql_get_transfer i)" "finds_clean (sql_get_user n)"
  "fails_clean (sql_list_accounts p1)" "fails_clean (sql_list_entries p2)" "fails_clean (sql_list_transfers p3)"
  by (auto simp: finds_clean_def fails_clean_def single_row_reads sql_list_accounts_def sql_list_entries_def sql_list_transfers_def
      limit_offset_def)

lemma execTX_clean:
  assumes "answers_arrive E" and "c_tx c = Autocommit" and "execTX E fn r c = ((err, r'), c')"
  shows "c_tx c' = Autocommit \<and> (err \<noteq> None \<longrightarrow> same_tables (c_db c) (c_db c'))"
  using assms(2,3) assms(1)
  by (auto simp: execTX_def rolled_back_def committed_def answers_arrive_def
      split: outcome.splits prod.splits option.splits if_splits)

lemma isl_result_error: "result_error r \<noteq> None \<longleftrightarrow> isl r"
  by (simp add: result_error_def isl_def split: sum.split)

lemma failed_call_clean:
  assumes "answers_arrive E" and "c_tx c = Autocommit" and "store_step (NewStore E) (w, c) err (w', c')"
  shows "c_tx c' = Autocommit \<and> (err \<noteq> None \<longrightarrow> same_tables (c_db c) (c_db c'))"
  using assms(3)
proof cases
  case deleteAccount
  then show ?thesis using exec_stmt_clean [OF writes_clean(7) assms(1,2)] by (simp add: DeleteAccount_def)
next
  case (transferTx arg res)
  then have "execTX E (transferTx_closure E arg) zero_result c = ((err, res), c')"
    by (auto simp: TransferTx_def split: prod.splits)
  from execTX_clean [OF assms(1,2) this] show ?thesis .
next
  case (createUserTx arg hook user)
  then have "execTX E (createUserTx_closure E arg hook) (zero_user, w) c = ((err, user, w'), c')"
    by (auto simp: CreateUserTx_def split: prod.splits)
  from execTX_clean [OF assms(1,2) this] show ?thesis .
qed (auto simp: query_defs isl_result_error simp del: not_None_eq
    dest!: query_row_clean [OF writes_clean(1) assms(1,2)] query_row_clean [OF writes_clean(2) assms(1,2)]
      query_row_clean [OF writes_clean(3) assms(1,2)] query_row_clean [OF writes_clean(4) assms(1,2)]
      query_row_clean [OF writes_clean(5) assms(1,2)] query_row_clean [OF writes_clean(6) assms(1,2)]
      query_row_clean [OF writes_clean(8) assms(1,2)] query_row_clean [OF writes_clean(9) assms(1,2)]
      query_row_clean [OF reads_clean(1) assms(1,2)] query_row_clean [OF reads_clean(2) assms(1,2)]
      query_row_clean [OF reads_clean(3) assms(1,2)] query_row_clean [OF reads_clean(4) assms(1,2)]
      query_row_clean [OF reads_clean(5) assms(1,2)] query_row_clean [OF reads_clean(6) assms(1,2)]
      query_rows_clean [OF reads_clean(7) assms(1,2)] query_rows_clean [OF reads_clean(8) assms(1,2)]
      query_rows_clean [OF reads_clean(9) assms(1,2)])

text \<open>
  C33: as long as no answer of the server is lost, a call on the store that returns an error has done
  nothing: after any sequence of calls of the twenty methods of its interface that all fail, for whatever
  reason (a statement, a constraint, the hook of a new user, a begin, commit or rollback), the tables are as
  they were and no transaction is open.
\<close>

theorem failed_store_calls_change_nothing:
  assumes "answers_arrive E" and "c_tx c = Autocommit"
    and "(\<lambda>s s'. \<exists>err. store_step (NewStore E) s (Some err) s')\<^sup>*\<^sup>* (w, c) (w', c')"
  shows "same_tables (c_db c) (c_db c') \<and> c_tx c' = Autocommit"
  using assms(3)
proof (induction rule: rtranclp_induct2)
  case (step w1 c1 w2 c2)
  then obtain err where "store_step (NewStore E) (w1, c1) (Some err) (w2, c2)" by blast
  with failed_call_clean [OF assms(1) _ this] step(3) show ?case by (auto simp: same_tables_def)
qed (simp add: assms(2))

text \<open>A transfer that fails at its fourth statement, then a user whose name is taken.\<close>

theorem failed_store_calls_witness:
  "let T = TransferTx failing_env (transfer_1_2 30) (sample_conn 100 5);
       U = CreateUserTx failing_env (sample_params ''ann'' ''new@x.org'')
         (\<lambda>u w. (None, w)) (0 :: nat) (snd T)
   in snd (fst T) \<noteq> None \<and> snd (fst (fst U)) \<noteq> None \<and> same_tables (sample_db 100 5) (c_db (snd U))"
proof -
  define T where "T = TransferTx failing_env (transfer_1_2 30) (sample_conn 100 5)"
  define U where "U = CreateUserTx failing_env
    (sample_params ''ann'' ''new@x.org'') (\<lambda>u w. (None, w)) (0 :: nat) (snd T)"
  have errors: "snd (fst T) \<noteq> None" "snd (fst (fst U)) \<noteq> None" unfolding U_def T_def by code_simp+
  then obtain e1 e2 where e: "snd (fst T) = Some e1" "snd (fst (fst U)) = Some e2" by auto
  have "store_step (NewStore failing_env) (0 :: nat, sample_conn 100 5) (Some e1) (0, snd T)"
    unfolding e(1) [symmetric] T_def by (rule transferTx [of _ _ _ "fst (fst T)"]) (simp add: T_def)
  moreover have "store_step (NewStore failing_env) (0, snd T) (Some e2) (snd (fst U), snd U)"
    unfolding e(2) [symmetric] U_def
    by (rule createUserTx [where arg = "sample_params ''ann'' ''new@x.org''" and hook = "\<lambda>u w. (None, w)" and user = "fst (fst (fst U))"])
      (simp add: U_def)
  ultimately have "(\<lambda>s s'. \<exists>err. store_step (NewStore failing_env) s (Some err) s')\<^sup>*\<^sup>* (0 :: nat, sample_conn 100 5) (snd (fst U), snd U)"
    by - (rule converse_rtranclp_into_rtranclp, rule exI, assumption, rule r_into_rtranclp, rule exI, assumption)
  moreover have "answers_arrive failing_env" by (simp add: answers_arrive_def failing_env_def good_env_def)
  ultimately have "same_tables (sample_db 100 5) (c_db (snd U))"
    using failed_store_calls_change_nothing [of failing_env "sample_conn 100 5" "0 :: nat"] by (simp add: sample_conn_def)
  with errors show ?thesis by (simp add: T_def U_def Let_def)
qed

subsection \<open>DeleteAccount\<close>

lemma del_rows_absent: "\<not> has_key key k rs \<Longrightarrow> del_rows key k rs = rs"
  by (auto simp: del_rows_def has_key_iff filter_id_conv)

lemma sql_delete_account_cases:
  "sql_delete_account i now d = (Inr rs, d') \<Longrightarrow> d' = d\<lparr>accounts := del_rows acc_ID i (accounts d)\<rparr>"
  by (auto simp: sql_delete_account_def del_rows_absent split: if_splits)

definition has_history :: "int64 \<Rightarrow> database \<Rightarrow> bool" where
  "has_history i d \<longleftrightarrow> has_key ent_AccountID i (entries d) \<or> has_key tr_FromAccountID i (transfers d) \<or>
     has_key tr_ToAccountID i (transfers d)"

lemma sql_delete_account_history:
  assumes "wf_db d" and "has_history i d"
  shows "\<exists>e. sql_delete_account i now d = (Inl e, d)"
proof -
  have "has_key acc_ID i (accounts d)"
    using assms by (auto simp: has_history_def wf_db_def fks_ok_def has_key_iff)
  with assms(2) show ?thesis by (auto simp: sql_delete_account_def has_history_def)
qed

text \<open>
  An account with an entry or a transfer cannot be deleted: \<open>DeleteAccount\<close> returns an error and
  changes nothing, so the books never lose an account; otherwise a nil error means that the rows with
  this id are gone and nothing else has changed.
\<close>

theorem DeleteAccount_keeps_history:
  assumes "c_tx c = Autocommit" and "wf_db (c_db c)" and "DeleteAccount E i c = (err, c')"
  shows "(has_history i (c_db c) \<longrightarrow> err \<noteq> None \<and> c_db c' = c_db c) \<and>
    (err = None \<longrightarrow> c_db c' = (c_db c)\<lparr>accounts := del_rows acc_ID i (accounts (c_db c))\<rparr>)"
proof
  show "has_history i (c_db c) \<longrightarrow> err \<noteq> None \<and> c_db c' = c_db c"
  proof
    assume "has_history i (c_db c)"
    from sql_delete_account_history [OF assms(2) this] obtain e where
      "\<And>now. fst (sql_delete_account i now (c_db c)) = Inl (e now) \<and> snd (sql_delete_account i now (c_db c)) = c_db c"
      by (metis fst_conv snd_conv)
    then have "\<And>now. sql_delete_account i now (c_db c) = (Inl (e now), c_db c)" by (simp add: prod_eq_iff)
    with assms(1,3) show "err \<noteq> None \<and> c_db c' = c_db c"
      by (auto simp: DeleteAccount_def exec_stmt_def run_stmt_def Let_def split: outcome.splits)
  qed
  show "err = None \<longrightarrow> c_db c' = (c_db c)\<lparr>accounts := del_rows acc_ID i (accounts (c_db c))\<rparr>"
    using assms(1,3)
    by (auto simp: DeleteAccount_def exec_stmt_def run_stmt_def Let_def dest: sql_delete_account_cases
        split: outcome.splits prod.splits sum.splits)
qed

definition history_conn :: conn where
  "history_conn = sample_conn 95 5\<lparr>c_db := sample_db 95 5\<lparr>entries :=
     [\<lparr>ent_ID = 1, ent_AccountID = 1, ent_Amount = - 5, ent_CreatedAt = 0\<rparr>], entries_seq := 2\<rparr>\<rparr>"

theorem DeleteAccount_witness:
  "\<exists>e c'. DeleteAccount good_env 1 history_conn = (Some e, c') \<and> c_db c' = c_db history_conn"
proof -
  obtain err c' where run: "DeleteAccount good_env 1 history_conn = (err, c')" by fastforce
  have "wf_db (c_db history_conn)" "c_tx history_conn = Autocommit" "has_history 1 (c_db history_conn)"
    by (simp_all add: history_conn_def has_history_def has_key_def wf_db_defs below_def sample_defs)
  with DeleteAccount_keeps_history [OF _ _ run] run show ?thesis by auto
qed

end
