(* ===== verification/Token_Props.thy ===== *)
theory Token_Props
  imports Sample_Libs
begin

text \<open>The two makers issue tokens that hold their user until they expire, and only then.\<close>

text \<open>
  C25: a token of \<open>JWTMaker\<close> names the user it was created for and verifies, at any later time, to
  exactly the payload it was created with until it expires; from then on it is rejected as expired.
\<close>

theorem jwt_token_round_trip:
  assumes "jwt_lib_ok L" and "jwt_CreateToken L maker te username d = Inr (token, payload)"
  shows "pl_Username payload = username \<and> pl_ExpiredAt payload = te_now te + sint d \<and>
    jwt_VerifyToken L maker now token =
      (if now \<le> te_now te + sint d then Inr payload else Inl ErrExpiredToken)"
  using jwt.created_claims [of "(L, maker)" te username d token payload]
    jwt.accepted_until_expiry [of "(L, maker)" te username d token payload now] assms
  by (simp add: jwt_maker_def)

theorem jwt_token_round_trip_witness:
  "jwt_VerifyToken sample_jwt \<lparr>secretKey = sample_key\<rparr> 1900 ''access.ann'' = Inr access_payload \<and>
   jwt_VerifyToken sample_jwt \<lparr>secretKey = sample_key\<rparr> 1901 ''access.ann'' = Inl ErrExpiredToken"
  using jwt_token_round_trip [OF sample_jwt_ok sample_jwt_created(1), of 1900]
    jwt_token_round_trip [OF sample_jwt_ok sample_jwt_created(1), of 1901]
  by (simp add: sample_access_def)

text \<open>
  The same for \<open>PasetoMaker\<close>, the other implementation of the \<open>Maker\<close> interface.
\<close>

theorem paseto_token_round_trip:
  assumes "paseto_lib_ok L" and "paseto_CreateToken L maker te username d = Inr (token, payload)"
  shows "pl_Username payload = username \<and> pl_ExpiredAt payload = te_now te + sint d \<and>
    paseto_VerifyToken L maker now token =
      (if now \<le> te_now te + sint d then Inr payload else Inl ErrExpiredToken)"
  using paseto.created_claims [of "(L, maker)" te username d token payload]
    paseto.accepted_until_expiry [of "(L, maker)" te username d token payload now] assms
  by (simp add: paseto_maker_def)

theorem paseto_token_round_trip_witness:
  "paseto_VerifyToken sample_paseto \<lparr>symmetricKey = sample_key\<rparr> 1900 ''access.ann'' = Inr access_payload \<and>
   paseto_VerifyToken sample_paseto \<lparr>symmetricKey = sample_key\<rparr> 1901 ''access.ann'' = Inl ErrExpiredToken"
proof -
  have created: "paseto_CreateToken sample_paseto \<lparr>symmetricKey = sample_key\<rparr> sample_access ''ann'' 900 =
      Inr (''access.ann'', access_payload)"
    by (simp add: paseto_CreateToken_def NewPayload_def sample_paseto_def table_paseto_def token_for_def
        sample_token_defs)
  show ?thesis
    using paseto_token_round_trip [OF sample_paseto_ok created, of 1900]
      paseto_token_round_trip [OF sample_paseto_ok created, of 1901]
    by (simp add: sample_access_def)
qed

text \<open>
  C26: a JWT that does not declare an HMAC signing method (\<open>none\<close>, RSA, ECDSA) is rejected, whatever
  it claims and whatever signature it carries: \<open>keyFunc\<close> never hands out the secret for it.
\<close>

theorem jwt_other_algorithms_rejected:
  assumes "jwt_lib_ok L" and "\<forall>alg. jwt_method L token \<noteq> SigningMethodHMAC alg"
  shows "jwt_VerifyToken L maker now token \<in> {Inl ErrInvalidToken, Inl ErrExpiredToken}"
proof -
  have "keyFunc maker (jwt_method L token) = Inl ErrInvalidToken"
    using assms(2) by (cases "jwt_method L token") (auto simp: keyFunc_def)
  then have "jwt_parse L (keyFunc maker) (Payload_Valid now) token \<noteq> Inr c" for c
    using assms(1) unfolding jwt_lib_ok_def by force
  then obtain err where "jwt_parse L (keyFunc maker) (Payload_Valid now) token = Inl err"
    by (cases "jwt_parse L (keyFunc maker) (Payload_Valid now) token") auto
  then have "jwt_VerifyToken L maker now token = Inl ErrInvalidToken \<or>
      jwt_VerifyToken L maker now token = Inl ErrExpiredToken"
    by (auto simp: jwt_VerifyToken_def split: jwt_error.splits option.splits)
  then show ?thesis by auto
qed

theorem jwt_other_algorithms_witness:
  "jwt_VerifyToken sample_jwt \<lparr>secretKey = sample_key\<rparr> 1000 ''forged'' \<in> {Inl ErrInvalidToken, Inl ErrExpiredToken}"
proof (rule jwt_other_algorithms_rejected [OF sample_jwt_ok])
  show "\<forall>alg. jwt_method sample_jwt ''forged'' \<noteq> SigningMethodHMAC alg"
    by (simp add: sample_jwt_def table_jwt_def token_entry_def sample_tokens_def)
qed

end
