(* ===== verification/Util_Props.thy ===== *)
theory Util_Props
  imports Util
begin

text \<open>Properties of the random test data of package util.\<close>

lemma RandomInt_in_range:
  assumes "sint mn \<le> sint mx" and "sint mx - sint mn < max_int64"
  shows "\<exists>v. RandomInt rng k mn mx = (Some v, Suc k) \<and> sint mn \<le> sint v \<and> sint v \<le> sint mx"
proof -
  let ?n = "mx - mn + 1"
  have diff: "sint (mx - mn) = sint mx - sint mn"
    using assms sint64_range [of mx] sint64_range [of mn]
    by (simp add: sint_word_ariths signed_take_bit_int_eq_self)
  have n: "sint ?n = sint mx - sint mn + 1"
    using assms sint64_add [of "mx - mn" 1] by (simp add: diff)
  define r where "r = int (rng k) mod sint ?n"
  have r: "0 \<le> r" "r \<le> sint mx - sint mn"
    using n assms(1) by (auto simp: r_def intro: pos_mod_sign) (smt (verit) pos_mod_bound)
  have v: "sint (word_of_int r :: int64) = r"
    by (rule sint64_of_int) (use r assms(2) in simp_all)
  have "sint (mn + word_of_int r) = sint mn + r"
    using sint64_add [of mn "word_of_int r"] v r sint64_range [of mn] sint64_range [of mx] by simp
  then show ?thesis
    using r n assms(1) by (simp add: RandomInt_def int63n_def r_def)
qed

text \<open>
  \<open>RandomInt\<close> returns a number between its bounds, both included, without overflow, as long as
  there are at most \<open>2^63 - 1\<close> numbers between them; with one more the generator panics.
\<close>

theorem RandomInt_range:
  assumes "sint mn \<le> sint mx" and "sint mx - sint mn < max_int64"
  shows "\<exists>v. RandomInt rng k mn mx = (Some v, Suc k) \<and> sint mn \<le> sint v \<and> sint v \<le> sint mx"
  by (rule RandomInt_in_range [OF assms])

theorem RandomInt_range_witness:
  "\<exists>v. RandomInt (\<lambda>k. 7 * k) 3 1 10 = (Some v, 4) \<and> 1 \<le> sint v \<and> sint v \<le> 10"
  using RandomInt_range [of 1 10 "\<lambda>k. 7 * k" 3] by simp

lemma alphabet_letters: "c \<in> set alphabet \<Longrightarrow> is_lower c \<and> c \<noteq> CHR ''k''"
  by (auto simp: alphabet_def is_lower_def byte_def)

text \<open>
  A random string of length \<open>n\<close> has \<open>n\<close> lower case letters, and never the letter k: the
  alphabet misspells it as a second h. A random owner therefore is a valid user name.
\<close>

theorem RandomString_letters:
  "length (fst (RandomString rng k n)) = nat n \<and> snd (RandomString rng k n) = k + nat n \<and>
   list_all is_lower (fst (RandomString rng k n)) \<and> CHR ''k'' \<notin> set (fst (RandomString rng k n)) \<and>
   ValidateUsername (fst (RandomOwner rng k)) = None"
proof -
  have spec: "length (fst (RandomString rng k m)) = nat m \<and> snd (RandomString rng k m) = k + nat m \<and>
      set (fst (RandomString rng k m)) \<subseteq> set alphabet" for m
    using random_string_loop_spec [of rng k "nat m" "''''"]
    by (cases "random_string_loop rng k (nat m) ''''") (auto simp: RandomString_def)
  have letters: "list_all is_lower (fst (RandomString rng k m)) \<and> CHR ''k'' \<notin> set (fst (RandomString rng k m))" for m
    using spec [of m] alphabet_letters by (auto simp: list_all_iff)
  have "list_all username_char (fst (RandomString rng k 6))"
    using letters [of 6] by (auto simp: list_all_iff username_char_def)
  then show ?thesis
    using spec [of n] spec [of 6] letters [of n] by (simp add: ValidateUsername_ok RandomOwner_def)
qed

text \<open>
  Random money is between 0 and 100000 and a random currency is a supported one, so the test
  accounts satisfy the API's own validation.
\<close>

theorem random_money_and_currency:
  "(\<exists>v. RandomMoney rng k = (Some v, Suc k) \<and> 0 \<le> sint v \<and> sint v \<le> 100000) \<and>
   IsSupportCurrency (fst (RandomCurrency rng k))"
proof -
  have "rng k mod 3 = 0 \<or> rng k mod 3 = 1 \<or> rng k mod 3 = 2" by arith
  then have "IsSupportCurrency (fst (RandomCurrency rng k))"
    by (auto simp: RandomCurrency_def IsSupportCurrency_def)
  then show ?thesis
    using RandomInt_in_range [of 0 100000 rng k] by (simp add: RandomMoney_def)
qed

end
