(* ===== verification/Spec2Isabelle.thy ===== *)
theory Spec2Isabelle
  imports Concurrent_History Messages Retries Secrets Responses Shutdown Store_Api Token_Props Util_Props
begin

section \<open>The bank service\<close>

text \<open>
  A verification development for the bank service (module bank, Go). The program keeps users,
  accounts, transfers, entries and sessions in PostgreSQL and serves them over HTTP (package api,
  gin) and over gRPC with an HTTP gateway (packages gapi and pb); a worker (package worker, asynq over
  redis) sends verification mails. main.go runs the gRPC server, the gateway and the worker over one
  database and one queue; the gin server is an alternative over the same store.

  Theories, in the order of the code they model:

  \<^item> Prelude: Go's integers as words, instants as nanoseconds, error values with \<open>errors.Is\<close> and
    \<open>errors.As\<close>, rows looked up by a key and the interface \<open>table\<close> every table interprets.
  \<^item> Database (db/sqlc/models.go, db/migration, the statements of db/sqlc/*.sql.go): row records,
    the tables, and each SQL statement as a function of the tables that returns rows or the
    PostgreSQL error, with \<open>bigint\<close> range checks, sequences and constraints.
  \<^item> Integrity: the invariant \<open>wf_db\<close> the schema declares and its preservation by every statement;
    the bookkeeping invariant \<open>ledger_ok\<close>.
  \<^item> Conn and Queries (db/sqlc/db.go, *.sql.go): a connection with its transaction status; a statement
    is one numbered round trip, which the environment \<open>env\<close> may deliver, fail, or do with the answer
    lost; the 18 methods of \<open>Querier\<close>. The locale \<open>db_invariant\<close> lifts an invariant kept by
    statements to everything that runs them.
  \<^item> Store (db/sqlc/store.go, tx_transfer.go, tx_create_user.go): \<open>execTX\<close>, \<open>TransferTx\<close>, \<open>addMoney\<close>,
    \<open>CreateUserTx\<close>, whose closures take and return the variables they assign. Store_Api (querier.go,
    db.go, store.go): the interfaces as records of methods; whoever calls them, a call that fails did nothing.
  \<^item> Transfer_Spec, Transfer_Tx, Transfer_Props: the abstract transfer on the tables, the refinement
    \<open>TransferTx_outcome\<close> (nothing, or exactly the abstract transfer, whatever fails), and what
    follows for money and ledger. User_Tx: the same for \<open>CreateUserTx\<close> and its hook.
  \<^item> Concurrent_Transfers (the order of the updates in tx_transfer.go): transfers interleaved under row
    locks, as a step relation; freedom from deadlock, serial equivalence, termination.
  \<^item> Go_Strings, Token (package token), Util (packages util and val), Sample_Libs, Token_Props,
    Util_Props: \<open>strings.Fields\<close> and friends on bytes, payloads and the two token makers under the
    locale \<open>token_maker\<close>, passwords, random data, validators; concrete libraries for witnesses.
  \<^item> Bank_Inv: the invariant of the running service (\<open>bank_inv\<close>: balanced double-entry books, positive
    transfers within one currency, supported currencies), kept by what the handlers run.
  \<^item> Http_Binding, Http_Api (package api): request structs with their binding tags, middleware, routes,
    and each handler with all its branches; Http_Keeps, Http_Accounts, Http_Users: invariant,
    privacy, paging, transfers, login and renewal.
  \<^item> Worker, Processor (package worker): the task queue behind the locale \<open>task_distributor\<close>, the
    processor as a server with its queues, handlers and logger; a created user's task is served.
    Retries: the attempts of a task until it is completed or archived, under asynq's documented policy, and
    what is logged of them. Work_Queue: the worker as the consumer of the queue, steps that move a task from
    waiting to retry, archived or completed; the locale \<open>task_worker\<close> extends \<open>task_distributor\<close> with it.
  \<^item> Gapi, Gapi_Props (package gapi, messages of package pb): the three calls, their validation,
    authorization and metadata. Responses: what every route and call can answer.
  \<^item> Gapi_Logger (gapi/logger.go): the recorder and the two request loggers. Service
    (pb/service_bank_grpc.pb.go): server and client interfaces, stubs and method handlers with the
    interceptor. Gateway, Gateway_Props (pb/service_bank.pb.gw.go): request functions and routes; a
    gateway request of any kind is one call of the server or none, and both ways of registering agree.
  \<^item> Handlers_Keep: the locale \<open>stmt_invariant\<close> carries any property of the tables that the statements
    keep through queries, transactions, handlers, calls and tasks; History instantiates it with
    \<open>grows\<close>, the record of the past.
  \<^item> Bank_System: the states reachable by any sequence of requests, calls, gateway requests and tasks.
    Sessions: refresh tokens and passwords over such a sequence. Interleaved: the handlers that make
    several store calls (transfers, the logins of both servers) in flight, one call at a time,
    interleaved with everything else.
  \<^item> Secrets: the handlers on two databases that differ in password hashes, in rules that follow the shape
    of a handler; their answers are the same.
  \<^item> Transactions, Concurrent_Bank, Concurrent_Inv, Concurrent_Props (tx_transfer.go under store.go):
    a running \<open>TransferTx\<close> as a record of what it has done, one statement per step, on top of the
    committed tables and under row locks (undisturbed they are \<open>TransferTx\<close>, with the same rows and
    result); any number of them interleaved with all other requests. The
    invariant, the step to the program whose transfers happen at once, and progress.
  \<^item> Registrations, Registration_Props, Concurrent_Program (rpc_create_user.go, tx_create_user.go): calls of
    \<open>CreateUser\<close> one statement at a time (insert under the unique keys, hook, commit), on top of the
    relation of Concurrent_Bank and beside the worker; undisturbed they are the handler. The invariant is
    proved in the locale \<open>task_worker\<close> and holds for redis by its interpretation. Concurrent_Program has the
    properties of the whole interleaved program: safety, refinement, progress, what becomes of users and
    of their tasks. Concurrent_History:
    what lasts in it, the record of the past, the constraints of the schema, and a session until it expires.
  \<^item> Messages (pb/*.pb.go): messages as pointers, their getters on nil, and the validators of the calls on
    nil requests: only \<open>UpdateUser\<close> panics, and nobody passes it nil.
  \<^item> Startup (main.go): configuration, the three components and their goroutines, every \<open>log.Fatal\<close>,
    the mux of the gateway's HTTP server. Shutdown (main.go): the five goroutines of the errgroup, one
    access to a shared variable or blocking call per step, until the process ends.

  Correspondence. Definitions keep the names of the code; a prefix \<open>api_\<close>, \<open>gapi_\<close>, \<open>jwt_\<close>, \<open>paseto_\<close>
  tells methods of the same name apart, and \<open>sql_\<close> marks the meaning of a query text. A method that
  returns \<open>(value, error)\<close> is a sum, or a pair where callers see both; a handler takes the connection
  and returns its response with the connection after it; a Go interface is a record of its methods.
  Code outside the repository is a parameter: PostgreSQL's faults and clock and the driver's report
  for the commit of a failed transaction (\<open>env\<close>), gin's decoding, bcrypt, jwt-go, paseto,
  mail.ParseAddress, viper, asynq, encoding/json, the runtime of grpc-gateway (\<open>gw_runtime\<close>), the
  gRPC transport, the errgroup and whether and with what blocking calls return (\<open>setting\<close>). What is relied on of
  them is stated as \<open>reports_failed_commit\<close>, \<open>bcrypt_ok\<close>, \<open>jwt_lib_ok\<close>, \<open>paseto_lib_ok\<close>, \<open>maker_ok\<close>,
  \<open>json_ok\<close>, \<open>retries_documented\<close>, \<open>db_errors\<close>, \<open>answers_arrive\<close>, \<open>literal_patterns\<close>, \<open>errgroup_ok\<close> and \<open>servers_ok\<close>; Sample_Libs, \<open>good_env\<close>,
  \<open>sample_asynq\<close>, \<open>sample_retry\<close>, \<open>failing_env\<close>, \<open>sample_runtime\<close> and \<open>sample_setting\<close> satisfy them.

  Bounds. No definition needs fuel: all loops of the code range over finite lists or counters, and
  \<open>thread_run 3\<close> is the three store calls of \<open>createTransfer\<close>, \<open>thread_run 2\<close> the two of a login. \<open>int64\<close> and \<open>int32\<close> values are words, so
  overflow is the code's (the page offset, the negated amount); \<open>bigint\<close> arithmetic of the database
  fails out of range.

  Not modelled: the raw descriptors and the reflection code of generated protobuf messages, the
  generated mock, embedded documentation; asynq's scheduling (delays, weights and leases: the worker may
  run any task it has, at any time, and a run whose outcome is lost leaves the task where it was), TCP and
  HTTP framing; the
  console format of the log in development.

  Simplifications: in Bank_System a request runs to its end before the next, in Interleaved a store call
  does, in Concurrent_Program a statement of \<open>TransferTx\<close> or \<open>CreateUserTx\<close> or
  a request that writes no locked row and takes no name or email being registered (it waits), or one run
  of a task by the worker; asynq's error handler is called with every failed attempt, as it documents; the
  strings of tokens are taken to be valid UTF-8 (encoding/json, inside jwt-go and paseto, replaces other
  bytes), as \<open>jwt_lib_ok\<close> and \<open>paseto_lib_ok\<close> ask for every payload to come back as it was signed; a commit
  whose acknowledgement is lost is done; in Shutdown the goroutines of main.go interleave at accesses
  of \<open>err\<close> (a data race, so Go promises even less); halves of a microsecond are rounded
  to even when an instant is stored.
\<close>

section \<open>Properties of the whole program\<close>

text \<open>
  C1: whatever requests are served, in whatever order and with whatever faults, the books balance:
  the balances sum up to zero, each balance is the sum of the account's entries, the entries are
  exactly the two legs of each transfer, and every transfer is positive and within one currency.
\<close>

theorem reachable_books_balance:
  assumes "bank_reach w c"
  shows "(\<Sum>a \<leftarrow> accounts (c_db c). sint (acc_Balance a)) = 0 \<and>
    (\<forall>a \<in> set (accounts (c_db c)). sint (acc_Balance a) = entry_sum (acc_ID a) (entries (c_db c))) \<and>
    map (\<lambda>e. (ent_AccountID e, ent_Amount e)) (entries (c_db c)) = concat (map entry_pair (transfers (c_db c))) \<and>
    (\<forall>t \<in> set (transfers (c_db c)). 0 < sint (tr_Amount t) \<and>
       same_currency (tr_FromAccountID t) (tr_ToAccountID t) (c_db c))"
  using bank_reach_inv [OF assms]
  by (simp add: bank_inv_def ledger_ok_def total_balance_def double_entry_def transfers_ok_def)

theorem reachable_books_witness:
  "total_balance (c_db (snd (serve sample_libs sample_server good_env sample_rv '''' (CreateUserReq (Inr ann_registers)) empty_conn))) = 0"
proof -
  obtain resp c where run: "serve sample_libs sample_server good_env sample_rv '''' (CreateUserReq (Inr ann_registers)) empty_conn = (resp, c)"
    by fastforce
  have "bank_reach empty_redis empty_conn" by (rule bank_reach.started) (simp_all add: empty_conn_def)
  then have "bank_reach empty_redis c" by (rule bank_reach.stepped [OF _ bank_step.http_request [OF run]])
  from reachable_books_balance [OF this] run show ?thesis by (simp add: total_balance_def)
qed

text \<open>
  In every reachable state names, emails, ids and the pair of owner and currency are unique,
  every account is in a supported currency and belongs to a user, and every session belongs to a user.
\<close>

theorem reachable_accounts_valid:
  assumes "bank_reach w c"
  shows "distinct (map usr_Username (users (c_db c))) \<and> distinct (map usr_Email (users (c_db c))) \<and>
    distinct (map acc_ID (accounts (c_db c))) \<and>
    distinct (map (\<lambda>a. (acc_Owner a, acc_Currency a)) (accounts (c_db c))) \<and>
    (\<forall>a \<in> set (accounts (c_db c)). IsSupportCurrency (acc_Currency a) \<and> has_key usr_Username (acc_Owner a) (users (c_db c))) \<and>
    (\<forall>s \<in> set (sessions (c_db c)). has_key usr_Username (ses_Username s) (users (c_db c)))"
proof -
  note inv = bank_invD [OF conjunct2 [OF bank_reach_inv [OF assms]]]
  show ?thesis
    using inv(1,6) by (auto simp: wf_db_def keys_unique_def fks_ok_def currencies_ok_def has_key_iff)
qed

theorem reachable_accounts_witness:
  "distinct (map usr_Email (users (c_db
     (snd (serve sample_libs sample_server good_env sample_rv '''' (CreateUserReq (Inr ann_registers)) empty_conn)))))"
proof -
  obtain resp c where run: "serve sample_libs sample_server good_env sample_rv '''' (CreateUserReq (Inr ann_registers)) empty_conn = (resp, c)"
    by fastforce
  have "bank_reach empty_redis empty_conn" by (rule bank_reach.started) (simp_all add: empty_conn_def)
  then have "bank_reach empty_redis c" by (rule bank_reach.stepped [OF _ bank_step.http_request [OF run]])
  from reachable_accounts_valid [OF this] run show ?thesis by simp
qed

end
